(* ===== verification/Prelude.thy ===== *)
theory Prelude
  imports Main "HOL-Library.Multiset" "HOL-Library.AList" "HOL-Library.List_Lexorder" "HOL-Library.Char_ord"
begin

text \<open>
  What every component of the controller manager shares: the rendering of Go's errors and of
  its map types, the string functions of Go's standard library the code calls, and the generic
  lemmas about them.

  \<^item> A Go \<open>error\<close> is a value of \<open>go_error\<close>; the predicates of
    \<open>k8s.io/apimachinery/pkg/api/errors\<close> look at the kind of the error. A nil error is
    \<open>None\<close> where a function only returns an error, and \<open>Inr\<close> where it returns a value too.
  \<^item> A Go \<open>map[K]struct\<close> used as a set is the list of its keys without repetition; the order
    of the list is the order in which \<open>range\<close> visits the keys. Go leaves that order open, so
    statements about such sets are statements about \<open>set xs\<close> or hold for every list.
  \<^item> Instants and durations are integers counting nanoseconds.
\<close>

section \<open>Collections for the automation\<close>

named_theorems keyset_simps \<open>the elements of the key sets after one operation\<close>
named_theorems cache_defs \<open>the operations of the caches, unfolded\<close>
named_theorems world_simps \<open>what one call leaves of the world\<close>

section \<open>Errors\<close>

datatype go_error =
    NotFoundError string
  | ConflictError string
  | AlreadyExistsError string
  | OtherError string

fun Error :: "go_error \<Rightarrow> string" where
  "Error (NotFoundError m) = m"
| "Error (ConflictError m) = m"
| "Error (AlreadyExistsError m) = m"
| "Error (OtherError m) = m"

fun IsNotFound :: "go_error option \<Rightarrow> bool" where
  "IsNotFound (Some (NotFoundError _)) = True"
| "IsNotFound _ = False"

fun IsConflict :: "go_error option \<Rightarrow> bool" where
  "IsConflict (Some (ConflictError _)) = True"
| "IsConflict _ = False"

text \<open>Outcomes of code that can panic (a nil dereference, a write to a nil map).\<close>

datatype 'a outcome = Panic | Ok 'a

fun bind_outcome :: "'a outcome \<Rightarrow> ('a \<Rightarrow> 'b outcome) \<Rightarrow> 'b outcome" where
  "bind_outcome Panic f = Panic"
| "bind_outcome (Ok x) f = f x"

text \<open>A loop over the elements of a collection whose body can panic.\<close>

fun for_each :: "('s \<Rightarrow> 'a \<Rightarrow> 's outcome) \<Rightarrow> 's \<Rightarrow> 'a list \<Rightarrow> 's outcome" where
  "for_each f s [] = Ok s"
| "for_each f s (x # xs) = bind_outcome (f s x) (\<lambda>s'. for_each f s' xs)"

text \<open>
  The rule for such loops: an invariant over the elements already visited which the body keeps
  without panicking.
\<close>

lemma for_each_rule:
  assumes "I s []"
    and "\<And>s ys x. I s ys \<Longrightarrow> x \<in> set xs \<Longrightarrow> \<exists>s'. f s x = Ok s' \<and> I s' (ys @ [x])"
  shows "\<exists>s'. for_each f s xs = Ok s' \<and> I s' xs"
proof -
  have "\<exists>s'. for_each f s zs = Ok s' \<and> I s' (ys @ zs)"
    if "I s ys" and "set zs \<subseteq> set xs" for s ys zs
    using that
  proof (induction zs arbitrary: s ys)
    case (Cons z zs)
    then obtain s' where s': "f s z = Ok s'" "I s' (ys @ [z])"
      using assms(2) [OF Cons.prems(1)] by (meson list.set_intros(1) subsetD)
    from Cons.IH [OF s'(2)] Cons.prems(2) s'(1) show ?case by simp
  qed simp
  from this [OF assms(1) order_refl] show ?thesis by simp
qed

text \<open>And a rule for what holds if the loop does not panic.\<close>

lemma for_each_inv:
  assumes "for_each f s xs = Ok s'" and "I s" and "\<And>s x s'. f s x = Ok s' \<Longrightarrow> x \<in> set xs \<Longrightarrow> I s \<Longrightarrow> I s'"
  shows "I s'"
  using assms
proof (induction xs arbitrary: s)
  case (Cons x xs)
  then obtain t where "f s x = Ok t" "for_each f t xs = Ok s'" by (cases "f s x") auto
  with Cons show ?case by (meson list.set_intros)
qed simp

text \<open>A loop that ends with the first error, and its rules.\<close>

fun try_each :: "('s \<Rightarrow> 'a \<Rightarrow> go_error + 's) \<Rightarrow> 's \<Rightarrow> 'a list \<Rightarrow> go_error + 's" where
  "try_each f s [] = Inr s"
| "try_each f s (x # xs) = (case f s x of Inl err \<Rightarrow> Inl err | Inr s' \<Rightarrow> try_each f s' xs)"

lemma try_each_append:
  "try_each f s (xs @ ys) = (case try_each f s xs of Inl err \<Rightarrow> Inl err | Inr s' \<Rightarrow> try_each f s' ys)"
  by (induction xs arbitrary: s) (auto split: sum.split)

lemma try_each_inv:
  assumes "try_each f s xs = Inr s'" and "I s" and "\<And>s x s'. f s x = Inr s' \<Longrightarrow> x \<in> set xs \<Longrightarrow> I s \<Longrightarrow> I s'"
  shows "I s'"
  using assms
proof (induction xs arbitrary: s)
  case (Cons x xs)
  then obtain t where "f s x = Inr t" "try_each f t xs = Inr s'" by (cases "f s x") auto
  with Cons show ?case by (meson list.set_intros)
qed simp

text \<open>What one element establishes holds in the end, if the later ones keep it.\<close>

lemma try_each_elem:
  assumes "try_each f s xs = Inr s'" and "x \<in> set xs" and "\<And>s s'. f s x = Inr s' \<Longrightarrow> P s'"
    and "\<And>s y s'. f s y = Inr s' \<Longrightarrow> y \<in> set xs \<Longrightarrow> P s \<Longrightarrow> P s'"
  shows "P s'"
proof -
  obtain as bs where xs: "xs = as @ x # bs" using assms(2) by (meson split_list)
  then obtain t u where "f t x = Inr u" and rest: "try_each f u bs = Inr s'"
    using assms(1) by (auto simp: try_each_append split: sum.splits)
  then have "P u" using assms(3) by blast
  with rest show ?thesis by (rule try_each_inv) (use assms(4) xs in auto)
qed

lemma for_each_append: "for_each f s (xs @ ys) = bind_outcome (for_each f s xs) (\<lambda>s'. for_each f s' ys)"
proof (induction xs arbitrary: s)
  case (Cons x xs)
  then show ?case by (cases "f s x") auto
qed simp

lemma bind_outcome_Ok [simp]:
  "bind_outcome r f = Ok y \<longleftrightarrow> (\<exists>x. r = Ok x \<and> f x = Ok y)"
  by (cases r) auto

text \<open>The same rule for loops that cannot panic.\<close>

lemma foldl_rule:
  assumes "I s []" and "\<And>s ys x. I s ys \<Longrightarrow> x \<in> set xs \<Longrightarrow> I (f s x) (ys @ [x])"
  shows "I (foldl f s xs) xs"
proof -
  have "I (foldl f s zs) (ys @ zs)" if "I s ys" and "set zs \<subseteq> set xs" for s ys zs
    using that
  proof (induction zs arbitrary: s ys)
    case (Cons z zs)
    then have "I (f s z) (ys @ [z])"
      using assms(2) [OF Cons.prems(1)] by (meson list.set_intros(1) subsetD)
    from Cons.IH [OF this] Cons.prems(2) show ?case by simp
  qed simp
  from this [OF assms(1) order_refl] show ?thesis by simp
qed

section \<open>Time\<close>

type_synonym time = int
type_synonym duration = int

abbreviation Second :: duration where "Second \<equiv> 1000000000"
abbreviation Minute :: duration where "Minute \<equiv> 60000000000"

text \<open>\<open>Time.Sub\<close> saturates at the bounds of a 64-bit duration.\<close>

definition time_Sub :: "time \<Rightarrow> time \<Rightarrow> duration" where
  "time_Sub t u = max (- (2 ^ 63)) (min (2 ^ 63 - 1) (t - u))"

section \<open>Go maps used as sets\<close>

definition keyset_add :: "'a \<Rightarrow> 'a list \<Rightarrow> 'a list" where
  "keyset_add x xs = (if x \<in> set xs then xs else xs @ [x])"

definition keyset_remove :: "'a \<Rightarrow> 'a list \<Rightarrow> 'a list" where
  "keyset_remove x xs = removeAll x xs"

lemma set_keyset_add [simp, keyset_simps]: "set (keyset_add x xs) = insert x (set xs)"
  by (auto simp: keyset_add_def)

lemma distinct_keyset_add [simp]: "distinct (keyset_add x xs) = distinct xs"
  by (auto simp: keyset_add_def)

lemma set_keyset_remove [simp, keyset_simps]: "set (keyset_remove x xs) = set xs - {x}"
  by (simp add: keyset_remove_def)

lemma distinct_keyset_remove [intro]: "distinct xs \<Longrightarrow> distinct (keyset_remove x xs)"
  by (simp add: keyset_remove_def distinct_removeAll)

lemma keyset_add_not_Nil [simp]: "keyset_add x xs \<noteq> []"
  by (auto simp: keyset_add_def)

lemma keyset_add_idle [simp]: "x \<in> set xs \<Longrightarrow> keyset_add x xs = xs"
  by (simp add: keyset_add_def)

lemma keyset_remove_Nil_iff: "keyset_remove x xs = [] \<longleftrightarrow> set xs \<subseteq> {x}"
  by (metis Diff_eq_empty_iff set_empty set_keyset_remove)

section \<open>Strings\<close>

text \<open>\<open>strings.Split\<close> with a separator of one character.\<close>

fun Split :: "char \<Rightarrow> string \<Rightarrow> string list" where
  "Split c [] = [[]]"
| "Split c (x # xs) =
     (if x = c then [] # Split c xs
      else case Split c xs of [] \<Rightarrow> [[x]] | p # ps \<Rightarrow> (x # p) # ps)"

text \<open>\<open>strings.Join\<close>.\<close>

fun Join :: "string \<Rightarrow> string list \<Rightarrow> string" where
  "Join sep [] = []"
| "Join sep [p] = p"
| "Join sep (p # q # ps) = p @ sep @ Join sep (q # ps)"

text \<open>\<open>strings.Index\<close> with a pattern of one character, split at that place.\<close>

fun split_first :: "char \<Rightarrow> string \<Rightarrow> (string \<times> string) option" where
  "split_first c [] = None"
| "split_first c (x # xs) =
     (if x = c then Some ([], xs)
      else map_option (\<lambda>(p, q). (x # p, q)) (split_first c xs))"

definition is_space :: "char \<Rightarrow> bool" where
  "is_space c \<longleftrightarrow> c \<in> {CHR '' '', CHR 0x09, CHR 0x0A, CHR 0x0B, CHR 0x0C, CHR 0x0D}"

text \<open>\<open>strings.TrimSpace\<close> on ASCII text.\<close>

definition TrimSpace :: "string \<Rightarrow> string" where
  "TrimSpace s = rev (dropWhile is_space (rev (dropWhile is_space s)))"

text \<open>\<open>strings.ToLower\<close> on ASCII text.\<close>

definition lower_char :: "char \<Rightarrow> char" where
  "lower_char c = (let n = of_char c :: nat
                   in if 65 \<le> n \<and> n \<le> 90 then char_of (n + 32) else c)"

definition ToLower :: "string \<Rightarrow> string" where
  "ToLower s = map lower_char s"

text \<open>The verb \<open>%q\<close> on a name without characters to escape.\<close>

definition quoted :: "string \<Rightarrow> string" where
  "quoted s = [CHR 0x22] @ s @ [CHR 0x22]"

lemma Split_not_Nil [simp]: "Split c s \<noteq> []"
  by (cases s) (auto split: list.split)

lemma Split_no_sep: "c \<notin> set s \<Longrightarrow> Split c s = [s]"
  by (induction s) auto

lemma Split_append:
  "c \<notin> set p \<Longrightarrow> Split c (p @ c # s) = p # Split c s"
  by (induction p) auto

lemma length_Split: "length (Split c s) = Suc (count_list s c)"
  by (induction s) (auto split: list.split)

lemma Split_parts_no_sep: "p \<in> set (Split c s) \<Longrightarrow> c \<notin> set p"
proof (induction s arbitrary: p)
  case (Cons x xs)
  then show ?case
    by (cases "Split c xs") (auto split: if_splits)
qed simp

lemma Join_Cons: "ps \<noteq> [] \<Longrightarrow> Join sep (p # ps) = p @ sep @ Join sep ps"
  by (cases ps) auto

lemma Join_Split: "Join [c] (Split c s) = s"
proof (induction s)
  case (Cons x xs)
  show ?case
  proof (cases "x = c")
    case True
    with Cons.IH show ?thesis by (simp add: Join_Cons)
  next
    case False
    obtain p ps where s: "Split c xs = p # ps"
      by (meson Split_not_Nil neq_Nil_conv)
    have "Join [c] ((x # p) # ps) = x # Join [c] (p # ps)"
      by (cases ps) auto
    with False s Cons.IH show ?thesis by simp
  qed
qed simp

lemma Split_Join:
  "ps \<noteq> [] \<Longrightarrow> (\<forall>p\<in>set ps. c \<notin> set p) \<Longrightarrow> Split c (Join [c] ps) = ps"
  by (induction "[c]" ps rule: Join.induct) (auto simp: Split_no_sep Split_append)

lemma split_first_None [simp]: "c \<notin> set s \<Longrightarrow> split_first c s = None"
  by (induction s) auto

lemma split_first_append [simp]: "c \<notin> set p \<Longrightarrow> split_first c (p @ c # s) = Some (p, s)"
  by (induction p) auto

lemma TrimSpace_id:
  assumes "\<not> is_space (hd s)" and "\<not> is_space (last s)"
  shows "TrimSpace s = s"
proof (cases s)
  case Nil
  then show ?thesis by (simp add: TrimSpace_def)
next
  case (Cons x xs)
  have "dropWhile is_space (rev s) = rev s"
    using assms Cons by (metis dropWhile.simps(2) hd_rev list.discI list.exhaust_sel rev_is_Nil_conv)
  with assms Cons show ?thesis by (simp add: TrimSpace_def)
qed

end
