(* ===== verification/Keys.thy ===== *)
theory Keys
  imports Prelude
begin

text \<open>
  The names of objects, after \<open>resources/objectname.go\<close>, \<open>resources/keys.go\<close> and
  \<open>resources/utils.go\<close> of the controller manager library, and the string sets of
  \<open>utils/stringset.go\<close>. An object is named by its cluster, its group and kind, its
  namespace and its name; caches and work queues are keyed by that.
\<close>

section \<open>Names and keys\<close>

record GroupKind =
  gk_group :: string
  gk_kind :: string

record ObjectName =
  on_namespace :: string
  on_name :: string

record ObjectKey =
  ok_groupKind :: GroupKind
  ok_name :: ObjectName

record ClusterObjectKey =
  ck_cluster :: string
  ck_objectKey :: ObjectKey

definition NewGroupKind :: "string \<Rightarrow> string \<Rightarrow> GroupKind" where
  "NewGroupKind grp kind =
     \<lparr>gk_group = (if grp = ''core'' then '''' else grp), gk_kind = kind\<rparr>"

text \<open>\<open>NewObjectName\<close> takes one or two names and panics on any other number.\<close>

fun NewObjectName :: "string list \<Rightarrow> ObjectName outcome" where
  "NewObjectName [n] = Ok \<lparr>on_namespace = '''', on_name = n\<rparr>"
| "NewObjectName [ns, n] = Ok \<lparr>on_namespace = ns, on_name = n\<rparr>"
| "NewObjectName _ = Panic"

definition NewObjectName2 :: "string \<Rightarrow> string \<Rightarrow> ObjectName" where
  "NewObjectName2 ns n = \<lparr>on_namespace = ns, on_name = n\<rparr>"

definition NewKey :: "GroupKind \<Rightarrow> string \<Rightarrow> string \<Rightarrow> ObjectKey" where
  "NewKey gk ns n = \<lparr>ok_groupKind = gk, ok_name = NewObjectName2 ns n\<rparr>"

definition ForGroupKind :: "ObjectName \<Rightarrow> GroupKind \<Rightarrow> ObjectKey" where
  "ForGroupKind n gk = NewKey gk (on_namespace n) (on_name n)"

definition ForCluster :: "ObjectKey \<Rightarrow> string \<Rightarrow> ClusterObjectKey" where
  "ForCluster k cid = \<lparr>ck_cluster = cid, ck_objectKey = k\<rparr>"

definition NewClusterKey :: "string \<Rightarrow> GroupKind \<Rightarrow> string \<Rightarrow> string \<Rightarrow> ClusterObjectKey" where
  "NewClusterKey cluster gk ns n = \<lparr>ck_cluster = cluster, ck_objectKey = NewKey gk ns n\<rparr>"

abbreviation ck_groupKind :: "ClusterObjectKey \<Rightarrow> GroupKind" where
  "ck_groupKind k \<equiv> ok_groupKind (ck_objectKey k)"

abbreviation ck_name :: "ClusterObjectKey \<Rightarrow> ObjectName" where
  "ck_name k \<equiv> ok_name (ck_objectKey k)"

abbreviation ck_namespace :: "ClusterObjectKey \<Rightarrow> string" where
  "ck_namespace k \<equiv> on_namespace (ck_name k)"

lemma NewClusterKey_sel [simp]:
  "ck_cluster (NewClusterKey c gk ns n) = c"
  "ck_groupKind (NewClusterKey c gk ns n) = gk"
  "ck_namespace (NewClusterKey c gk ns n) = ns"
  "on_name (ck_name (NewClusterKey c gk ns n)) = n"
  by (simp_all add: NewClusterKey_def NewKey_def NewObjectName2_def)

lemma NewClusterKey_eq [simp]:
  "NewClusterKey c gk ns n = NewClusterKey c' gk' ns' n' \<longleftrightarrow>
     c = c' \<and> gk = gk' \<and> ns = ns' \<and> n = n'"
  by (auto simp: NewClusterKey_def NewKey_def NewObjectName2_def)

section \<open>Rendering and parsing\<close>

definition ObjectName_String :: "ObjectName \<Rightarrow> string" where
  "ObjectName_String n = on_namespace n @ ''/'' @ on_name n"

definition ObjectKey_String :: "ObjectKey \<Rightarrow> string" where
  "ObjectKey_String k =
     gk_group (ok_groupKind k) @ ''/'' @ gk_kind (ok_groupKind k) @ ''/'' @ ObjectName_String (ok_name k)"

definition asString :: "ClusterObjectKey \<Rightarrow> string" where
  "asString k = ck_cluster k @ '':'' @ ObjectKey_String (ck_objectKey k)"

definition AsRefFor :: "ClusterObjectKey \<Rightarrow> string \<Rightarrow> string" where
  "AsRefFor k clusterid =
     (if ck_cluster k = clusterid then ObjectKey_String (ck_objectKey k) else asString k)"

definition ParseClusterObjectKey :: "string \<Rightarrow> string \<Rightarrow> go_error + ClusterObjectKey" where
  "ParseClusterObjectKey clusterid key =
     (let (cid, key') = (case split_first CHR '':'' key of None \<Rightarrow> (clusterid, key) | Some (i, k) \<Rightarrow> (i, k))
      in case Split CHR ''/'' key' of
           [c0, c1, c2, c3] \<Rightarrow> Inr (NewClusterKey cid (NewGroupKind c0 c1) c2 c3)
         | _ \<Rightarrow> Inl (OtherError ''invalid cluster object key format''))"

definition ParseObjectName :: "string \<Rightarrow> go_error + ObjectName outcome" where
  "ParseObjectName name =
     (let comps = Split CHR ''/'' name
      in if length comps = 1 \<or> length comps = 2 then Inr (NewObjectName comps)
         else Inl (OtherError (''illegal object anme '' @ name)))"

text \<open>
  A key is readable when none of its parts holds the separators of the textual form, and its
  group is not spelled \<open>core\<close>, which \<open>NewGroupKind\<close> maps to the empty group. The id of a cluster may
  hold a slash, as the ids do that a cluster gets by default.
\<close>

definition plain :: "string \<Rightarrow> bool" where
  "plain s \<longleftrightarrow> CHR ''/'' \<notin> set s \<and> CHR '':'' \<notin> set s"

definition readable_key :: "ClusterObjectKey \<Rightarrow> bool" where
  "readable_key k \<longleftrightarrow>
     CHR '':'' \<notin> set (ck_cluster k) \<and> plain (gk_group (ck_groupKind k)) \<and> plain (gk_kind (ck_groupKind k)) \<and>
     plain (ck_namespace k) \<and> plain (on_name (ck_name k)) \<and> gk_group (ck_groupKind k) \<noteq> ''core''"

lemma Split_ObjectKey_String:
  assumes "CHR ''/'' \<notin> set (gk_group (ok_groupKind k))" and "CHR ''/'' \<notin> set (gk_kind (ok_groupKind k))"
    and "CHR ''/'' \<notin> set (on_namespace (ok_name k))" and "CHR ''/'' \<notin> set (on_name (ok_name k))"
  shows "Split CHR ''/'' (ObjectKey_String k) =
    [gk_group (ok_groupKind k), gk_kind (ok_groupKind k), on_namespace (ok_name k), on_name (ok_name k)]"
  using assms by (simp add: ObjectKey_String_def ObjectName_String_def Split_append Split_no_sep)

lemma colon_ObjectKey_String:
  "readable_key k \<Longrightarrow> CHR '':'' \<notin> set (ObjectKey_String (ck_objectKey k))"
  by (simp add: readable_key_def plain_def ObjectKey_String_def ObjectName_String_def)

lemma NewClusterKey_of_parts:
  "gk_group (ck_groupKind k) \<noteq> ''core'' \<Longrightarrow>
   NewClusterKey (ck_cluster k) (NewGroupKind (gk_group (ck_groupKind k)) (gk_kind (ck_groupKind k)))
     (ck_namespace k) (on_name (ck_name k)) = k"
  by (simp add: NewClusterKey_def NewGroupKind_def NewKey_def NewObjectName2_def)

lemma split_first_asString:
  "readable_key k \<Longrightarrow>
   split_first CHR '':'' (asString k) = Some (ck_cluster k, ObjectKey_String (ck_objectKey k))"
  by (simp add: asString_def readable_key_def plain_def)

lemma Parse_AsRefFor:
  assumes "readable_key k"
  shows "ParseClusterObjectKey c (AsRefFor k c) = Inr k"
proof -
  have split: "Split CHR ''/'' (ObjectKey_String (ck_objectKey k)) =
      [gk_group (ck_groupKind k), gk_kind (ck_groupKind k), ck_namespace k, on_name (ck_name k)]"
    using assms by (intro Split_ObjectKey_String) (simp_all add: readable_key_def plain_def)
  have whole: "NewClusterKey (ck_cluster k) (NewGroupKind (gk_group (ck_groupKind k)) (gk_kind (ck_groupKind k)))
      (ck_namespace k) (on_name (ck_name k)) = k"
    using assms by (intro NewClusterKey_of_parts) (simp add: readable_key_def)
  have none: "split_first CHR '':'' (ObjectKey_String (ck_objectKey k)) = None"
    using colon_ObjectKey_String [OF assms] by simp
  show ?thesis
  proof (cases "ck_cluster k = c")
    case True
    with split whole none show ?thesis
      by (simp add: ParseClusterObjectKey_def AsRefFor_def)
  next
    case False
    with split whole split_first_asString [OF assms] show ?thesis
      by (simp add: ParseClusterObjectKey_def AsRefFor_def)
  qed
qed

section \<open>Sets of keys\<close>

text \<open>
  \<open>ClusterObjectKeySet\<close>, \<open>StringSet\<close> and the other set types have the same methods, generated
  from one template; they are polymorphic here.
\<close>

type_synonym ClusterObjectKeySet = "ClusterObjectKey list"
type_synonym StringSet = "string list"

definition Add :: "'a list \<Rightarrow> 'a list \<Rightarrow> 'a list" where
  "Add this n = foldl (\<lambda>s p. keyset_add p s) this n"

definition NewStringSet :: "string list \<Rightarrow> StringSet" where
  "NewStringSet a = Add [] a"

definition Equals :: "'a list \<Rightarrow> 'a list \<Rightarrow> bool" where
  "Equals this other \<longleftrightarrow> list_all (\<lambda>n. n \<in> set this) other \<and> list_all (\<lambda>n. n \<in> set other) this"

text \<open>
  \<open>DiffFrom\<close> answers what has to be added to and removed from the receiver to get the
  argument: \<open>add\<close> holds the elements of the argument missing in the receiver.
\<close>

definition DiffFrom :: "'a list \<Rightarrow> 'a list \<Rightarrow> 'a list \<times> 'a list" where
  "DiffFrom this other = (filter (\<lambda>n. n \<notin> set this) other, filter (\<lambda>n. n \<notin> set other) this)"

definition FilterKeysByGroupKinds :: "ClusterObjectKeySet \<Rightarrow> GroupKind list \<Rightarrow> ClusterObjectKeySet" where
  "FilterKeysByGroupKinds keys kinds =
     (if kinds = [] then keys else filter (\<lambda>k. list_ex (\<lambda>g. ck_groupKind k = g) kinds) keys)"

definition StringSet_String :: "StringSet \<Rightarrow> string" where
  "StringSet_String this = ''['' @ Join '', '' (map (\<lambda>k. [CHR 0x27] @ k @ [CHR 0x27]) this) @ '']''"

lemma set_Add [simp, keyset_simps]: "set (Add xs n) = set xs \<union> set n"
  unfolding Add_def by (induction n arbitrary: xs) auto

lemma distinct_Add [simp]: "distinct (Add xs n) = distinct xs"
  unfolding Add_def by (induction n arbitrary: xs) auto

lemma set_NewStringSet [simp, keyset_simps]: "set (NewStringSet a) = set a"
  by (simp add: NewStringSet_def)

lemma Equals_iff [simp, keyset_simps]: "Equals a b \<longleftrightarrow> set a = set b"
  by (auto simp: Equals_def list_all_iff)

lemma set_DiffFrom [keyset_simps]:
  "set (fst (DiffFrom a b)) = set b - set a" "set (snd (DiffFrom a b)) = set a - set b"
  by (auto simp: DiffFrom_def)

text \<open>\<open>add\<close> and \<open>del\<close> lead from the receiver to the argument, not the other way round.\<close>

lemma DiffFrom_applies:
  "DiffFrom this other = (a, d) \<Longrightarrow> (set this \<union> set a) - set d = set other"
  by (auto simp: DiffFrom_def)

end
