(* ===== verification/Api.thy ===== *)
theory Api
  imports Keys
begin

text \<open>
  The resources the controllers work on: the custom resources of
  \<open>pkg/apis/loadbalancer/v1beta1\<close> and the parts of services and ingresses the endpoint
  controller reads. A pointer field is an \<open>option\<close>, a slice that can be nil an optional list.
  The id of the cluster an object was read from, which the code keeps in the object's wrapper,
  is a field of its metadata.
\<close>

section \<open>Object metadata\<close>

record OwnerReference =
  or_apiVersion :: string
  or_kind :: string
  or_name :: string
  or_uid :: string

text \<open>Labels are an optional map because writing to a nil map panics.\<close>

record ObjectMeta =
  m_cluster :: string
  m_namespace :: string
  m_name :: string
  m_generateName :: string
  m_uid :: string
  m_resourceVersion :: string
  m_labels :: "(string \<rightharpoonup> string) option"
  m_annotations :: "string \<rightharpoonup> string"
  m_finalizers :: "string list"
  m_ownerReferences :: "OwnerReference list"
  m_creationTimestamp :: time
  m_deletionTimestamp :: "time option"

definition IsDeleting :: "ObjectMeta \<Rightarrow> bool" where
  "IsDeleting m \<longleftrightarrow> m_deletionTimestamp m \<noteq> None"

definition meta_ObjectName :: "ObjectMeta \<Rightarrow> ObjectName" where
  "meta_ObjectName m = NewObjectName2 (m_namespace m) (m_name m)"

definition meta_ClusterKey :: "GroupKind \<Rightarrow> ObjectMeta \<Rightarrow> ClusterObjectKey" where
  "meta_ClusterKey gk m = NewClusterKey (m_cluster m) gk (m_namespace m) (m_name m)"

definition GetLabel :: "ObjectMeta \<Rightarrow> string \<Rightarrow> string" where
  "GetLabel m name =
     (case m_labels m of None \<Rightarrow> '''' | Some ls \<Rightarrow> (case ls name of None \<Rightarrow> '''' | Some v \<Rightarrow> v))"

section \<open>The custom resources\<close>

definition GroupName :: string where
  "GroupName = ''loadbalancer.gardener.cloud''"

definition LoadBalancerResourceKind :: string where
  "LoadBalancerResourceKind = ''DNSLoadBalancer''"

definition LoadBalancerEndpointResourceKind :: string where
  "LoadBalancerEndpointResourceKind = ''DNSLoadBalancerEndpoint''"

definition LoadBalancerGroupKind :: GroupKind where
  "LoadBalancerGroupKind = \<lparr>gk_group = GroupName, gk_kind = LoadBalancerResourceKind\<rparr>"

definition LoadBalancerEndpointGroupKind :: GroupKind where
  "LoadBalancerEndpointGroupKind = \<lparr>gk_group = GroupName, gk_kind = LoadBalancerEndpointResourceKind\<rparr>"

lemmas group_defs = GroupName_def LoadBalancerResourceKind_def LoadBalancerEndpointResourceKind_def
  LoadBalancerGroupKind_def LoadBalancerEndpointGroupKind_def

record DNSLoadBalancerSpec =
  DNSName :: string
  HealthPath :: string
  StatusCode :: int
  Type :: string
  TTL :: "int option"
  Singleton :: "bool option"
  EndpointValidityInterval :: "duration option"

definition LBTYPE_BALANCED :: string where
  "LBTYPE_BALANCED = ''Balanced''"

definition LBTYPE_EXCLUSIVE :: string where
  "LBTYPE_EXCLUSIVE = ''Exclusive''"

lemma lbtypes [simp]:
  "LBTYPE_BALANCED \<noteq> LBTYPE_EXCLUSIVE" "LBTYPE_EXCLUSIVE \<noteq> LBTYPE_BALANCED"
  "LBTYPE_BALANCED \<noteq> []" "LBTYPE_EXCLUSIVE \<noteq> []" "[] \<noteq> LBTYPE_BALANCED" "[] \<noteq> LBTYPE_EXCLUSIVE"
  by (simp_all add: LBTYPE_BALANCED_def LBTYPE_EXCLUSIVE_def)

record DNSLoadBalancerActive =
  a_Endpoint :: string
  a_IPAddress :: string
  a_CName :: string

record DNSLoadBalancerStatus =
  lbs_State :: "string option"
  lbs_Message :: "string option"
  lbs_Active :: "DNSLoadBalancerActive list option"

record DNSLoadBalancer =
  lb_meta :: ObjectMeta
  lb_spec :: DNSLoadBalancerSpec
  lb_status :: DNSLoadBalancerStatus

record DNSLoadBalancerEndpointSpec =
  LoadBalancerRef :: string
  IPAddress :: string
  CName :: string

record DNSLoadBalancerEndpointStatus =
  eps_State :: "string option"
  eps_Message :: "string option"
  eps_Healthy :: bool
  eps_ValidUntil :: "time option"

record DNSLoadBalancerEndpoint =
  ep_meta :: ObjectMeta
  ep_spec :: DNSLoadBalancerEndpointSpec
  ep_status :: DNSLoadBalancerEndpointStatus

definition lb_ClusterKey :: "DNSLoadBalancer \<Rightarrow> ClusterObjectKey" where
  "lb_ClusterKey lb = meta_ClusterKey LoadBalancerGroupKind (lb_meta lb)"

definition ep_ClusterKey :: "DNSLoadBalancerEndpoint \<Rightarrow> ClusterObjectKey" where
  "ep_ClusterKey ep = meta_ClusterKey LoadBalancerEndpointGroupKind (ep_meta ep)"

section \<open>States\<close>

definition STATE_ERROR :: string where "STATE_ERROR = ''Error''"
definition STATE_INVALID :: string where "STATE_INVALID = ''Invalid''"
definition STATE_PENDING :: string where "STATE_PENDING = ''Pending''"
definition STATE_UNREACHABLE :: string where "STATE_UNREACHABLE = ''Unreachable''"
definition STATE_HEALTHY :: string where "STATE_HEALTHY = ''Healthy''"
definition STATE_ACTIVE :: string where "STATE_ACTIVE = ''Active''"
definition STATE_INACTIVE :: string where "STATE_INACTIVE = ''Inactive''"

lemmas state_defs = STATE_ERROR_def STATE_INVALID_def STATE_PENDING_def STATE_UNREACHABLE_def
  STATE_HEALTHY_def STATE_ACTIVE_def STATE_INACTIVE_def

lemma states_not_empty [simp]:
  "STATE_ERROR \<noteq> []" "STATE_INVALID \<noteq> []" "STATE_PENDING \<noteq> []" "STATE_UNREACHABLE \<noteq> []"
  "STATE_HEALTHY \<noteq> []" "STATE_ACTIVE \<noteq> []" "STATE_INACTIVE \<noteq> []"
  by (simp_all add: state_defs)

lemma states_distinct [simp]:
  "distinct [STATE_ERROR, STATE_INVALID, STATE_PENDING, STATE_UNREACHABLE, STATE_HEALTHY,
     STATE_ACTIVE, STATE_INACTIVE]"
  by (simp add: state_defs)

lemma states_neq [simp]:
  "STATE_ERROR \<noteq> STATE_PENDING" "STATE_HEALTHY \<noteq> STATE_PENDING" "STATE_UNREACHABLE \<noteq> STATE_PENDING"
  "STATE_INVALID \<noteq> STATE_PENDING" "STATE_HEALTHY \<noteq> STATE_UNREACHABLE" "STATE_HEALTHY \<noteq> STATE_ERROR"
  "STATE_UNREACHABLE \<noteq> STATE_ERROR" "STATE_ACTIVE \<noteq> STATE_INACTIVE" "STATE_INVALID \<noteq> STATE_ERROR"
  using states_distinct by auto

section \<open>Services and ingresses\<close>

record LoadBalancerIngress =
  lbi_IP :: string
  lbi_Hostname :: string

text \<open>
  The fields of \<open>v1.Service\<close> (its type and the addresses assigned to it) and of
  \<open>extensions/v1beta1.Ingress\<close> (assigned addresses and the hosts of its rules, in order) the
  controller reads.
\<close>

datatype SourceData =
    ServiceData string "LoadBalancerIngress list"
  | IngressData "LoadBalancerIngress list" "string list"
  | OtherData

record SourceObject =
  s_groupKind :: GroupKind
  s_meta :: ObjectMeta
  s_data :: SourceData

definition s_ClusterKey :: "SourceObject \<Rightarrow> ClusterObjectKey" where
  "s_ClusterKey s = meta_ClusterKey (s_groupKind s) (s_meta s)"

section \<open>DNS entries\<close>

text \<open>
  The entries that say which targets a DNS name has (\<open>apis/dns/v1alpha1\<close> of the external DNS
  management). The fields the DNS controllers of that project write are part of the status.
\<close>

record DNSEntrySpec =
  des_DNSName :: string
  des_OwnerId :: "string option"
  des_TTL :: "int option"
  des_CNameLookupInterval :: "int option"
  des_Text :: "string list"
  des_Targets :: "string list"

record DNSEntryStatus =
  det_ObservedGeneration :: int
  det_State :: string
  det_Message :: "string option"
  det_ProviderType :: "string option"
  det_Provider :: "string option"
  det_Zone :: "string option"
  det_TTL :: "int option"
  det_Targets :: "string list"

record DNSEntry =
  de_meta :: ObjectMeta
  de_spec :: DNSEntrySpec
  de_status :: DNSEntryStatus

definition entryGK :: GroupKind where
  "entryGK = NewGroupKind ''dns.gardener.cloud'' ''DNSEntry''"

definition de_ClusterKey :: "DNSEntry \<Rightarrow> ClusterObjectKey" where
  "de_ClusterKey e = meta_ClusterKey entryGK (de_meta e)"

end
