(* ===== verification/World.thy ===== *)
theory World
  imports Api
begin

text \<open>
  What the controllers act on. Every call that leaves the process (writes to the API server,
  events, additions to the work queue) is recorded in a trace, in the order the code makes
  them. The answers of the API server are parameters collected in \<open>api\<close>; an answer may depend
  on everything that happened before, so nothing is assumed about the server. The gauges of the
  metrics endpoint and the log state of \<open>statelog.go\<close> are process state.

  Plain log output is left out.
\<close>

section \<open>Effects\<close>

datatype effect =
    UpdateLB DNSLoadBalancer
  | UpdateEP DNSLoadBalancerEndpoint
  | CreateEP DNSLoadBalancerEndpoint
  | DeleteEP ClusterObjectKey
  | UpdateSource SourceObject
  | GetSource ClusterObjectKey
  | EventOn ClusterObjectKey string string string
  | EnqueueKey ClusterObjectKey
  | CreateEntry DNSEntry
  | UpdateEntry DNSEntry
  | DeleteEntry ClusterObjectKey
  | GetEntry ClusterObjectKey

type_synonym trace = "effect list"

record api =
  api_updateLB :: "trace \<Rightarrow> DNSLoadBalancer \<Rightarrow> go_error + DNSLoadBalancer"
  api_updateEP :: "trace \<Rightarrow> DNSLoadBalancerEndpoint \<Rightarrow> go_error + DNSLoadBalancerEndpoint"
  api_createEP :: "trace \<Rightarrow> DNSLoadBalancerEndpoint \<Rightarrow> go_error + DNSLoadBalancerEndpoint"
  api_deleteEP :: "trace \<Rightarrow> ClusterObjectKey \<Rightarrow> go_error option"
  api_updateSource :: "trace \<Rightarrow> SourceObject \<Rightarrow> go_error + SourceObject"
  api_getSource :: "trace \<Rightarrow> ClusterObjectKey \<Rightarrow> go_error + SourceObject"
  api_createEntry :: "trace \<Rightarrow> DNSEntry \<Rightarrow> go_error + DNSEntry"
  api_updateEntry :: "trace \<Rightarrow> DNSEntry \<Rightarrow> go_error + DNSEntry"
  api_deleteEntry :: "trace \<Rightarrow> ClusterObjectKey \<Rightarrow> go_error option"
  api_getEntry :: "trace \<Rightarrow> ClusterObjectKey \<Rightarrow> go_error + DNSEntry"

record world =
  w_trace :: trace
  w_gauges :: "string \<times> string list \<rightharpoonup> int"
  w_state :: "string \<rightharpoonup> string"
  w_lines :: "string list"

definition init_world :: world where
  "init_world = \<lparr>w_trace = [], w_gauges = Map.empty, w_state = Map.empty, w_lines = []\<rparr>"

definition emit :: "effect \<Rightarrow> world \<Rightarrow> world" where
  "emit e w = w\<lparr>w_trace := w_trace w @ [e]\<rparr>"

lemma emit_sel [simp, world_simps]:
  "w_trace (emit e w) = w_trace w @ [e]"
  "w_gauges (emit e w) = w_gauges w"
  "w_state (emit e w) = w_state w"
  "w_lines (emit e w) = w_lines w"
  by (simp_all add: emit_def)

section \<open>Calls\<close>

text \<open>
  \<open>Update\<close> of \<open>resources/obj_lifecycle.go\<close>: on success the wrapper takes the server's version
  of the object, on failure it keeps its own.
\<close>

definition lb_Update :: "api \<Rightarrow> DNSLoadBalancer \<Rightarrow> world \<Rightarrow> DNSLoadBalancer \<times> go_error option \<times> world" where
  "lb_Update a lb w =
     (let w' = emit (UpdateLB lb) w
      in case api_updateLB a (w_trace w) lb of
           Inl err \<Rightarrow> (lb, Some err, w')
         | Inr result \<Rightarrow> (result, None, w'))"

definition ep_Update ::
  "api \<Rightarrow> DNSLoadBalancerEndpoint \<Rightarrow> world \<Rightarrow> DNSLoadBalancerEndpoint \<times> go_error option \<times> world" where
  "ep_Update a ep w =
     (let w' = emit (UpdateEP ep) w
      in case api_updateEP a (w_trace w) ep of
           Inl err \<Rightarrow> (ep, Some err, w')
         | Inr result \<Rightarrow> (result, None, w'))"

definition ep_Create ::
  "api \<Rightarrow> DNSLoadBalancerEndpoint \<Rightarrow> world \<Rightarrow> DNSLoadBalancerEndpoint \<times> go_error option \<times> world" where
  "ep_Create a ep w =
     (let w' = emit (CreateEP ep) w
      in case api_createEP a (w_trace w) ep of
           Inl err \<Rightarrow> (ep, Some err, w')
         | Inr result \<Rightarrow> (result, None, w'))"

definition ep_Delete :: "api \<Rightarrow> DNSLoadBalancerEndpoint \<Rightarrow> world \<Rightarrow> go_error option \<times> world" where
  "ep_Delete a ep w =
     (api_deleteEP a (w_trace w) (ep_ClusterKey ep), emit (DeleteEP (ep_ClusterKey ep)) w)"

definition de_Create :: "api \<Rightarrow> DNSEntry \<Rightarrow> world \<Rightarrow> DNSEntry \<times> go_error option \<times> world" where
  "de_Create a e w =
     (let w' = emit (CreateEntry e) w
      in case api_createEntry a (w_trace w) e of
           Inl err \<Rightarrow> (e, Some err, w')
         | Inr result \<Rightarrow> (result, None, w'))"

definition de_Delete :: "api \<Rightarrow> DNSEntry \<Rightarrow> world \<Rightarrow> go_error option \<times> world" where
  "de_Delete a e w =
     (api_deleteEntry a (w_trace w) (de_ClusterKey e), emit (DeleteEntry (de_ClusterKey e)) w)"

text \<open>The calls of \<open>I_update\<close> and \<open>I_get\<close> that modifying an object makes, for the two kinds that are modified.\<close>

definition source_update :: "api \<Rightarrow> SourceObject \<Rightarrow> world \<Rightarrow> (go_error + SourceObject) \<times> world" where
  "source_update a s w = (api_updateSource a (w_trace w) s, emit (UpdateSource s) w)"

definition source_get :: "api \<Rightarrow> SourceObject \<Rightarrow> world \<Rightarrow> (go_error + SourceObject) \<times> world" where
  "source_get a s w = (api_getSource a (w_trace w) (s_ClusterKey s), emit (GetSource (s_ClusterKey s)) w)"

definition de_update :: "api \<Rightarrow> DNSEntry \<Rightarrow> world \<Rightarrow> (go_error + DNSEntry) \<times> world" where
  "de_update a e w = (api_updateEntry a (w_trace w) e, emit (UpdateEntry e) w)"

definition de_get :: "api \<Rightarrow> DNSEntry \<Rightarrow> world \<Rightarrow> (go_error + DNSEntry) \<times> world" where
  "de_get a e w = (api_getEntry a (w_trace w) (de_ClusterKey e), emit (GetEntry (de_ClusterKey e)) w)"

definition lb_Event :: "DNSLoadBalancer \<Rightarrow> string \<Rightarrow> string \<Rightarrow> string \<Rightarrow> world \<Rightarrow> world" where
  "lb_Event lb ty reason msg w = emit (EventOn (lb_ClusterKey lb) ty reason msg) w"

definition s_Event :: "SourceObject \<Rightarrow> string \<Rightarrow> string \<Rightarrow> string \<Rightarrow> world \<Rightarrow> world" where
  "s_Event s ty reason msg w = emit (EventOn (s_ClusterKey s) ty reason msg) w"

abbreviation EventTypeNormal :: string where "EventTypeNormal \<equiv> ''Normal''"
abbreviation EventTypeWarning :: string where "EventTypeWarning \<equiv> ''Warning''"

text \<open>The writes in a trace, with events and queue operations left out.\<close>

fun is_write :: "effect \<Rightarrow> bool" where
  "is_write (EventOn _ _ _ _) = False"
| "is_write (EnqueueKey _) = False"
| "is_write (GetSource _) = False"
| "is_write (GetEntry _) = False"
| "is_write _ = True"

definition writes :: "trace \<Rightarrow> trace" where
  "writes t = filter is_write t"

lemma writes_append [simp]: "writes (s @ t) = writes s @ writes t"
  by (simp add: writes_def)

lemma writes_Nil [simp]: "writes [] = []"
  by (simp add: writes_def)

lemma writes_Cons [simp]: "writes (e # t) = (if is_write e then e # writes t else writes t)"
  by (simp add: writes_def)

lemma lb_Update_world [simp, world_simps]: "snd (snd (lb_Update a lb w)) = emit (UpdateLB lb) w"
  by (simp add: lb_Update_def Let_def split: sum.split)

lemma ep_Update_world [simp, world_simps]: "snd (snd (ep_Update a ep w)) = emit (UpdateEP ep) w"
  by (simp add: ep_Update_def Let_def split: sum.split)

lemma ep_Create_world [simp, world_simps]: "snd (snd (ep_Create a ep w)) = emit (CreateEP ep) w"
  by (simp add: ep_Create_def Let_def split: sum.split)

lemma ep_Delete_world [simp, world_simps]: "snd (ep_Delete a ep w) = emit (DeleteEP (ep_ClusterKey ep)) w"
  by (simp add: ep_Delete_def)

lemma lb_Update_worldD: "lb_Update a lb w = (r, err, w') \<Longrightarrow> w' = emit (UpdateLB lb) w"
  using lb_Update_world [of a lb w] by simp

lemma ep_Update_worldD: "ep_Update a ep w = (r, err, w') \<Longrightarrow> w' = emit (UpdateEP ep) w"
  using ep_Update_world [of a ep w] by simp

text \<open>From one world to a later one: only effects of a kind were added.\<close>

definition adds :: "(effect \<Rightarrow> bool) \<Rightarrow> world \<Rightarrow> world \<Rightarrow> bool" where
  "adds P w w' \<longleftrightarrow> (\<exists>t. w_trace w' = w_trace w @ t \<and> (\<forall>e\<in>set t. P e))"

lemma addsI: "w_trace w' = w_trace w @ t \<Longrightarrow> (\<forall>e\<in>set t. P e) \<Longrightarrow> adds P w w'"
  unfolding adds_def by blast

lemma adds_refl [simp, intro]: "adds P w w"
  by (simp add: adds_def)

lemma adds_emit [simp]: "P e \<Longrightarrow> adds P w (emit e w)"
  by (simp add: adds_def)

lemma adds_trans: "adds P u v \<Longrightarrow> adds P v w \<Longrightarrow> adds P u w"
  unfolding adds_def by (metis Un_iff append.assoc set_append)

lemma adds_mono: "adds P v w \<Longrightarrow> (\<And>e. P e \<Longrightarrow> Q e) \<Longrightarrow> adds Q v w"
  unfolding adds_def by blast

lemma adds_foldl:
  assumes "\<And>s x. x \<in> set xs \<Longrightarrow> adds P (g s) (g (f s x))"
  shows "adds P (g s) (g (foldl f s xs))"
  using assms by (induction xs arbitrary: s) (auto intro: adds_trans)

lemma adds_for_each:
  assumes "for_each f s xs = Ok s'" and "\<And>s x s'. f s x = Ok s' \<Longrightarrow> x \<in> set xs \<Longrightarrow> adds P (g s) (g s')"
  shows "adds P (g s) (g s')"
  by (rule for_each_inv [OF assms(1), where I = "\<lambda>t. adds P (g s) (g t)"]) (auto intro: adds_trans assms(2))

lemma foldl_trace:
  assumes "\<And>w x. x \<in> set xs \<Longrightarrow> w_trace (f w x) = w_trace w @ g x"
  shows "w_trace (foldl f w xs) = w_trace w @ concat (map g xs)"
  using assms by (induction xs arbitrary: w) auto

end
