(* ===== verification/Metrics.thy ===== *)
theory Metrics
  imports World
begin

text \<open>
  The gauges of \<open>pkg/server/metrics/metrics.go\<close>. A gauge vector is a map from label values to
  values; all vectors share one map, keyed by the name of the metric and the label values.
\<close>

definition setActive :: "string \<times> string list \<Rightarrow> bool \<Rightarrow> world \<Rightarrow> world" where
  "setActive g active w = w\<lparr>w_gauges := (w_gauges w)(g \<mapsto> (if active then 1 else 0))\<rparr>"

definition EndpointHealth :: "string list \<Rightarrow> string \<times> string list" where
  "EndpointHealth labels = (''endpoint_health'', labels)"

definition EndpointHosts :: "string list \<Rightarrow> string \<times> string list" where
  "EndpointHosts labels = (''endpoint_hosts'', labels)"

definition EndpointActive :: "string list \<Rightarrow> string \<times> string list" where
  "EndpointActive labels = (''endpoint_active'', labels)"

definition LoadBalancers :: "string list \<Rightarrow> string \<times> string list" where
  "LoadBalancers labels = (''loadbalancer_health'', labels)"

definition LoadBalancerDNS :: "string list \<Rightarrow> string \<times> string list" where
  "LoadBalancerDNS labels = (''loadbalancer_dnsnames'', labels)"

lemmas gauge_defs = EndpointHealth_def EndpointHosts_def EndpointActive_def LoadBalancers_def LoadBalancerDNS_def

definition ReportEndpoint :: "string \<Rightarrow> string \<Rightarrow> string \<Rightarrow> bool \<Rightarrow> world \<Rightarrow> world" where
  "ReportEndpoint lb key host active w =
     setActive (EndpointHosts [lb, key, host]) active (setActive (EndpointHealth [lb, key]) active w)"

definition ReportActiveEndpoint :: "ObjectName \<Rightarrow> ObjectName \<Rightarrow> bool \<Rightarrow> world \<Rightarrow> world" where
  "ReportActiveEndpoint lb key active w =
     setActive (EndpointActive [ObjectName_String lb, ObjectName_String key]) active w"

definition ReportLB :: "string \<Rightarrow> string \<Rightarrow> bool \<Rightarrow> world \<Rightarrow> world" where
  "ReportLB key dns active w =
     setActive (LoadBalancerDNS [key, dns]) active (setActive (LoadBalancers [key]) active w)"

lemma setActive_sel [simp, world_simps]:
  "w_trace (setActive g b w) = w_trace w" "w_state (setActive g b w) = w_state w"
  "w_lines (setActive g b w) = w_lines w"
  "w_gauges (setActive g b w) = (w_gauges w)(g \<mapsto> (if b then 1 else 0))"
  by (simp_all add: setActive_def)

lemma Report_sel [simp, world_simps]:
  "w_trace (ReportEndpoint lb key host b w) = w_trace w"
  "w_trace (ReportActiveEndpoint l k b w) = w_trace w"
  "w_trace (ReportLB key dns b w) = w_trace w"
  "w_state (ReportEndpoint lb key host b w) = w_state w"
  "w_state (ReportActiveEndpoint l k b w) = w_state w"
  "w_state (ReportLB key dns b w) = w_state w"
  by (simp_all add: ReportEndpoint_def ReportActiveEndpoint_def ReportLB_def)

section \<open>Reconcile times\<close>

text \<open>
  The two plain gauges and the instant of the last start. \<open>None\<close> is Go's zero time. Dividing a
  duration by a second truncates towards zero.
\<close>

record reconcile_times =
  lastReconcile :: "time option"
  DNSReconciler :: int
  DNSReconcileTime :: int

definition trunc_div :: "int \<Rightarrow> int \<Rightarrow> int" where
  "trunc_div a b = (if 0 \<le> a then a div b else - ((- a) div b))"

definition ReportStartDNSReconcile :: "time \<Rightarrow> reconcile_times \<Rightarrow> reconcile_times" where
  "ReportStartDNSReconcile now t =
     (let t' = (case lastReconcile t of
                  None \<Rightarrow> t
                | Some l \<Rightarrow> t\<lparr>DNSReconciler := trunc_div (time_Sub now l) Second\<rparr>)
      in t'\<lparr>lastReconcile := Some now\<rparr>)"

definition ReportDoneDNSReconcile :: "time \<Rightarrow> time \<Rightarrow> reconcile_times \<Rightarrow> reconcile_times \<times> int" where
  "ReportDoneDNSReconcile zero_time now t =
     (let d = trunc_div (time_Sub now (case lastReconcile t of None \<Rightarrow> zero_time | Some l \<Rightarrow> l)) Second
      in (t\<lparr>DNSReconcileTime := d\<rparr>, d))"

end
