(* ===== verification/Objects.thy ===== *)
theory Objects
  imports World
begin

text \<open>
  Changing objects and noticing it: the assure functions of \<open>utils/values.go\<close>, and on them the
  state updates of \<open>pkg/dnslb/utils\<close> for load balancers and endpoints, which write to the API
  server only when a field really changed.
\<close>

section \<open>Assuring field values\<close>

definition AssureBoolValue :: "bool \<Rightarrow> bool \<Rightarrow> bool \<Rightarrow> bool \<times> bool" where
  "AssureBoolValue md old value = (if old \<noteq> value then (value, True) else (old, md))"

definition AssureStringValue :: "bool \<Rightarrow> string \<Rightarrow> string \<Rightarrow> string \<times> bool" where
  "AssureStringValue md old value = (if old \<noteq> value then (value, True) else (old, md))"

definition AssureStringPtrValue :: "bool \<Rightarrow> string option \<Rightarrow> string \<Rightarrow> string option \<times> bool" where
  "AssureStringPtrValue md old value =
     (if old = None \<or> the old \<noteq> value then (Some value, True) else (old, md))"

definition AssureStringPtrPtr :: "bool \<Rightarrow> string option \<Rightarrow> string option \<Rightarrow> string option \<times> bool" where
  "AssureStringPtrPtr md old ptr =
     (case ptr of
        Some v \<Rightarrow> AssureStringPtrValue md old v
      | None \<Rightarrow> if old \<noteq> None then (None, True) else (old, md))"

text \<open>Each stores the wanted value and raises the flag exactly when the value was another one.\<close>

lemma AssureBoolValue_eq [simp]: "AssureBoolValue m old v = (v, m \<or> old \<noteq> v)"
  by (simp add: AssureBoolValue_def)

lemma AssureStringValue_eq [simp]: "AssureStringValue m old v = (v, m \<or> old \<noteq> v)"
  by (simp add: AssureStringValue_def)

lemma AssureStringPtrValue_eq [simp]: "AssureStringPtrValue m old v = (Some v, m \<or> old \<noteq> Some v)"
  by (cases old) (auto simp: AssureStringPtrValue_def)

lemma AssureStringPtrPtr_eq [simp]: "AssureStringPtrPtr m old p = (p, m \<or> old \<noteq> p)"
  by (cases p) (auto simp: AssureStringPtrPtr_def)

definition StringEqual :: "string option \<Rightarrow> string \<Rightarrow> bool" where
  "StringEqual field val = (case field of None \<Rightarrow> val = '''' | Some s \<Rightarrow> val = s)"

section \<open>State of an endpoint\<close>

text \<open>
  \<open>UpdateState\<close> of \<open>ep.go\<close>: the flag whether something was modified, the error of the update,
  the object afterwards and the world.
\<close>

definition ep_with_state ::
  "DNSLoadBalancerEndpoint \<Rightarrow> string \<Rightarrow> string \<Rightarrow> bool option \<Rightarrow> DNSLoadBalancerEndpoint \<times> bool" where
  "ep_with_state ep state msg healthy =
     (let status = ep_status ep;
          (st, m1) = AssureStringPtrValue False (eps_State status) state;
          (me, m2) = (if msg = '''' then AssureStringPtrPtr m1 (eps_Message status) None
                      else AssureStringPtrPtr m1 (eps_Message status) (Some msg));
          (he, m3) = (case healthy of
                        None \<Rightarrow> (eps_Healthy status, m2)
                      | Some b \<Rightarrow> AssureBoolValue m2 (eps_Healthy status) b)
      in (ep\<lparr>ep_status := status\<lparr>eps_State := st, eps_Message := me, eps_Healthy := he\<rparr>\<rparr>, m3))"

definition ep_UpdateState ::
  "api \<Rightarrow> DNSLoadBalancerEndpoint \<Rightarrow> string \<Rightarrow> string \<Rightarrow> bool option \<Rightarrow> world \<Rightarrow>
   bool \<times> go_error option \<times> DNSLoadBalancerEndpoint \<times> world" where
  "ep_UpdateState a ep state msg healthy w =
     (case ep_with_state ep state msg healthy of
        (ep', False) \<Rightarrow> (False, None, ep', w)
      | (ep', True) \<Rightarrow> (case ep_Update a ep' w of (ep'', err, w') \<Rightarrow> (True, err, ep'', w')))"

text \<open>The status \<open>UpdateState\<close> asks for, as one record.\<close>

definition ep_target ::
  "DNSLoadBalancerEndpoint \<Rightarrow> string \<Rightarrow> string \<Rightarrow> bool option \<Rightarrow> DNSLoadBalancerEndpoint" where
  "ep_target ep state msg healthy =
     ep\<lparr>ep_status := (ep_status ep)\<lparr>
       eps_State := Some state,
       eps_Message := (if msg = '''' then None else Some msg),
       eps_Healthy := (case healthy of None \<Rightarrow> eps_Healthy (ep_status ep) | Some b \<Rightarrow> b)\<rparr>\<rparr>"

lemma ep_with_state_eq:
  "ep_with_state ep state msg healthy =
     (ep_target ep state msg healthy, ep_target ep state msg healthy \<noteq> ep)"
proof -
  have id: "ep\<lparr>ep_status := s\<rparr> = ep \<longleftrightarrow> s = ep_status ep" for s
    by (cases ep) auto
  show ?thesis
    by (cases "ep_status ep"; cases "eps_Message (ep_status ep)")
      (auto simp: ep_with_state_def ep_target_def id Let_def split: option.split)
qed

lemma ep_target_idem [simp]:
  "ep_target (ep_target ep state msg healthy) state msg healthy = ep_target ep state msg healthy"
  by (simp add: ep_target_def split: option.split)

lemma ep_target_sel [simp]:
  "eps_State (ep_status (ep_target ep state msg healthy)) = Some state"
  "eps_Message (ep_status (ep_target ep state msg healthy)) = (if msg = '''' then None else Some msg)"
  "eps_ValidUntil (ep_status (ep_target ep state msg healthy)) = eps_ValidUntil (ep_status ep)"
  "ep_spec (ep_target ep state msg healthy) = ep_spec ep"
  "ep_meta (ep_target ep state msg healthy) = ep_meta ep"
  by (simp_all add: ep_target_def)

lemma ep_UpdateState_unchanged:
  "ep_target ep state msg healthy = ep \<Longrightarrow> ep_UpdateState a ep state msg healthy w = (False, None, ep, w)"
  by (simp add: ep_UpdateState_def ep_with_state_eq)

lemma ep_UpdateState_changed:
  "ep_target ep state msg healthy \<noteq> ep \<Longrightarrow>
   ep_UpdateState a ep state msg healthy w =
     (case ep_Update a (ep_target ep state msg healthy) w of (ep', err, w') \<Rightarrow> (True, err, ep', w'))"
  by (simp add: ep_UpdateState_def ep_with_state_eq)

lemma ep_UpdateState_world:
  "snd (snd (snd (ep_UpdateState a ep state msg healthy w))) =
     (if ep_target ep state msg healthy = ep then w
      else emit (UpdateEP (ep_target ep state msg healthy)) w)"
  by (auto simp: ep_UpdateState_unchanged ep_UpdateState_changed dest: ep_Update_worldD split: prod.split)

lemma ep_UpdateState_worldD:
  "ep_UpdateState a ep state msg healthy w = (m, err, ep', w') \<Longrightarrow>
   w' = (if ep_target ep state msg healthy = ep then w
         else emit (UpdateEP (ep_target ep state msg healthy)) w)"
  using ep_UpdateState_world [of a ep state msg healthy w] by simp

section \<open>State of a load balancer\<close>

text \<open>
  \<open>UpdateState\<close> of \<open>lb.go\<close> stores the state \<open>Error\<close>, whatever state it is called with.
\<close>

definition lb_with_state :: "DNSLoadBalancer \<Rightarrow> string \<Rightarrow> string \<Rightarrow> DNSLoadBalancer \<times> bool" where
  "lb_with_state lb state msg =
     (let status = lb_status lb;
          (st, m1) = AssureStringPtrValue False (lbs_State status) STATE_ERROR;
          (me, m2) = (if msg = '''' then AssureStringPtrPtr m1 (lbs_Message status) None
                      else AssureStringPtrPtr m1 (lbs_Message status) (Some msg))
      in (lb\<lparr>lb_status := status\<lparr>lbs_State := st, lbs_Message := me\<rparr>\<rparr>, m2))"

definition lb_UpdateState ::
  "api \<Rightarrow> DNSLoadBalancer \<Rightarrow> string \<Rightarrow> string \<Rightarrow> world \<Rightarrow>
   bool \<times> go_error option \<times> DNSLoadBalancer \<times> world" where
  "lb_UpdateState a lb state msg w =
     (case lb_with_state lb state msg of
        (lb', False) \<Rightarrow> (False, None, lb', w)
      | (lb', True) \<Rightarrow> (case lb_Update a lb' w of (lb'', err, w') \<Rightarrow> (True, err, lb'', w')))"

definition lb_error :: "DNSLoadBalancer \<Rightarrow> string \<Rightarrow> DNSLoadBalancer" where
  "lb_error lb msg =
     lb\<lparr>lb_status := (lb_status lb)\<lparr>
       lbs_State := Some STATE_ERROR, lbs_Message := (if msg = '''' then None else Some msg)\<rparr>\<rparr>"

lemma lb_with_state_eq:
  "lb_with_state lb state msg = (lb_error lb msg, lb_error lb msg \<noteq> lb)"
proof -
  have id: "lb\<lparr>lb_status := s\<rparr> = lb \<longleftrightarrow> s = lb_status lb" for s
    by (cases lb) auto
  show ?thesis
    by (cases "lb_status lb"; cases "lbs_Message (lb_status lb)")
      (auto simp: lb_with_state_def lb_error_def id Let_def)
qed

lemma lb_UpdateState_world:
  "snd (snd (snd (lb_UpdateState a lb state msg w))) =
     (if lb_error lb msg = lb then w else emit (UpdateLB (lb_error lb msg)) w)"
  by (auto simp: lb_UpdateState_def lb_with_state_eq dest: lb_Update_worldD split: prod.split)

lemma lb_UpdateState_worldD:
  "lb_UpdateState a lb state msg w = (m, err, lb', w') \<Longrightarrow>
   w' = (if lb_error lb msg = lb then w else emit (UpdateLB (lb_error lb msg)) w)"
  using lb_UpdateState_world [of a lb state msg w] by simp

end
