(* ===== verification/Feedback.thy ===== *)
theory Feedback
  imports Objects Metrics
begin

text \<open>
  The status feedback of one watch, after \<open>pkg/dnslb/lb/watch/feedback.go\<close>. While a watch is
  handled, the targets it found are collected in a \<open>DNSDone\<close>; afterwards the DNS source
  controller calls back how the DNS entry fared. The first callback writes the status of the
  load balancer and its endpoints and latches \<open>done\<close>.

  A Go map from endpoint names to endpoints is an association list without repeated keys. Go
  leaves the order in which \<open>range\<close> visits a map open; \<open>rng\<close> is the order of the two loops
  over endpoints. \<open>NewWatch\<close>, the only constructor of a watch, always sets the load balancer,
  so the pointer to it is not optional.
\<close>

section \<open>Targets\<close>

record Target =
  t_Name :: string
  t_IPAddress :: string
  t_DNSEP :: "DNSLoadBalancerEndpoint option"

definition GetHostName :: "Target \<Rightarrow> string" where
  "GetHostName t = (if t_Name t \<noteq> '''' then t_Name t else t_IPAddress t)"

definition GetRecordType :: "Target \<Rightarrow> string" where
  "GetRecordType t = (if t_Name t \<noteq> '''' then ''CNAME'' else ''A'')"

definition Target_String :: "Target \<Rightarrow> string" where
  "Target_String t = ''target '' @ GetRecordType t @ ''('' @ GetHostName t @ '')''"

definition Target_GetKey :: "Target \<Rightarrow> string" where
  "Target_GetKey t =
     (case t_DNSEP t of
        Some ep \<Rightarrow> ObjectName_String (meta_ObjectName (ep_meta ep))
      | None \<Rightarrow> GetHostName t)"

definition IsValid :: "Target \<Rightarrow> bool" where
  "IsValid t \<longleftrightarrow> t_Name t \<noteq> '''' \<or> t_IPAddress t \<noteq> ''''"

lemma IsValid_host: "IsValid t \<longleftrightarrow> GetHostName t \<noteq> ''''"
  by (auto simp: IsValid_def GetHostName_def)

section \<open>State\<close>

type_synonym ep_map = "(string \<times> DNSLoadBalancerEndpoint) list"

record DNSDone =
  dd_dnslb :: DNSLoadBalancer
  dd_done :: bool
  dd_message :: string
  dd_hcount :: int
  dd_ishealthy :: bool
  dd_active :: ep_map
  dd_healthy :: ep_map
  dd_unhealthy :: ep_map

definition NewStatusUpdate :: "DNSLoadBalancer \<Rightarrow> DNSDone" where
  "NewStatusUpdate lb =
     \<lparr>dd_dnslb = lb, dd_done = False, dd_message = '''', dd_hcount = 0, dd_ishealthy = False,
      dd_active = [], dd_healthy = [], dd_unhealthy = []\<rparr>"

definition SetHealthy :: "bool \<Rightarrow> DNSDone \<Rightarrow> DNSDone" where
  "SetHealthy b this = this\<lparr>dd_ishealthy := b\<rparr>"

definition SetMessage :: "string \<Rightarrow> DNSDone \<Rightarrow> DNSDone" where
  "SetMessage msg this = this\<lparr>dd_message := msg\<rparr>"

abbreviation ep_name :: "DNSLoadBalancerEndpoint \<Rightarrow> string" where
  "ep_name ep \<equiv> m_name (ep_meta ep)"

definition AddHealthyTarget :: "Target \<Rightarrow> DNSDone \<Rightarrow> DNSDone" where
  "AddHealthyTarget target this =
     (let this = this\<lparr>dd_hcount := dd_hcount this + 1\<rparr>
      in case t_DNSEP target of
           None \<Rightarrow> this
         | Some ep \<Rightarrow> this\<lparr>dd_healthy := AList.update (ep_name ep) ep (dd_healthy this)\<rparr>)"

definition AddActiveTarget :: "Target \<Rightarrow> DNSDone \<Rightarrow> DNSDone" where
  "AddActiveTarget target this =
     (let this = this\<lparr>dd_hcount := dd_hcount this + 1\<rparr>
      in case t_DNSEP target of
           None \<Rightarrow> this
         | Some ep \<Rightarrow> this\<lparr>dd_active := AList.update (ep_name ep) ep (dd_active this)\<rparr>)"

definition AddUnhealthyTarget :: "Target \<Rightarrow> DNSDone \<Rightarrow> DNSDone" where
  "AddUnhealthyTarget target this =
     (case t_DNSEP target of
        None \<Rightarrow> this
      | Some ep \<Rightarrow> this\<lparr>dd_unhealthy := AList.update (ep_name ep) ep (dd_unhealthy this)\<rparr>)"

definition HasHealthy :: "DNSDone \<Rightarrow> bool" where
  "HasHealthy this \<longleftrightarrow> dd_hcount this \<noteq> 0"

section \<open>Writing the status\<close>

text \<open>
  The sorted list of active endpoints. A key of the map is the name of its value, so the lookup
  always succeeds; a missing entry would be a nil dereference.
\<close>

definition active_entry :: "DNSLoadBalancerEndpoint \<Rightarrow> DNSLoadBalancerActive" where
  "active_entry t =
     \<lparr>a_Endpoint = ep_name t, a_IPAddress = IPAddress (ep_spec t), a_CName = CName (ep_spec t)\<rparr>"

definition active_list :: "ep_map \<Rightarrow> DNSLoadBalancerActive list" where
  "active_list active =
     concat (map (\<lambda>k. case map_of active k of None \<Rightarrow> [] | Some t \<Rightarrow> [active_entry t])
       (sort (map (\<lambda>(_, t). ep_name t) active)))"

definition new_status :: "DNSDone \<Rightarrow> bool \<Rightarrow> string \<Rightarrow> string \<Rightarrow> DNSLoadBalancerStatus" where
  "new_status this activeupd state message =
     (let status = lb_status (dd_dnslb this);
          state = (if state = '''' then (if dd_ishealthy this then STATE_HEALTHY else STATE_UNREACHABLE)
                   else state)
      in \<lparr>lbs_State = Some state,
          lbs_Message = (if message \<noteq> '''' then Some message else None),
          lbs_Active =
            (if activeupd
             then (if dd_active this \<noteq> [] then Some (active_list (dd_active this)) else None)
             else if state \<noteq> '''' \<and> state \<noteq> STATE_PENDING then None
             else lbs_Active status)\<rparr>)"

definition updateLoadBalancerStatus ::
  "api \<Rightarrow> DNSDone \<Rightarrow> bool \<Rightarrow> string \<Rightarrow> string \<Rightarrow> world \<Rightarrow> world" where
  "updateLoadBalancerStatus a this activeupd state message w =
     (let status = new_status this activeupd state message
      in if lb_status (dd_dnslb this) \<noteq> status
         then snd (snd (lb_Update a ((dd_dnslb this)\<lparr>lb_status := status\<rparr>) w))
         else w)"

definition updateEndpointStatus ::
  "api \<Rightarrow> DNSDone \<Rightarrow> DNSLoadBalancerEndpoint \<Rightarrow> bool \<Rightarrow> bool \<Rightarrow> world \<Rightarrow> world" where
  "updateEndpointStatus a this ep healthy active w =
     (let state = (if active then STATE_ACTIVE else STATE_INACTIVE)
      in case ep_UpdateState a ep state '''' (Some healthy) w of
           (_, _, _, w') \<Rightarrow>
             ReportActiveEndpoint (meta_ObjectName (lb_meta (dd_dnslb this)))
               (meta_ObjectName (ep_meta ep)) active w')"

definition updateStatus ::
  "api \<Rightarrow> (ep_map \<Rightarrow> ep_map) \<Rightarrow> string \<Rightarrow> string \<Rightarrow> DNSDone \<times> world \<Rightarrow> DNSDone \<times> world" where
  "updateStatus a rng state message = (\<lambda>(this, w).
     if dd_done this then (this, w)
     else let this = this\<lparr>dd_done := True\<rparr>;
              w = updateLoadBalancerStatus a this True state message w;
              w = foldl (\<lambda>w (_, t). updateEndpointStatus a this t True
                    (map_of (dd_active this) (ep_name t) \<noteq> None) w) w (rng (dd_healthy this));
              w = foldl (\<lambda>w (_, t). updateEndpointStatus a this t False False w) w (rng (dd_unhealthy this))
          in (this, w))"

section \<open>Callbacks\<close>

definition DNSDone_IsHealthy :: "DNSDone \<Rightarrow> bool" where
  [simp]: "DNSDone_IsHealthy this = dd_ishealthy this"

definition DNSDone_Event :: "DNSDone \<Rightarrow> string \<Rightarrow> string \<Rightarrow> string \<Rightarrow> world \<Rightarrow> world" where
  [simp]: "DNSDone_Event this ty reason msg w = lb_Event (dd_dnslb this) ty reason msg w"

text \<open>\<open>Eventf\<close> checks the load balancer against nil; a watch always has one.\<close>

definition DNSDone_Eventf :: "DNSDone \<Rightarrow> string \<Rightarrow> string \<Rightarrow> string \<Rightarrow> world \<Rightarrow> world" where
  [simp]: "DNSDone_Eventf this ty reason msg w = lb_Event (dd_dnslb this) ty reason msg w"

definition emitPendingEvent :: "DNSDone \<times> world \<Rightarrow> DNSDone \<times> world" where
  "emitPendingEvent = (\<lambda>(this, w).
     let w = (if dd_message this \<noteq> ''''
              then DNSDone_Eventf this EventTypeNormal ''sync'' (dd_message this) w else w);
         w = (if DNSDone_IsHealthy this
              then DNSDone_Eventf this EventTypeNormal ''sync'' ''healthy again'' w else w)
     in (this\<lparr>dd_message := ''''\<rparr>, w))"

definition DNSDone_Error :: "api \<Rightarrow> bool \<Rightarrow> go_error \<Rightarrow> DNSDone \<times> world \<Rightarrow> DNSDone \<times> world" where
  "DNSDone_Error a activeupd err = (\<lambda>(this, w).
     if dd_done this then (this, w)
     else let this = this\<lparr>dd_done := True\<rparr>;
              msg = (if dd_message this \<noteq> '''' then dd_message this @ '': '' @ Error err else Error err);
              w = DNSDone_Event this EventTypeWarning ''sync'' msg w
          in (this, updateLoadBalancerStatus a this activeupd STATE_ERROR msg w))"

definition DNSDone_Ready ::
  "api \<Rightarrow> (ep_map \<Rightarrow> ep_map) \<Rightarrow> string \<Rightarrow> string \<Rightarrow> DNSDone \<times> world \<Rightarrow> DNSDone \<times> world" where
  [simp]: "DNSDone_Ready a rng dnsname msg s = updateStatus a rng '''' msg (emitPendingEvent s)"

definition DNSDone_Pending ::
  "api \<Rightarrow> (ep_map \<Rightarrow> ep_map) \<Rightarrow> string \<Rightarrow> string \<Rightarrow> DNSDone \<times> world \<Rightarrow> DNSDone \<times> world" where
  [simp]: "DNSDone_Pending a rng dnsname msg s = updateStatus a rng STATE_PENDING msg (emitPendingEvent s)"

definition DNSDone_Invalid ::
  "api \<Rightarrow> (ep_map \<Rightarrow> ep_map) \<Rightarrow> string \<Rightarrow> go_error \<Rightarrow> DNSDone \<times> world \<Rightarrow> DNSDone \<times> world" where
  [simp]: "DNSDone_Invalid a rng dnsname msg s = updateStatus a rng STATE_INVALID (Error msg) (emitPendingEvent s)"

definition DNSDone_Failed :: "api \<Rightarrow> string \<Rightarrow> go_error \<Rightarrow> DNSDone \<times> world \<Rightarrow> DNSDone \<times> world" where
  [simp]: "DNSDone_Failed a dnsname err s = DNSDone_Error a False err s"

definition DNSDone_Succeeded ::
  "api \<Rightarrow> (ep_map \<Rightarrow> ep_map) \<Rightarrow> DNSDone \<times> world \<Rightarrow> DNSDone \<times> world" where
  [simp]: "DNSDone_Succeeded a rng s = updateStatus a rng '''' '''' (emitPendingEvent s)"

text \<open>The interface \<open>source.DNSFeedback\<close>, one constructor per method.\<close>

datatype feedback_call =
    Succeeded
  | Pending string string
  | Ready string string
  | Invalid string go_error
  | Failed string go_error

fun feedback ::
  "api \<Rightarrow> (ep_map \<Rightarrow> ep_map) \<Rightarrow> feedback_call \<Rightarrow> DNSDone \<times> world \<Rightarrow> DNSDone \<times> world" where
  "feedback a rng Succeeded s = DNSDone_Succeeded a rng s"
| "feedback a rng (Pending dnsname msg) s = DNSDone_Pending a rng dnsname msg s"
| "feedback a rng (Ready dnsname msg) s = DNSDone_Ready a rng dnsname msg s"
| "feedback a rng (Invalid dnsname err) s = DNSDone_Invalid a rng dnsname err s"
| "feedback a rng (Failed dnsname err) s = DNSDone_Failed a dnsname err s"

definition feedback_run ::
  "api \<Rightarrow> (ep_map \<Rightarrow> ep_map) \<Rightarrow> feedback_call list \<Rightarrow> DNSDone \<times> world \<Rightarrow> DNSDone \<times> world" where
  "feedback_run a rng calls s = foldl (\<lambda>s c. feedback a rng c s) s calls"

end
