(* ===== verification/StateLog.thy ===== *)
theory StateLog
  imports World
begin

text \<open>
  The log contexts of \<open>pkg/dnslb/lb/watch/statelog.go\<close>. A watch starts with the inactive context
  \<open>nullEntry\<close>, which writes a state message only when it differs from the last message under
  the same key; writing one activates the context (\<open>someEntry\<close>), which then writes everything.
  The last messages are kept in a process wide map, the lines written in the world. \<open>debug\<close> is
  \<open>logrus.GetLevel() > logrus.InfoLevel\<close>.
\<close>

datatype LogContext = nullEntry | someEntry

fun StateInfof :: "bool \<Rightarrow> LogContext \<Rightarrow> string \<Rightarrow> string \<Rightarrow> world \<Rightarrow> LogContext \<times> world" where
  "StateInfof debug someEntry key msg w =
     (someEntry, w\<lparr>w_state := (w_state w)(key \<mapsto> msg), w_lines := w_lines w @ [msg]\<rparr>)"
| "StateInfof debug nullEntry key msg w =
     (if (case w_state w key of None \<Rightarrow> '''' | Some s \<Rightarrow> s) \<noteq> msg \<or> debug
      then (someEntry, w\<lparr>w_state := (w_state w)(key \<mapsto> msg), w_lines := w_lines w @ [msg]\<rparr>)
      else (nullEntry, w))"

fun Infof :: "bool \<Rightarrow> LogContext \<Rightarrow> string \<Rightarrow> world \<Rightarrow> world" where
  "Infof debug someEntry msg w = w\<lparr>w_lines := w_lines w @ [msg]\<rparr>"
| "Infof debug nullEntry msg w = (if debug then w\<lparr>w_lines := w_lines w @ [msg]\<rparr> else w)"

definition InactiveContext :: LogContext where
  "InactiveContext = nullEntry"

lemma StateInfof_world [simp, world_simps]:
  "w_trace (snd (StateInfof d c key msg w)) = w_trace w"
  "w_gauges (snd (StateInfof d c key msg w)) = w_gauges w"
  by (cases c; simp)+

lemma Infof_world [simp, world_simps]:
  "w_trace (Infof d c msg w) = w_trace w" "w_gauges (Infof d c msg w) = w_gauges w"
  "w_state (Infof d c msg w) = w_state w"
  by (cases c; simp)+

text \<open>The message under a key, with Go's zero value for a missing one.\<close>

definition last_state :: "world \<Rightarrow> string \<Rightarrow> string" where
  "last_state w key = (case w_state w key of None \<Rightarrow> '''' | Some s \<Rightarrow> s)"

lemma StateInfof_records: "last_state (snd (StateInfof d c key msg w)) key = msg"
  by (cases c) (auto simp: last_state_def split: option.splits)

lemma StateInfof_other: "k \<noteq> key \<Longrightarrow> last_state (snd (StateInfof d c key msg w)) k = last_state w k"
  by (cases c) (auto simp: last_state_def)

lemma StateInfof_quiet:
  "last_state w key = msg \<Longrightarrow> StateInfof False nullEntry key msg w = (nullEntry, w)"
  by (auto simp: last_state_def split: option.splits)

end
