(* ===== verification/Watch.thy ===== *)
theory Watch
  imports Feedback StateLog
begin

text \<open>
  Health checks and target selection for one load balancer, after
  \<open>pkg/dnslb/lb/watch/watch.go\<close>. DNS lookups and HTTP requests are parameters: \<open>net_Do n\<close>
  answers the health check number \<open>n\<close> of one \<open>Handle\<close> (the load balancer's own name is checked
  as number 0, target \<open>i\<close> as number \<open>i + 1\<close>), with \<open>None\<close> for a failed request.
  An IP address is its list of bytes, the empty list for nil.
\<close>

section \<open>The watch\<close>

type_synonym IP = "nat list"

record DNSState =
  ds_State :: string
  ds_Message :: "string option"
  ds_CreationTimestamp :: time

record DNSCurrentState =
  cs_Names :: "string \<rightharpoonup> DNSState"
  cs_Targets :: StringSet
  cs_AnnotatedNames :: StringSet

record Watch =
  wt_nxdomain :: IP
  wt_dnsname :: string
  wt_HealthPath :: string
  wt_StatusCode :: int
  wt_Targets :: "Target list"
  wt_Singleton :: bool
  wt_DNSLB :: DNSLoadBalancer
  wt_current :: DNSCurrentState
  wt_updated :: StringSet

record net =
  net_LookupIP :: "string \<Rightarrow> go_error + IP list"
  net_NewRequest :: "string \<Rightarrow> bool"
  net_Do :: "nat \<Rightarrow> string \<Rightarrow> string option \<Rightarrow> int option"

text \<open>
  \<open>IsSingleton\<close> reads the type of the load balancer. A load balancer that has none, only the
  older field \<open>singleton\<close>, gets its type written back.
\<close>

definition IsSingleton :: "api \<Rightarrow> DNSLoadBalancer \<Rightarrow> world \<Rightarrow> (go_error + bool) \<times> world" where
  "IsSingleton a lb w =
     (let spec = lb_spec lb;
          bothmsg = ''invalid load balancer type: singleton and type specified''
      in if Singleton spec \<noteq> None \<and> Type spec \<noteq> ''''
         then (Inl (OtherError bothmsg), snd (snd (snd (lb_UpdateState a lb STATE_ERROR bothmsg w))))
         else let singleton = (case Singleton spec of None \<Rightarrow> False | Some b \<Rightarrow> b)
              in if Type spec = LBTYPE_EXCLUSIVE then (Inr True, w)
                 else if Type spec = LBTYPE_BALANCED then (Inr False, w)
                 else if Type spec = ''''
                 then (let newlb = lb\<lparr>lb_spec := spec\<lparr>
                             Type := (if singleton then LBTYPE_EXCLUSIVE else LBTYPE_BALANCED),
                             Singleton := None\<rparr>\<rparr>
                       in (Inr singleton, snd (snd (lb_Update a newlb w))))
                 else (let msg = ''invalid load balancer type''
                       in (Inl (OtherError msg), snd (snd (snd (lb_UpdateState a lb STATE_ERROR msg w))))))"

definition NewWatch ::
  "api \<Rightarrow> DNSLoadBalancer \<Rightarrow> DNSCurrentState \<Rightarrow> IP \<Rightarrow> world \<Rightarrow> (go_error + Watch) \<times> world" where
  "NewWatch a lb current nxdomain w =
     (case IsSingleton a lb w of
        (Inl err, w') \<Rightarrow> (Inl err, w')
      | (Inr singleton, w') \<Rightarrow>
          (let spec = lb_spec lb
           in (Inr \<lparr>wt_nxdomain = nxdomain, wt_dnsname = DNSName spec, wt_HealthPath = HealthPath spec,
                    wt_StatusCode = StatusCode spec, wt_Targets = [], wt_Singleton = singleton,
                    wt_DNSLB = lb, wt_current = current, wt_updated = []\<rparr>, w')))"

definition Watch_GetKey :: "Watch \<Rightarrow> string" where
  "Watch_GetKey this = ObjectName_String (meta_ObjectName (lb_meta (wt_DNSLB this)))"

definition Watch_Get :: "Watch \<Rightarrow> StringSet" where
  "Watch_Get this = wt_updated this"

definition Watch_String :: "Watch \<Rightarrow> string" where
  "Watch_String this = Watch_GetKey this @ '' ['' @ wt_dnsname this @ '']''"

definition check :: "Watch \<Rightarrow> Target list \<Rightarrow> bool" where
  "check this targets = Equals (NewStringSet (map GetHostName targets)) (cs_Targets (wt_current this))"

definition apply_targets :: "Watch \<Rightarrow> Target list \<Rightarrow> Watch \<times> bool" where
  "apply_targets this targets =
     (let s = NewStringSet (map GetHostName targets)
      in (this\<lparr>wt_updated := s\<rparr>, \<not> Equals s (cs_Targets (wt_current this))))"

definition GetDNSState :: "Watch \<Rightarrow> string \<Rightarrow> DNSState option" where
  "GetDNSState this dnsname = cs_Names (wt_current this) dnsname"

definition IsHealthy :: "net \<Rightarrow> Watch \<Rightarrow> nat \<Rightarrow> string \<Rightarrow> string list \<Rightarrow> bool" where
  "IsHealthy net this n hostname dns =
     (let url = ''https://'' @ hostname @ wt_HealthPath this;
          statusCode = (if wt_StatusCode this = 0 then 200 else wt_StatusCode this)
      in if \<not> net_NewRequest net url then False
         else (case net_Do net n url (case dns of [] \<Rightarrow> None | d # _ \<Rightarrow> Some d) of
                 None \<Rightarrow> False
               | Some code \<Rightarrow> code = statusCode))"

section \<open>Handling a watch\<close>

text \<open>
  The state of the loops over targets: the targets chosen so far, the feedback being filled, the
  log context and the world.
\<close>

type_synonym scan = "Target list \<times> DNSDone \<times> LogContext \<times> world"

abbreviation target_healthy :: "net \<Rightarrow> Watch \<Rightarrow> nat \<Rightarrow> Target \<Rightarrow> bool" where
  "target_healthy net this i target \<equiv> IsHealthy net this (Suc i) (GetHostName target) [wt_dnsname this]"

definition exclusive_step :: "net \<Rightarrow> bool \<Rightarrow> Watch \<Rightarrow> nat \<Rightarrow> Target \<Rightarrow> scan \<Rightarrow> scan" where
  "exclusive_step net debug this i target = (\<lambda>(ht, done, ctx, w).
     let host = GetHostName target; active = check this [target]
     in if target_healthy net this i target
        then let w = ReportEndpoint (Watch_GetKey this) (Target_GetKey target) host True w;
                 ht = (if ht = [] then [target] else ht);
                 done = AddHealthyTarget target done;
                 ht = (if active then ht[0 := target] else ht);
                 msg = (if active then ''healthy active target for '' @ wt_dnsname this @ '' is '' @ host
                        else ''target '' @ host @ '' is healthy'');
                 w = snd (StateInfof debug ctx host msg w)
             in (ht, done, ctx, w)
        else let w = ReportEndpoint (Watch_GetKey this) (Target_GetKey target) host False w;
                 done = AddUnhealthyTarget target done;
                 msg = (if active then ''active target '' @ host @ '' is unhealthy''
                        else ''target '' @ host @ '' is unhealthy'');
                 w = snd (StateInfof debug ctx host msg w)
             in (ht, done, ctx, w))"

definition balanced_step :: "net \<Rightarrow> bool \<Rightarrow> Watch \<Rightarrow> nat \<Rightarrow> Target \<Rightarrow> scan \<Rightarrow> scan" where
  "balanced_step net debug this i target = (\<lambda>(ht, done, ctx, w).
     let host = GetHostName target
     in if target_healthy net this i target
        then let w = ReportEndpoint (Watch_GetKey this) (Target_GetKey target) host True w;
                 w = snd (StateInfof debug ctx host (''target '' @ host @ '' is healthy'') w);
                 done = AddHealthyTarget target (AddActiveTarget target done)
             in (ht @ [target], done, ctx, w)
        else let w = ReportEndpoint (Watch_GetKey this) (Target_GetKey target) host False w;
                 w = snd (StateInfof debug ctx host (''target '' @ host @ '' in unhealthy'') w);
                 done = AddUnhealthyTarget target done
             in (ht, done, ctx, w))"

fun scan_targets :: "(nat \<Rightarrow> Target \<Rightarrow> scan \<Rightarrow> scan) \<Rightarrow> nat \<Rightarrow> Target list \<Rightarrow> scan \<Rightarrow> scan" where
  "scan_targets step i [] s = s"
| "scan_targets step i (t # ts) s = scan_targets step (Suc i) ts (step i t s)"

text \<open>Whether the load balancer's own name answers: \<open>None\<close> when it does not resolve.\<close>

definition lookup_lb :: "net \<Rightarrow> Watch \<Rightarrow> bool option outcome" where
  "lookup_lb net this =
     (case net_LookupIP net (wt_dnsname this) of
        Inl _ \<Rightarrow> Ok None
      | Inr [] \<Rightarrow> Panic
      | Inr (ip # _) \<Rightarrow>
          if ip = wt_nxdomain this then Ok None
          else Ok (Some (IsHealthy net this 0 (wt_dnsname this) [])))"

definition report_lb ::
  "bool \<Rightarrow> Watch \<Rightarrow> bool option \<Rightarrow> DNSDone \<times> LogContext \<times> world \<Rightarrow> DNSDone \<times> LogContext \<times> world" where
  "report_lb debug this h = (\<lambda>(done, ctx, w).
     let msg = Watch_String this @
           (case h of None \<Rightarrow> '' not yet resolvable'' | Some True \<Rightarrow> '' is healthy''
            | Some False \<Rightarrow> '' is NOT healthy'');
         ok = (h = Some True);
         (ctx, w) = StateInfof debug ctx (wt_dnsname this) msg w
     in (SetHealthy ok done, ctx, ReportLB (Watch_GetKey this) (wt_dnsname this) ok w))"

definition choose_targets :: "net \<Rightarrow> bool \<Rightarrow> Watch \<Rightarrow> DNSDone \<times> LogContext \<times> world \<Rightarrow> scan" where
  "choose_targets net debug this = (\<lambda>(done, ctx, w).
     if wt_Singleton this
     then (case scan_targets (exclusive_step net debug this) 0 (wt_Targets this) ([], done, ctx, w) of
             (ht, done, ctx, w) \<Rightarrow>
               (ht, (case ht of [] \<Rightarrow> done | t # _ \<Rightarrow> AddActiveTarget t done), ctx, w))
     else scan_targets (balanced_step net debug this) 0 (wt_Targets this) ([], done, ctx, w))"

definition Handle ::
  "api \<Rightarrow> net \<Rightarrow> bool \<Rightarrow> Watch \<Rightarrow> world \<Rightarrow> (StringSet \<times> DNSDone option \<times> Watch \<times> world) outcome" where
  "Handle a net debug this w =
     (let ctx = InactiveContext; done = NewStatusUpdate (wt_DNSLB this)
      in if wt_Targets this = []
         then let w = snd (StateInfof debug ctx (wt_dnsname this)
                        (''no endpoints configured for '' @ Watch_String this) w);
                  (done, w) = DNSDone_Error a True (OtherError ''no endpoints configured'') (done, w)
              in Ok ([], None, this, w)
         else bind_outcome (lookup_lb net this) (\<lambda>h.
              let (ht, done, ctx, w) = choose_targets net debug this (report_lb debug this h (done, ctx, w));
                  (this, changed) = apply_targets this ht
              in if changed
                 then Ok (wt_updated this,
                        Some (SetMessage (''replacing targets for '' @ wt_dnsname this @ '': '' @
                          StringSet_String (cs_Targets (wt_current this)) @ '' -> '' @
                          StringSet_String (wt_updated this)) done), this, w)
                 else if \<not> HasHealthy done
                 then let w = Infof debug ctx ''no healthy targets found'' w;
                          (done, w) = feedback a (\<lambda>m. m) (Failed (wt_dnsname this)
                            (OtherError ''no healthy targets found'')) (done, w)
                      in Ok (wt_updated this, Some done, this, w)
                 else Ok (wt_updated this, Some done, this, w)))"

end
