(* ===== verification/FeedbackProps.thy ===== *)
theory FeedbackProps
  imports Feedback
begin

text \<open>
  What the feedback writes: the exact sequence of updates of one callback, the latch that makes
  every callback but the first silent, and the status of the load balancer that is written.
\<close>

section \<open>The writes of one callback\<close>

definition lb_effects :: "DNSLoadBalancer \<Rightarrow> DNSLoadBalancerStatus \<Rightarrow> trace" where
  "lb_effects lb status = (if lb_status lb \<noteq> status then [UpdateLB (lb\<lparr>lb_status := status\<rparr>)] else [])"

definition ep_effects :: "DNSLoadBalancerEndpoint \<Rightarrow> string \<Rightarrow> bool \<Rightarrow> trace" where
  "ep_effects ep state healthy =
     (if ep_target ep state '''' (Some healthy) = ep then []
      else [UpdateEP (ep_target ep state '''' (Some healthy))])"

definition status_effects :: "(ep_map \<Rightarrow> ep_map) \<Rightarrow> DNSDone \<Rightarrow> string \<Rightarrow> string \<Rightarrow> trace" where
  "status_effects rng this state message =
     lb_effects (dd_dnslb this) (new_status this True state message) @
     concat (map (\<lambda>(_, ep). ep_effects ep
       (if map_of (dd_active this) (ep_name ep) \<noteq> None then STATE_ACTIVE else STATE_INACTIVE) True)
       (rng (dd_healthy this))) @
     concat (map (\<lambda>(_, ep). ep_effects ep STATE_INACTIVE False) (rng (dd_unhealthy this)))"

lemma updateLoadBalancerStatus_trace:
  "w_trace (updateLoadBalancerStatus a this upd state message w) =
     w_trace w @ lb_effects (dd_dnslb this) (new_status this upd state message)"
  by (simp add: updateLoadBalancerStatus_def lb_effects_def Let_def)

lemma updateEndpointStatus_trace:
  "w_trace (updateEndpointStatus a this ep healthy active w) =
     w_trace w @ ep_effects ep (if active then STATE_ACTIVE else STATE_INACTIVE) healthy"
  by (auto simp: updateEndpointStatus_def ep_effects_def Let_def dest!: ep_UpdateState_worldD split: prod.split)

lemma foldl_updateEndpointStatus_trace:
  "w_trace (foldl (\<lambda>w (_, t). updateEndpointStatus a this t healthy (active t) w) w m) =
     w_trace w @ concat (map (\<lambda>(_, t). ep_effects t (if active t then STATE_ACTIVE else STATE_INACTIVE) healthy) m)"
  by (rule foldl_trace) (auto simp: updateEndpointStatus_trace)

lemma new_status_done [simp]: "new_status (this\<lparr>dd_done := b\<rparr>) = new_status this"
  by (intro ext) (simp add: new_status_def Let_def)

lemma updateStatus_trace:
  "w_trace (snd (updateStatus a rng state message (this, w))) =
     w_trace w @ (if dd_done this then [] else status_effects rng this state message)"
  by (simp add: updateStatus_def Let_def foldl_updateEndpointStatus_trace updateLoadBalancerStatus_trace
      foldl_updateEndpointStatus_trace [where active = "\<lambda>_. False", simplified] status_effects_def)

lemma updateStatus_state:
  "fst (updateStatus a rng state message (this, w)) = this\<lparr>dd_done := True\<rparr>"
  by (cases this) (simp add: updateStatus_def Let_def)

lemma emitPendingEvent_state: "fst (emitPendingEvent (this, w)) = this\<lparr>dd_message := ''''\<rparr>"
  by (simp add: emitPendingEvent_def Let_def)

lemma emitPendingEvent_writes: "writes (w_trace (snd (emitPendingEvent (this, w)))) = writes (w_trace w)"
  by (simp add: emitPendingEvent_def Let_def lb_Event_def)

lemma new_status_message [simp]: "new_status (this\<lparr>dd_message := m\<rparr>) = new_status this"
  by (intro ext) (simp add: new_status_def Let_def)

lemma status_effects_message [simp]: "status_effects rng (this\<lparr>dd_message := m\<rparr>) = status_effects rng this"
  by (intro ext) (simp add: status_effects_def)

lemma writes_lb_effects [simp]: "writes (lb_effects lb s) = lb_effects lb s"
  by (simp add: lb_effects_def)

lemma writes_ep_effects [simp]: "writes (ep_effects ep s h) = ep_effects ep s h"
  by (simp add: ep_effects_def)

lemma writes_concat: "(\<And>x. writes (g x) = g x) \<Longrightarrow> writes (concat (map g xs)) = concat (map g xs)"
  by (induction xs) auto

lemma writes_status_effects [simp]:
  "writes (status_effects rng this state message) = status_effects rng this state message"
  by (simp add: status_effects_def writes_concat split: prod.split)

section \<open>The latch\<close>

text \<open>The writes a callback makes when it is the first one.\<close>

fun call_effects :: "(ep_map \<Rightarrow> ep_map) \<Rightarrow> feedback_call \<Rightarrow> DNSDone \<Rightarrow> trace" where
  "call_effects rng Succeeded this = status_effects rng this '''' ''''"
| "call_effects rng (Pending dnsname msg) this = status_effects rng this STATE_PENDING msg"
| "call_effects rng (Ready dnsname msg) this = status_effects rng this '''' msg"
| "call_effects rng (Invalid dnsname err) this = status_effects rng this STATE_INVALID (Error err)"
| "call_effects rng (Failed dnsname err) this =
     lb_effects (dd_dnslb this) (new_status this False STATE_ERROR
       (if dd_message this \<noteq> '''' then dd_message this @ '': '' @ Error err else Error err))"

lemma updateStatus_after_emit:
  "fst (updateStatus a rng st msg (emitPendingEvent (this, w))) = this\<lparr>dd_message := '''', dd_done := True\<rparr>"
  "writes (w_trace (snd (updateStatus a rng st msg (emitPendingEvent (this, w))))) =
     writes (w_trace w) @ (if dd_done this then [] else status_effects rng this st msg)"
proof -
  obtain w1 where e: "emitPendingEvent (this, w) = (this\<lparr>dd_message := ''''\<rparr>, w1)"
    using emitPendingEvent_state by (metis prod.collapse)
  then have "writes (w_trace w1) = writes (w_trace w)"
    using emitPendingEvent_writes [of this w] by simp
  with e show "fst (updateStatus a rng st msg (emitPendingEvent (this, w))) = this\<lparr>dd_message := '''', dd_done := True\<rparr>"
    "writes (w_trace (snd (updateStatus a rng st msg (emitPendingEvent (this, w))))) =
     writes (w_trace w) @ (if dd_done this then [] else status_effects rng this st msg)"
    by (simp_all add: updateStatus_state updateStatus_trace)
qed

lemma feedback_done: "dd_done (fst (feedback a rng c (this, w)))"
  by (cases c) (auto simp: updateStatus_after_emit DNSDone_Error_def Let_def)

lemma feedback_writes:
  "writes (w_trace (snd (feedback a rng c (this, w)))) =
     writes (w_trace w) @ (if dd_done this then [] else call_effects rng c this)"
  by (cases c) (auto simp: updateStatus_after_emit DNSDone_Error_def Let_def
      updateLoadBalancerStatus_trace lb_Event_def)

lemma feedback_run_done:
  "dd_done this \<Longrightarrow> writes (w_trace (snd (feedback_run a rng cs (this, w)))) = writes (w_trace w)"
proof (induction cs arbitrary: this w)
  case (Cons c cs)
  obtain this' w' where f: "feedback a rng c (this, w) = (this', w')" by (meson surj_pair)
  have "dd_done this'" "writes (w_trace w') = writes (w_trace w)"
    using feedback_done [of a rng c this w] feedback_writes [of a rng c this w] Cons.prems f by simp_all
  with Cons.IH [of this' w'] f show ?case by (simp add: feedback_run_def)
qed (simp add: feedback_run_def)

text \<open>
  C27. Whatever sequence of callbacks the DNS source controller makes on the feedback of one
  watch, the writes to the API server are those of the first callback alone: every later
  callback may only emit events.
\<close>

theorem feedback_latch:
  "writes (w_trace (snd (feedback_run a rng (c # cs) (this, w)))) =
     writes (w_trace w) @ (if dd_done this then [] else call_effects rng c this)"
proof -
  obtain this' w' where f: "feedback a rng c (this, w) = (this', w')" by (meson surj_pair)
  have d: "dd_done this'" and wr: "writes (w_trace w') =
      writes (w_trace w) @ (if dd_done this then [] else call_effects rng c this)"
    using feedback_done [of a rng c this w] feedback_writes [of a rng c this w] f by simp_all
  have "feedback_run a rng (c # cs) (this, w) = feedback_run a rng cs (this', w')"
    by (simp add: feedback_run_def f)
  with feedback_run_done [OF d, of a rng cs w'] wr show ?thesis by simp
qed

end
