(* ===== verification/WatchProps.thy ===== *)
theory WatchProps
  imports Watch FeedbackProps
begin

text \<open>
  What handling a watch does, without the loops: the targets it selects and the feedback it
  fills are functions of the targets and of the health checks' answers alone, and the only
  writes happen when there is nothing to publish.
\<close>

section \<open>Healthy and unhealthy targets\<close>

fun healthy_from :: "net \<Rightarrow> Watch \<Rightarrow> nat \<Rightarrow> Target list \<Rightarrow> Target list" where
  "healthy_from net this i [] = []"
| "healthy_from net this i (t # ts) =
     (if target_healthy net this i t then t # healthy_from net this (Suc i) ts
      else healthy_from net this (Suc i) ts)"

fun unhealthy_from :: "net \<Rightarrow> Watch \<Rightarrow> nat \<Rightarrow> Target list \<Rightarrow> Target list" where
  "unhealthy_from net this i [] = []"
| "unhealthy_from net this i (t # ts) =
     (if target_healthy net this i t then unhealthy_from net this (Suc i) ts
      else t # unhealthy_from net this (Suc i) ts)"

abbreviation healthy_targets :: "net \<Rightarrow> Watch \<Rightarrow> Target list" where
  "healthy_targets net this \<equiv> healthy_from net this 0 (wt_Targets this)"

abbreviation unhealthy_targets :: "net \<Rightarrow> Watch \<Rightarrow> Target list" where
  "unhealthy_targets net this \<equiv> unhealthy_from net this 0 (wt_Targets this)"

lemma set_healthy_from:
  "set (healthy_from net this i ts) =
     {ts ! k |k. k < length ts \<and> target_healthy net this (i + k) (ts ! k)}"
proof (induction ts arbitrary: i)
  case (Cons t ts)
  have split: "{(t # ts) ! k |k. k < length (t # ts) \<and> target_healthy net this (i + k) ((t # ts) ! k)} =
      (if target_healthy net this i t then {t} else {}) \<union>
      {ts ! k |k. k < length ts \<and> target_healthy net this (Suc i + k) (ts ! k)}"
    (is "?L = ?A \<union> ?B")
  proof (intro set_eqI iffI)
    fix x assume "x \<in> ?L"
    then obtain k where "x = (t # ts) ! k" "k < length (t # ts)"
      "target_healthy net this (i + k) ((t # ts) ! k)" by blast
    then show "x \<in> ?A \<union> ?B" by (cases k) auto
  next
    fix x assume "x \<in> ?A \<union> ?B"
    then consider "x = t" "target_healthy net this i t"
      | k where "x = ts ! k" "k < length ts" "target_healthy net this (Suc i + k) (ts ! k)"
      by (auto split: if_splits)
    then show "x \<in> ?L"
    proof cases
      case 1
      then show ?thesis by (intro CollectI exI [of _ 0]) simp
    next
      case 2
      then show ?thesis by (intro CollectI exI [of _ "Suc k"]) simp
    qed
  qed
  show ?case unfolding split using Cons.IH [of "Suc i"] by simp
qed simp

lemma healthy_from_subset: "set (healthy_from net this i ts) \<subseteq> set ts"
  by (induction ts arbitrary: i) auto

section \<open>Filling the feedback\<close>

definition endpoints :: "Target list \<Rightarrow> DNSLoadBalancerEndpoint list" where
  "endpoints ts = List.map_filter t_DNSEP ts"

definition named :: "DNSLoadBalancerEndpoint list \<Rightarrow> ep_map" where
  "named eps = map (\<lambda>ep. (ep_name ep, ep)) eps"

definition put_endpoint :: "ep_map \<Rightarrow> Target \<Rightarrow> ep_map" where
  "put_endpoint m t = (case t_DNSEP t of None \<Rightarrow> m | Some ep \<Rightarrow> AList.update (ep_name ep) ep m)"

lemma endpoints_simps [simp]:
  "endpoints [] = []"
  "endpoints (t # ts) = (case t_DNSEP t of None \<Rightarrow> endpoints ts | Some ep \<Rightarrow> ep # endpoints ts)"
  by (simp_all add: endpoints_def List.map_filter_def split: option.split)

lemma endpoints_append [simp]: "endpoints (s @ t) = endpoints s @ endpoints t"
  by (simp add: endpoints_def List.map_filter_def)

lemma set_endpoints: "set (endpoints ts) = {ep. \<exists>t\<in>set ts. t_DNSEP t = Some ep}"
  by (induction ts) (auto split: option.splits)

lemma AList_update_new: "k \<notin> fst ` set m \<Longrightarrow> AList.update k v m = m @ [(k, v)]"
  by (induction m) auto

lemma foldl_put_endpoint:
  assumes "distinct (map ep_name (eps @ endpoints ts))"
  shows "foldl put_endpoint (named eps) ts = named (eps @ endpoints ts)"
  using assms
proof (induction ts arbitrary: eps)
  case (Cons t ts)
  show ?case
  proof (cases "t_DNSEP t")
    case None
    with Cons show ?thesis by (simp add: put_endpoint_def)
  next
    case (Some ep)
    with Cons.prems have "ep_name ep \<notin> fst ` set (named eps)"
      by (auto simp: named_def)
    then have "put_endpoint (named eps) t = named (eps @ [ep])"
      using Some by (simp add: put_endpoint_def AList_update_new named_def)
    with Cons.IH [of "eps @ [ep]"] Cons.prems Some show ?thesis by simp
  qed
qed (simp add: named_def)

fun record_targets ::
  "(Target \<Rightarrow> DNSDone \<Rightarrow> DNSDone) \<Rightarrow> net \<Rightarrow> Watch \<Rightarrow> nat \<Rightarrow> Target list \<Rightarrow> DNSDone \<Rightarrow> DNSDone" where
  "record_targets addh net this i [] d = d"
| "record_targets addh net this i (t # ts) d =
     record_targets addh net this (Suc i) ts
       (if target_healthy net this i t then addh t d else AddUnhealthyTarget t d)"

lemma AddTargets_sel [simp]:
  "dd_healthy (AddHealthyTarget t d) = put_endpoint (dd_healthy d) t"
  "dd_active (AddHealthyTarget t d) = dd_active d"
  "dd_unhealthy (AddHealthyTarget t d) = dd_unhealthy d"
  "dd_hcount (AddHealthyTarget t d) = dd_hcount d + 1"
  "dd_dnslb (AddHealthyTarget t d) = dd_dnslb d"
  "dd_done (AddHealthyTarget t d) = dd_done d"
  "dd_message (AddHealthyTarget t d) = dd_message d"
  "dd_ishealthy (AddHealthyTarget t d) = dd_ishealthy d"
  "dd_healthy (AddActiveTarget t d) = dd_healthy d"
  "dd_active (AddActiveTarget t d) = put_endpoint (dd_active d) t"
  "dd_unhealthy (AddActiveTarget t d) = dd_unhealthy d"
  "dd_hcount (AddActiveTarget t d) = dd_hcount d + 1"
  "dd_dnslb (AddActiveTarget t d) = dd_dnslb d"
  "dd_done (AddActiveTarget t d) = dd_done d"
  "dd_message (AddActiveTarget t d) = dd_message d"
  "dd_ishealthy (AddActiveTarget t d) = dd_ishealthy d"
  "dd_healthy (AddUnhealthyTarget t d) = dd_healthy d"
  "dd_active (AddUnhealthyTarget t d) = dd_active d"
  "dd_unhealthy (AddUnhealthyTarget t d) = put_endpoint (dd_unhealthy d) t"
  "dd_hcount (AddUnhealthyTarget t d) = dd_hcount d"
  "dd_dnslb (AddUnhealthyTarget t d) = dd_dnslb d"
  "dd_done (AddUnhealthyTarget t d) = dd_done d"
  "dd_message (AddUnhealthyTarget t d) = dd_message d"
  "dd_ishealthy (AddUnhealthyTarget t d) = dd_ishealthy d"
  by (simp_all add: AddHealthyTarget_def AddActiveTarget_def AddUnhealthyTarget_def put_endpoint_def
      Let_def split: option.split)

text \<open>The two ways to record a healthy target.\<close>

abbreviation both :: "Target \<Rightarrow> DNSDone \<Rightarrow> DNSDone" where
  "both t d \<equiv> AddHealthyTarget t (AddActiveTarget t d)"

lemma record_targets_frame:
  assumes "addh \<in> {AddHealthyTarget, both}"
  shows "dd_dnslb (record_targets addh net this i ts d) = dd_dnslb d \<and>
    dd_done (record_targets addh net this i ts d) = dd_done d \<and>
    dd_message (record_targets addh net this i ts d) = dd_message d \<and>
    dd_ishealthy (record_targets addh net this i ts d) = dd_ishealthy d \<and>
    dd_healthy (record_targets addh net this i ts d) =
      foldl put_endpoint (dd_healthy d) (healthy_from net this i ts) \<and>
    dd_unhealthy (record_targets addh net this i ts d) =
      foldl put_endpoint (dd_unhealthy d) (unhealthy_from net this i ts)"
  using assms by (induction ts arbitrary: i d) auto

lemma record_targets_active:
  "dd_active (record_targets AddHealthyTarget net this i ts d) = dd_active d"
  "dd_active (record_targets both net this i ts d) = foldl put_endpoint (dd_active d) (healthy_from net this i ts)"
  by (induction ts arbitrary: i d) auto

lemma record_targets_hcount:
  assumes "addh \<in> {AddHealthyTarget, both}" and "0 \<le> dd_hcount d"
  shows "0 \<le> dd_hcount (record_targets addh net this i ts d) \<and>
    (dd_hcount (record_targets addh net this i ts d) = 0 \<longleftrightarrow>
       dd_hcount d = 0 \<and> healthy_from net this i ts = [])"
  using assms(2)
proof (induction ts arbitrary: i d)
  case (Cons t ts)
  let ?d = "if target_healthy net this i t then addh t d else AddUnhealthyTarget t d"
  have "0 \<le> dd_hcount ?d" "dd_hcount ?d = 0 \<longleftrightarrow> dd_hcount d = 0 \<and> \<not> target_healthy net this i t"
    using assms(1) Cons.prems by auto
  with Cons.IH [of ?d "Suc i"] show ?case by auto
qed simp

section \<open>The loops\<close>

definition pick :: "Watch \<Rightarrow> Target list \<Rightarrow> Target \<Rightarrow> Target list" where
  "pick this ht t = (if check this [t] then [t] else if ht = [] then [t] else ht)"

lemma scan_exclusive:
  assumes "length ht \<le> 1"
  shows "\<exists>w'. scan_targets (exclusive_step net debug this) i ts (ht, dn, ctx, w) =
    (foldl (pick this) ht (healthy_from net this i ts),
     record_targets AddHealthyTarget net this i ts dn, ctx, w') \<and> w_trace w' = w_trace w"
  using assms
proof (induction ts arbitrary: i ht dn w)
  case (Cons t ts)
  have step: "\<exists>w'. exclusive_step net debug this i t (ht, dn, ctx, w) =
      (if target_healthy net this i t then pick this ht t else ht,
       if target_healthy net this i t then AddHealthyTarget t dn else AddUnhealthyTarget t dn,
       ctx, w') \<and> w_trace w' = w_trace w"
    using Cons.prems
    by (cases ht) (auto simp: exclusive_step_def pick_def Let_def)
  have len: "length (if target_healthy net this i t then pick this ht t else ht) \<le> 1"
    using Cons.prems by (simp add: pick_def)
  obtain w1 where "exclusive_step net debug this i t (ht, dn, ctx, w) =
      (if target_healthy net this i t then pick this ht t else ht,
       if target_healthy net this i t then AddHealthyTarget t dn else AddUnhealthyTarget t dn, ctx, w1)"
      "w_trace w1 = w_trace w"
    using step by blast
  then show ?case
    using Cons.IH [OF len, of "Suc i"
        "if target_healthy net this i t then AddHealthyTarget t dn else AddUnhealthyTarget t dn" w1]
    by (simp split: if_splits)
qed simp

lemma scan_balanced:
  "\<exists>w'. scan_targets (balanced_step net debug this) i ts (ht, dn, ctx, w) =
    (ht @ healthy_from net this i ts, record_targets both net this i ts dn, ctx, w') \<and>
    w_trace w' = w_trace w"
proof (induction ts arbitrary: i ht dn w)
  case (Cons t ts)
  have step: "\<exists>w'. balanced_step net debug this i t (ht, dn, ctx, w) =
      (if target_healthy net this i t then ht @ [t] else ht,
       if target_healthy net this i t then both t dn else AddUnhealthyTarget t dn,
       ctx, w') \<and> w_trace w' = w_trace w"
    by (auto simp: balanced_step_def Let_def)
  then obtain w1 where w1: "balanced_step net debug this i t (ht, dn, ctx, w) =
      (if target_healthy net this i t then ht @ [t] else ht,
       if target_healthy net this i t then both t dn else AddUnhealthyTarget t dn, ctx, w1)"
      "w_trace w1 = w_trace w" by blast
  from Cons.IH [of "Suc i" "if target_healthy net this i t then ht @ [t] else ht"
      "if target_healthy net this i t then both t dn else AddUnhealthyTarget t dn" w1]
  show ?case using w1 by (auto split: if_splits)
qed simp


text \<open>
  In exclusive mode the last healthy target that is published already wins, otherwise the first
  healthy one.
\<close>

definition chosen :: "net \<Rightarrow> Watch \<Rightarrow> Target list" where
  "chosen net this =
     (if wt_Singleton this
      then (case filter (\<lambda>t. check this [t]) (healthy_targets net this) of
              [] \<Rightarrow> take 1 (healthy_targets net this)
            | cs \<Rightarrow> [last cs])
      else healthy_targets net this)"

lemma foldl_pick:
  "foldl (pick this) [] hs =
     (case filter (\<lambda>t. check this [t]) hs of [] \<Rightarrow> take 1 hs | cs \<Rightarrow> [last cs])"
proof -
  have one: "foldl (pick this) [x] ts =
      (case filter (\<lambda>t. check this [t]) ts of [] \<Rightarrow> [x] | cs \<Rightarrow> [last cs])" for x ts
    by (induction ts arbitrary: x) (auto simp: pick_def split: list.split)
  show ?thesis
    by (cases hs) (auto simp: one pick_def split: list.split)
qed

definition collected :: "net \<Rightarrow> Watch \<Rightarrow> bool option \<Rightarrow> DNSDone" where
  "collected net this h =
     (let d = SetHealthy (h = Some True) (NewStatusUpdate (wt_DNSLB this))
      in if wt_Singleton this
         then (let d = record_targets AddHealthyTarget net this 0 (wt_Targets this) d
               in case chosen net this of [] \<Rightarrow> d | t # _ \<Rightarrow> AddActiveTarget t d)
         else record_targets both net this 0 (wt_Targets this) d)"

lemma report_lb_eq:
  "\<exists>ctx' w'. report_lb debug this h (dn, ctx, w) = (SetHealthy (h = Some True) dn, ctx', w') \<and>
     w_trace w' = w_trace w"
proof -
  obtain ctx1 w1 where eq: "StateInfof debug ctx (wt_dnsname this) (Watch_String this @
      (case h of None \<Rightarrow> '' not yet resolvable'' | Some True \<Rightarrow> '' is healthy''
       | Some False \<Rightarrow> '' is NOT healthy'')) w = (ctx1, w1)"
    by (meson surj_pair)
  then have "w_trace w1 = w_trace w"
    using StateInfof_world(1) by (metis snd_conv)
  with eq show ?thesis by (simp add: report_lb_def Let_def)
qed

lemma choose_targets_eq:
  "\<exists>ctx' w'. choose_targets net debug this
      (report_lb debug this h (NewStatusUpdate (wt_DNSLB this), ctx, w)) =
    (chosen net this, collected net this h, ctx', w') \<and> w_trace w' = w_trace w"
proof -
  let ?d = "SetHealthy (h = Some True) (NewStatusUpdate (wt_DNSLB this))"
  obtain ctx1 w1 where r: "report_lb debug this h (NewStatusUpdate (wt_DNSLB this), ctx, w) = (?d, ctx1, w1)"
      "w_trace w1 = w_trace w"
    using report_lb_eq by blast
  show ?thesis
  proof (cases "wt_Singleton this")
    case True
    obtain w2 where "scan_targets (exclusive_step net debug this) 0 (wt_Targets this) ([], ?d, ctx1, w1) =
        (foldl (pick this) [] (healthy_targets net this),
         record_targets AddHealthyTarget net this 0 (wt_Targets this) ?d, ctx1, w2)"
        "w_trace w2 = w_trace w1"
      using scan_exclusive [of "[]"] by fastforce
    with True r show ?thesis
      by (simp add: choose_targets_def collected_def chosen_def foldl_pick Let_def)
  next
    case False
    obtain w2 where "scan_targets (balanced_step net debug this) 0 (wt_Targets this) ([], ?d, ctx1, w1) =
        ([] @ healthy_targets net this, record_targets both net this 0 (wt_Targets this) ?d, ctx1, w2)"
        "w_trace w2 = w_trace w1"
      using scan_balanced by blast
    with False r show ?thesis
      by (simp add: choose_targets_def collected_def chosen_def Let_def)
  qed
qed

lemma chosen_Nil_iff: "chosen net this = [] \<longleftrightarrow> healthy_targets net this = []"
  by (auto simp: chosen_def split: list.split)

lemma set_chosen: "set (chosen net this) \<subseteq> set (healthy_targets net this)"
proof (cases "filter (\<lambda>t. check this [t]) (healthy_targets net this)")
  case Nil
  then show ?thesis
    by (auto simp: chosen_def dest: in_set_takeD)
next
  case (Cons c cs)
  have "set (c # cs) \<subseteq> set (healthy_targets net this)"
    using filter_is_subset [of "\<lambda>t. check this [t]" "healthy_targets net this"] unfolding Cons .
  then have "last (c # cs) \<in> set (healthy_targets net this)"
    using last_in_set [of "c # cs"] by blast
  then show ?thesis
    by (auto simp: chosen_def Cons split: if_splits)
qed

lemma length_chosen: "wt_Singleton this \<Longrightarrow> length (chosen net this) \<le> 1"
  by (simp add: chosen_def split: list.split)

lemma HasHealthy_collected: "HasHealthy (collected net this h) \<longleftrightarrow> healthy_targets net this \<noteq> []"
proof -
  let ?d = "SetHealthy (h = Some True) (NewStatusUpdate (wt_DNSLB this))"
  have d: "dd_hcount ?d = 0" by (simp add: SetHealthy_def NewStatusUpdate_def)
  have ex: "0 \<le> dd_hcount (record_targets addh net this 0 (wt_Targets this) ?d) \<and>
      (dd_hcount (record_targets addh net this 0 (wt_Targets this) ?d) = 0 \<longleftrightarrow> healthy_targets net this = [])"
    if "addh \<in> {AddHealthyTarget, both}" for addh
    using record_targets_hcount [OF that, of ?d net this 0 "wt_Targets this"] d by simp
  show ?thesis
  proof (cases "wt_Singleton this")
    case True
    with ex [of AddHealthyTarget] chosen_Nil_iff [of net this] show ?thesis
      by (cases "chosen net this") (auto simp: HasHealthy_def collected_def Let_def)
  next
    case False
    with ex [of both] show ?thesis
      by (simp add: HasHealthy_def collected_def Let_def)
  qed
qed

lemma collected_fresh:
  "\<not> dd_done (collected net this h)" "dd_message (collected net this h) = ''''"
  "dd_dnslb (collected net this h) = wt_DNSLB this"
  "dd_ishealthy (collected net this h) \<longleftrightarrow> h = Some True"
  by (auto simp: collected_def Let_def record_targets_frame SetHealthy_def NewStatusUpdate_def
      split: list.split)

section \<open>Handle\<close>

definition published :: "net \<Rightarrow> Watch \<Rightarrow> StringSet" where
  "published net this = NewStringSet (map GetHostName (chosen net this))"

definition replacing :: "net \<Rightarrow> Watch \<Rightarrow> string" where
  "replacing net this =
     ''replacing targets for '' @ wt_dnsname this @ '': '' @
       StringSet_String (cs_Targets (wt_current this)) @ '' -> '' @ StringSet_String (published net this)"

abbreviation no_healthy :: go_error where
  "no_healthy \<equiv> OtherError ''no healthy targets found''"

lemma Handle_eq:
  assumes "wt_Targets this \<noteq> []" and "lookup_lb net this = Ok h"
  shows "\<exists>w1. w_trace w1 = w_trace w \<and>
    Handle a net debug this w =
      (let s = published net this; this' = this\<lparr>wt_updated := s\<rparr>; d = collected net this h
       in Ok (if set s \<noteq> set (cs_Targets (wt_current this))
              then (s, Some (SetMessage (replacing net this) d), this', w1)
              else if healthy_targets net this = []
              then (case DNSDone_Error a False no_healthy (d, w1) of (d', w2) \<Rightarrow> (s, Some d', this', w2))
              else (s, Some d, this', w1)))"
proof -
  obtain ctx1 w1 where c: "choose_targets net debug this
      (report_lb debug this h (NewStatusUpdate (wt_DNSLB this), InactiveContext, w)) =
      (chosen net this, collected net this h, ctx1, w1)" "w_trace w1 = w_trace w"
    using choose_targets_eq by blast
  obtain w2 where w2: "w2 = (if set (published net this) = set (cs_Targets (wt_current this)) \<and>
      healthy_targets net this = [] then Infof debug ctx1 ''no healthy targets found'' w1 else w1)"
    by blast
  have "w_trace w2 = w_trace w" using c w2 by simp
  moreover have "Handle a net debug this w =
      (let s = published net this; this' = this\<lparr>wt_updated := s\<rparr>; d = collected net this h
       in Ok (if set s \<noteq> set (cs_Targets (wt_current this))
              then (s, Some (SetMessage (replacing net this) d), this', w2)
              else if healthy_targets net this = []
              then (case DNSDone_Error a False no_healthy (d, w2) of (d', w3) \<Rightarrow> (s, Some d', this', w3))
              else (s, Some d, this', w2)))"
    using assms c(1) w2
    by (auto simp: Handle_def Let_def apply_targets_def HasHealthy_collected published_def replacing_def
        split: prod.split)
  ultimately show ?thesis by blast
qed

lemma Handle_no_targets:
  "wt_Targets this = [] \<Longrightarrow> \<exists>w'. Handle a net debug this w = Ok ([], None, this, w')"
  by (simp add: Handle_def Let_def split: prod.split)

lemma Handle_panic:
  "Handle a net debug this w = Panic \<longleftrightarrow> wt_Targets this \<noteq> [] \<and> lookup_lb net this = Panic"
proof (cases "wt_Targets this = [] \<or> lookup_lb net this = Panic")
  case True
  then show ?thesis by (auto simp: Handle_def Let_def split: prod.split)
next
  case False
  then obtain h where "wt_Targets this \<noteq> []" "lookup_lb net this = Ok h"
    by (cases "lookup_lb net this") auto
  from Handle_eq [OF this, of w a debug] show ?thesis
    using False by (auto simp: Let_def)
qed

lemma lookup_lb_panic:
  "lookup_lb net this = Panic \<longleftrightarrow> net_LookupIP net (wt_dnsname this) = Inr []"
  by (auto simp: lookup_lb_def split: sum.split list.split)

end
