(* ===== verification/Samples.thy ===== *)
theory Samples
  imports World
begin

text \<open>
  Concrete objects on which the properties are applied: an API server that accepts everything, a
  load balancer, its endpoints and their metadata.
\<close>

definition sample_meta :: "string \<Rightarrow> ObjectMeta" where
  "sample_meta name =
     \<lparr>m_cluster = ''target'', m_namespace = ''ns'', m_name = name, m_generateName = '''', m_uid = ''u1'',
      m_resourceVersion = ''1'', m_labels = None, m_annotations = Map.empty, m_finalizers = [],
      m_ownerReferences = [], m_creationTimestamp = 0, m_deletionTimestamp = None\<rparr>"

definition sample_lb :: DNSLoadBalancer where
  "sample_lb =
     \<lparr>lb_meta = sample_meta ''lb'',
      lb_spec = \<lparr>DNSName = ''lb.example.org'', HealthPath = ''/healthz'', StatusCode = 0, Type = LBTYPE_EXCLUSIVE,
        TTL = None, Singleton = None, EndpointValidityInterval = None\<rparr>,
      lb_status = \<lparr>lbs_State = None, lbs_Message = None, lbs_Active = None\<rparr>\<rparr>"

definition sample_ep :: "string \<Rightarrow> string \<Rightarrow> DNSLoadBalancerEndpoint" where
  "sample_ep name cname =
     \<lparr>ep_meta = sample_meta name,
      ep_spec = \<lparr>LoadBalancerRef = ''lb'', IPAddress = '''', CName = cname\<rparr>,
      ep_status = \<lparr>eps_State = None, eps_Message = None, eps_Healthy = False, eps_ValidUntil = None\<rparr>\<rparr>"

definition sample_api :: api where
  "sample_api =
     \<lparr>api_updateLB = (\<lambda>_ lb. Inr lb), api_updateEP = (\<lambda>_ ep. Inr ep), api_createEP = (\<lambda>_ ep. Inr ep),
      api_deleteEP = (\<lambda>_ _. None), api_updateSource = (\<lambda>_ s. Inr s),
      api_getSource = (\<lambda>_ _. Inl (NotFoundError ''gone'')),
      api_createEntry = (\<lambda>_ e. Inr e), api_updateEntry = (\<lambda>_ e. Inr e), api_deleteEntry = (\<lambda>_ _. None),
      api_getEntry = (\<lambda>_ _. Inl (NotFoundError ''gone''))\<rparr>"

lemmas sample_defs = sample_meta_def sample_lb_def sample_ep_def sample_api_def

end
