(* ===== verification/HandleProps.thy ===== *)
theory HandleProps
  imports WatchProps Samples
begin

text \<open>
  The properties of handling a watch: which targets are published in the two modes, that a
  healthy published target is kept, when the code panics, what is written, and the status that
  the callback of the DNS source controller leads to.
\<close>

section \<open>A concrete watch\<close>

text \<open>Two targets, of which only the second answers its health check.\<close>

definition sample_target :: "string \<Rightarrow> string \<Rightarrow> Target" where
  "sample_target name cname = \<lparr>t_Name = cname, t_IPAddress = '''', t_DNSEP = Some (sample_ep name cname)\<rparr>"

definition sample_watch :: "bool \<Rightarrow> Watch" where
  "sample_watch singleton =
     \<lparr>wt_nxdomain = [], wt_dnsname = ''lb.example.org'', wt_HealthPath = ''/healthz'', wt_StatusCode = 0,
      wt_Targets = [sample_target ''ep1'' ''a'', sample_target ''ep2'' ''b''], wt_Singleton = singleton,
      wt_DNSLB = sample_lb, wt_current = \<lparr>cs_Names = Map.empty, cs_Targets = [''b''], cs_AnnotatedNames = []\<rparr>, wt_updated = []\<rparr>"

definition sample_net :: net where
  "sample_net =
     \<lparr>net_LookupIP = (\<lambda>_. Inr [[10, 0, 0, 1]]), net_NewRequest = (\<lambda>_. True),
      net_Do = (\<lambda>n _ _. if n = 2 then Some 200 else Some 503)\<rparr>"

lemmas watch_sample_defs = sample_defs sample_target_def sample_watch_def sample_net_def

section \<open>Published targets\<close>

lemma healthy_targets_iff:
  "t \<in> set (healthy_targets net this) \<longleftrightarrow>
     (\<exists>i<length (wt_Targets this). t = wt_Targets this ! i \<and> target_healthy net this i t)"
  by (auto simp: set_healthy_from)

lemma no_healthy_targets_iff:
  "healthy_targets net this = [] \<longleftrightarrow>
     (\<forall>i<length (wt_Targets this). \<not> target_healthy net this i (wt_Targets this ! i))"
proof -
  have "healthy_targets net this = [] \<longleftrightarrow> set (healthy_targets net this) = {}" by simp
  also have "\<dots> \<longleftrightarrow> (\<forall>i<length (wt_Targets this). \<not> target_healthy net this i (wt_Targets this ! i))"
    unfolding set_healthy_from by auto
  finally show ?thesis .
qed

lemma healthy_hosts:
  "GetHostName ` set (healthy_targets net this) =
     {GetHostName (wt_Targets this ! i) |i. i < length (wt_Targets this) \<and>
      target_healthy net this i (wt_Targets this ! i)}"
  unfolding set_healthy_from by auto

lemma set_published [simp]: "set (published net this) = GetHostName ` set (chosen net this)"
  by (simp add: published_def)

lemma published_Nil_iff: "published net this = [] \<longleftrightarrow> healthy_targets net this = []"
  using set_published [of net this] chosen_Nil_iff [of net this]
  by (metis image_is_empty set_empty)

lemma length_NewStringSet: "length xs \<le> 1 \<Longrightarrow> length (NewStringSet xs) \<le> 1"
  by (cases xs) (auto simp: NewStringSet_def Add_def keyset_add_def)

lemma Handle_returns:
  assumes "wt_Targets this \<noteq> []" and "net_LookupIP net (wt_dnsname this) \<noteq> Inr []"
  shows "\<exists>d this' w'. Handle a net debug this w = Ok (published net this, Some d, this', w')"
proof -
  obtain h where "lookup_lb net this = Ok h"
    using assms(2) lookup_lb_panic [of net this] by (cases "lookup_lb net this") auto
  from Handle_eq [OF assms(1) this, of w a debug] show ?thesis
    by (auto simp: Let_def split: prod.split)
qed

text \<open>
  C1. In exclusive mode at most one host is published, the host of a target that passed its
  health check; nothing is published exactly when no target is healthy. This holds for every
  watch with targets, unless the lookup of the load balancer's own name answers successfully
  with no address at all.
\<close>

theorem handle_exclusive:
  assumes "wt_Singleton this" and "wt_Targets this \<noteq> []"
    and "net_LookupIP net (wt_dnsname this) \<noteq> Inr []"
  shows "\<exists>hosts d this' w'. Handle a net debug this w = Ok (hosts, Some d, this', w') \<and>
    length hosts \<le> 1 \<and>
    set hosts \<subseteq> {GetHostName (wt_Targets this ! i) |i. i < length (wt_Targets this) \<and>
      target_healthy net this i (wt_Targets this ! i)} \<and>
    (hosts = [] \<longleftrightarrow> (\<forall>i<length (wt_Targets this). \<not> target_healthy net this i (wt_Targets this ! i)))"
proof -
  obtain d this' w' where h: "Handle a net debug this w = Ok (published net this, Some d, this', w')"
    using Handle_returns [OF assms(2,3)] by blast
  have len: "length (published net this) \<le> 1"
    using length_chosen [OF assms(1), of net] length_NewStringSet by (metis length_map published_def)
  have sub: "set (published net this) \<subseteq> {GetHostName (wt_Targets this ! i) |i. i < length (wt_Targets this) \<and>
      target_healthy net this i (wt_Targets this ! i)}"
    using image_mono [OF set_chosen [of net this], of GetHostName] by (simp only: healthy_hosts set_published)
  have "published net this = [] \<longleftrightarrow> (\<forall>i<length (wt_Targets this). \<not> target_healthy net this i (wt_Targets this ! i))"
    by (simp add: published_Nil_iff no_healthy_targets_iff)
  with h len sub show ?thesis by blast
qed

theorem handle_exclusive_witness:
  "\<exists>hosts d this' w'. Handle sample_api sample_net False (sample_watch True) init_world =
     Ok (hosts, Some d, this', w') \<and> length hosts \<le> 1"
  using handle_exclusive [of "sample_watch True" sample_net sample_api False init_world]
  by (auto simp: sample_watch_def sample_net_def)

text \<open>
  C17. In balanced mode exactly the hosts of the targets that passed their health check are
  published.
\<close>

theorem handle_balanced:
  assumes "\<not> wt_Singleton this" and "wt_Targets this \<noteq> []"
    and "net_LookupIP net (wt_dnsname this) \<noteq> Inr []"
  shows "\<exists>hosts d this' w'. Handle a net debug this w = Ok (hosts, Some d, this', w') \<and>
    set hosts = {GetHostName (wt_Targets this ! i) |i. i < length (wt_Targets this) \<and>
      target_healthy net this i (wt_Targets this ! i)}"
proof -
  obtain d this' w' where h: "Handle a net debug this w = Ok (published net this, Some d, this', w')"
    using Handle_returns [OF assms(2,3)] by blast
  have "set (published net this) = GetHostName ` set (healthy_targets net this)"
    using assms(1) by (simp add: chosen_def)
  also note healthy_hosts
  finally show ?thesis using h by blast
qed

theorem handle_balanced_witness:
  "\<exists>hosts d this' w'. Handle sample_api sample_net False (sample_watch False) init_world =
     Ok (hosts, Some d, this', w') \<and> ''b'' \<in> set hosts"
proof -
  have "target_healthy sample_net (sample_watch False) 1 (wt_Targets (sample_watch False) ! 1)"
    by (simp add: IsHealthy_def watch_sample_defs Let_def)
  moreover have "GetHostName (wt_Targets (sample_watch False) ! 1) = ''b''"
    by (simp add: watch_sample_defs GetHostName_def)
  ultimately have "''b'' \<in> {GetHostName (wt_Targets (sample_watch False) ! i) |i.
      i < length (wt_Targets (sample_watch False)) \<and>
      target_healthy sample_net (sample_watch False) i (wt_Targets (sample_watch False) ! i)}"
    by (intro CollectI exI [of _ 1]) (simp add: sample_watch_def)
  with handle_balanced [of "sample_watch False" sample_net sample_api False init_world]
  show ?thesis by (auto simp: sample_watch_def sample_net_def)
qed

lemma chosen_sticky:
  assumes "wt_Singleton this" and "t \<in> set (healthy_targets net this)"
    and "set (cs_Targets (wt_current this)) = {GetHostName t}"
  shows "GetHostName ` set (chosen net this) = {GetHostName t}"
proof -
  let ?cs = "filter (\<lambda>t. check this [t]) (healthy_targets net this)"
  have "t \<in> set ?cs" using assms(2,3) by (simp add: check_def)
  then have "?cs \<noteq> []" by (metis empty_iff empty_set)
  then have "last ?cs \<in> set ?cs" by (rule last_in_set)
  moreover have "chosen net this = [last ?cs]"
    using assms(1) \<open>?cs \<noteq> []\<close> by (simp add: chosen_def split: list.split)
  ultimately show ?thesis using assms(3) by (auto simp: check_def)
qed

lemma handle_sticky_fresh:
  assumes "wt_Singleton this" and "i < length (wt_Targets this)"
    and "target_healthy net this i (wt_Targets this ! i)"
    and "set (cs_Targets (wt_current this)) = {GetHostName (wt_Targets this ! i)}"
    and "net_LookupIP net (wt_dnsname this) \<noteq> Inr []"
  shows "\<exists>hosts d this' w'. Handle a net debug this w = Ok (hosts, Some d, this', w') \<and>
    hosts = [GetHostName (wt_Targets this ! i)] \<and> w_trace w' = w_trace w \<and>
    \<not> dd_done d \<and> dd_message d = ''''"
proof -
  let ?t = "wt_Targets this ! i"
  have t: "?t \<in> set (healthy_targets net this)"
    using assms(2,3) by (auto simp: healthy_targets_iff)
  have set_p: "set (published net this) = {GetHostName ?t}"
    using chosen_sticky [OF assms(1) t assms(4)] by simp
  have "length (published net this) \<le> 1"
    using length_chosen [OF assms(1), of net] length_NewStringSet by (metis length_map published_def)
  with set_p have p: "published net this = [GetHostName ?t]"
    by (cases "published net this") auto
  obtain h where h: "lookup_lb net this = Ok h"
    using assms(5) lookup_lb_panic [of net this] by (cases "lookup_lb net this") auto
  have ne: "wt_Targets this \<noteq> []" "healthy_targets net this \<noteq> []"
    using assms(2) t by auto
  obtain w1 where "w_trace w1 = w_trace w" "Handle a net debug this w =
      Ok (published net this, Some (collected net this h), this\<lparr>wt_updated := published net this\<rparr>, w1)"
    using Handle_eq [OF ne(1) h, of w a debug] assms(4) ne(2) set_p by (auto simp: Let_def)
  with p collected_fresh [of net this h] show ?thesis by auto
qed

text \<open>
  C16. Exclusive mode is sticky: as long as the target that is published passes its health check,
  handling the watch publishes the same host again, whatever the other targets do and in
  whatever order they are listed, and it asks for no change: nothing is written or announced and
  the feedback carries no message.
\<close>

theorem handle_sticky:
  assumes "wt_Singleton this" and "i < length (wt_Targets this)"
    and "target_healthy net this i (wt_Targets this ! i)"
    and "set (cs_Targets (wt_current this)) = {GetHostName (wt_Targets this ! i)}"
    and "net_LookupIP net (wt_dnsname this) \<noteq> Inr []"
  shows "\<exists>hosts d this' w'. Handle a net debug this w = Ok (hosts, Some d, this', w') \<and>
    hosts = [GetHostName (wt_Targets this ! i)] \<and> w_trace w' = w_trace w \<and>
    \<not> dd_done d \<and> dd_message d = ''''"
  using handle_sticky_fresh [OF assms] .

theorem handle_sticky_witness:
  "\<exists>d this' w'. Handle sample_api sample_net False (sample_watch True) init_world =
     Ok ([''b''], Some d, this', w') \<and> w_trace w' = []"
  using handle_sticky [of "sample_watch True" 1 sample_net sample_api False init_world]
  by (auto simp: watch_sample_defs GetHostName_def IsHealthy_def Let_def init_world_def)

text \<open>
  C26. Handling a watch panics exactly when the watch has targets and the lookup of the load
  balancer's name succeeds with an empty list of addresses; no other state of the watch, the
  cluster or the network makes it panic.
\<close>

theorem handle_panics_iff:
  "Handle a net debug this w = Panic \<longleftrightarrow>
     wt_Targets this \<noteq> [] \<and> net_LookupIP net (wt_dnsname this) = Inr []"
  by (simp add: Handle_panic lookup_lb_panic)

section \<open>What is written\<close>

lemma handle_trace_cases:
  assumes "Handle a net debug this w = Ok (hosts, d, this', w')"
  shows "w_trace w' = w_trace w \<or>
    (\<exists>msg. (wt_Targets this = [] \<or> healthy_targets net this = [] \<and> cs_Targets (wt_current this) = []) \<and>
       w_trace w' = w_trace w @ EventOn (lb_ClusterKey (wt_DNSLB this)) EventTypeWarning ''sync'' msg #
         lb_effects (wt_DNSLB this) \<lparr>lbs_State = Some STATE_ERROR, lbs_Message = Some msg, lbs_Active = None\<rparr>)"
proof (cases "wt_Targets this = []")
  case True
  with assms show ?thesis
    by (auto simp: Handle_def Let_def DNSDone_Error_def NewStatusUpdate_def lb_Event_def
        updateLoadBalancerStatus_trace new_status_def split: prod.splits)
next
  case False
  have "lookup_lb net this \<noteq> Panic"
    using assms False Handle_panic [of a net debug this w] by simp
  then obtain h where h: "lookup_lb net this = Ok h" by (cases "lookup_lb net this") auto
  show ?thesis
  proof (cases "healthy_targets net this = [] \<and> cs_Targets (wt_current this) = []")
    case True
    then have "published net this = []"
      by (simp add: published_Nil_iff)
    with True assms Handle_eq [OF False h, of w a debug] collected_fresh [of net this h] show ?thesis
      by (auto simp: Let_def DNSDone_Error_def lb_Event_def updateLoadBalancerStatus_trace new_status_def
          split: prod.splits)
  next
    case no: False
    have "set (published net this) \<noteq> set (cs_Targets (wt_current this)) \<or> healthy_targets net this \<noteq> []"
      using no published_Nil_iff [of net this] chosen_Nil_iff [of net this]
      by (cases "cs_Targets (wt_current this)") auto
    with assms Handle_eq [OF False h, of w a debug] show ?thesis
      by (auto simp: Let_def split: if_splits)
  qed
qed

lemma Handle_hosts:
  assumes "Handle a net debug this w = Ok (hosts, d, this', w')"
  shows "hosts = [] \<or> hosts = published net this"
proof (cases "wt_Targets this = []")
  case True
  with assms Handle_no_targets [OF True, of a net debug w] show ?thesis by auto
next
  case False
  have "net_LookupIP net (wt_dnsname this) \<noteq> Inr []"
    using assms False Handle_panic [of a net debug this w] lookup_lb_panic [of net this] by auto
  from Handle_returns [OF False this, of a debug w] assms show ?thesis by auto
qed

text \<open>
  C25. Handling a watch never changes an endpoint and writes the load balancer only to report an
  error: either nothing leaves the process, or one warning is emitted, followed by at most one
  update that puts the load balancer into the state Error and changes nothing but its status.
  The second case needs that there are no targets, or that nothing is healthy and nothing was
  published before.
\<close>

theorem handle_effects:
  assumes "Handle a net debug this w = Ok (hosts, d, this', w')"
  shows "w_trace w' = w_trace w \<or>
    (\<exists>msg. (wt_Targets this = [] \<or> healthy_targets net this = [] \<and> cs_Targets (wt_current this) = []) \<and>
       w_trace w' = w_trace w @ EventOn (lb_ClusterKey (wt_DNSLB this)) EventTypeWarning ''sync'' msg #
         lb_effects (wt_DNSLB this) \<lparr>lbs_State = Some STATE_ERROR, lbs_Message = Some msg, lbs_Active = None\<rparr>)"
  using handle_trace_cases [OF assms] .

theorem handle_effects_witness:
  "\<exists>this' w'. Handle sample_api sample_net False (sample_watch True\<lparr>wt_Targets := []\<rparr>) init_world =
       Ok ([], None, this', w') \<and>
     (w_trace w' = [] \<or> (\<exists>msg. w_trace w' = EventOn (lb_ClusterKey sample_lb) EventTypeWarning ''sync'' msg #
       lb_effects sample_lb \<lparr>lbs_State = Some STATE_ERROR, lbs_Message = Some msg, lbs_Active = None\<rparr>))"
proof -
  let ?w = "sample_watch True\<lparr>wt_Targets := []\<rparr>"
  have "wt_Targets ?w = []" by simp
  from Handle_no_targets [OF this] obtain this' w' where
    h: "Handle sample_api sample_net False ?w init_world = Ok ([], None, this', w')" by blast
  have "wt_DNSLB ?w = sample_lb" by (simp add: sample_watch_def)
  with handle_effects [OF h] h show ?thesis by (auto simp: init_world_def)
qed

section \<open>The status after handling\<close>

lemma endpoints_healthy_from: "set (endpoints (healthy_from net this i ts)) \<subseteq> set (endpoints ts)"
  using healthy_from_subset [of net this i ts] by (auto simp: set_endpoints)

lemma endpoints_unhealthy_from: "set (endpoints (unhealthy_from net this i ts)) \<subseteq> set (endpoints ts)"
  by (induction ts arbitrary: i) (auto split: option.splits)

lemma distinct_healthy_from:
  assumes "distinct (map ep_name (endpoints ts))"
  shows "distinct (map ep_name (endpoints (healthy_from net this i ts)))"
    and "distinct (map ep_name (endpoints (unhealthy_from net this i ts)))"
proof -
  have "distinct (map ep_name (endpoints (healthy_from net this i ts))) \<and>
      distinct (map ep_name (endpoints (unhealthy_from net this i ts)))"
    using assms
  proof (induction ts arbitrary: i)
    case (Cons t ts)
    note sub = image_mono [OF endpoints_healthy_from [of net this "Suc i" ts], of ep_name]
      image_mono [OF endpoints_unhealthy_from [of net this "Suc i" ts], of ep_name]
    show ?case
    proof (cases "t_DNSEP t")
      case None
      with Cons show ?thesis by simp
    next
      case (Some ep)
      then have "ep_name ep \<notin> ep_name ` set (endpoints ts)" "distinct (map ep_name (endpoints ts))"
        using Cons.prems by simp_all
      with sub have "ep_name ep \<notin> ep_name ` set (endpoints (healthy_from net this (Suc i) ts))"
        "ep_name ep \<notin> ep_name ` set (endpoints (unhealthy_from net this (Suc i) ts))"
        by blast+
      with Some Cons.IH [of "Suc i"] Cons.prems show ?thesis by simp
    qed
  qed simp
  then show "distinct (map ep_name (endpoints (healthy_from net this i ts)))"
    "distinct (map ep_name (endpoints (unhealthy_from net this i ts)))" by simp_all
qed

lemma dd_active_collected:
  assumes "distinct (map ep_name (endpoints (wt_Targets this)))"
  shows "dd_active (collected net this h) = named (endpoints (chosen net this))"
proof (cases "wt_Singleton this")
  case True
  then have "length (chosen net this) \<le> 1" by (rule length_chosen)
  with True show ?thesis
    by (cases "chosen net this")
      (auto simp: collected_def Let_def record_targets_active SetHealthy_def NewStatusUpdate_def
        named_def put_endpoint_def split: option.split)
next
  case False
  with foldl_put_endpoint [of "[]" "healthy_targets net this"] distinct_healthy_from(1) [OF assms]
  show ?thesis
    by (simp add: collected_def Let_def record_targets_active SetHealthy_def NewStatusUpdate_def
        named_def chosen_def)
qed

lemma dd_healthy_collected:
  assumes "distinct (map ep_name (endpoints (wt_Targets this)))"
  shows "dd_healthy (collected net this h) = named (endpoints (healthy_targets net this))"
    and "dd_unhealthy (collected net this h) = named (endpoints (unhealthy_targets net this))"
proof -
  let ?d = "SetHealthy (h = Some True) (NewStatusUpdate (wt_DNSLB this))"
  have "dd_healthy ?d = []" "dd_unhealthy ?d = []"
    by (simp_all add: SetHealthy_def NewStatusUpdate_def)
  moreover have "foldl put_endpoint [] (healthy_targets net this) = named (endpoints (healthy_targets net this))"
    using foldl_put_endpoint [of "[]" "healthy_targets net this"] distinct_healthy_from(1) [OF assms]
    by (simp add: named_def)
  moreover have "foldl put_endpoint [] (unhealthy_targets net this) = named (endpoints (unhealthy_targets net this))"
    using foldl_put_endpoint [of "[]" "unhealthy_targets net this"] distinct_healthy_from(2) [OF assms]
    by (simp add: named_def)
  ultimately show "dd_healthy (collected net this h) = named (endpoints (healthy_targets net this))"
    "dd_unhealthy (collected net this h) = named (endpoints (unhealthy_targets net this))"
    by (auto simp: collected_def Let_def record_targets_frame split: list.split)
qed

lemma map_of_named: "map_of (named eps) n \<noteq> None \<longleftrightarrow> n \<in> ep_name ` set eps"
  by (auto simp: named_def map_of_eq_None_iff image_iff)

lemma active_list_names:
  assumes "\<forall>(k, t)\<in>set m. k = ep_name t"
  shows "map a_Endpoint (active_list m) = sort (map fst m)"
proof -
  have keys: "map (\<lambda>(_, t). ep_name t) m = map fst m" using assms by auto
  have "map a_Endpoint (concat (map (\<lambda>k. case map_of m k of None \<Rightarrow> [] | Some t \<Rightarrow> [active_entry t]) ks)) = ks"
    if "set ks \<subseteq> fst ` set m" for ks
    using that
  proof (induction ks)
    case (Cons k ks)
    then obtain t where t: "map_of m k = Some t"
      by (metis insert_subset list.simps(15) map_of_eq_None_iff not_None_eq)
    then have "k = ep_name t" using assms map_of_SomeD [OF t] by auto
    with Cons t show ?case by (simp add: active_entry_def)
  qed simp
  from this [of "sort (map fst m)"] show ?thesis by (simp add: active_list_def keys)
qed

lemma active_list_named: "map a_Endpoint (active_list (named eps)) = sort (map ep_name eps)"
  by (subst active_list_names) (auto simp: named_def comp_def)

lemma fresh_feedback:
  assumes "wt_Targets this \<noteq> []" and "lookup_lb net this = Ok h"
    and "Handle a net debug this w = Ok (hosts, Some d, this', w')" and "\<not> dd_done d"
  shows "\<exists>m. d = SetMessage m (collected net this h) \<and> w_trace w' = w_trace w"
proof -
  have same: "SetMessage '''' (collected net this h) = collected net this h"
    using collected_fresh(2) [of net this h] by (simp add: SetMessage_def)
  obtain w1 where w1: "w_trace w1 = w_trace w" "Handle a net debug this w =
    (let s = published net this; this' = this\<lparr>wt_updated := s\<rparr>; d = collected net this h
     in Ok (if set s \<noteq> set (cs_Targets (wt_current this))
            then (s, Some (SetMessage (replacing net this) d), this', w1)
            else if healthy_targets net this = []
            then (case DNSDone_Error a False no_healthy (d, w1) of (d', w2) \<Rightarrow> (s, Some d', this', w2))
            else (s, Some d, this', w1)))"
    using Handle_eq [OF assms(1,2), of w a debug] by blast
  have "dd_done (fst (DNSDone_Error a False no_healthy (collected net this h, w1)))"
    by (simp add: DNSDone_Error_def Let_def)
  then show ?thesis
    using assms(3,4) w1 same [symmetric]
    by (auto simp: Let_def split: if_splits prod.splits)
qed

text \<open>
  C18. The first good answer of the DNS source controller after a watch was handled. Provided the
  targets belong to endpoints of different names, the writes are, in this order: the load
  balancer, when its status changes, with the state Healthy or Unreachable as its own name
  answered, no message, and the list of the endpoints chosen, sorted by name; then every endpoint
  that passed its check, as healthy and as Active exactly when it was chosen; then the other
  endpoints, as unhealthy and Inactive. An endpoint whose status is right already is not written.
\<close>

theorem handle_then_succeeded:
  assumes "distinct (map ep_name (endpoints (wt_Targets this)))" and "wt_Targets this \<noteq> []"
    and "Handle a net debug this w = Ok (hosts, Some d, this', w')" and "\<not> dd_done d"
  shows "\<exists>active.
    map a_Endpoint active = sort (map ep_name (endpoints (chosen net this))) \<and>
    writes (w_trace (snd (feedback a rng Succeeded (d, w')))) = writes (w_trace w) @
      lb_effects (wt_DNSLB this)
        \<lparr>lbs_State = Some (if lookup_lb net this = Ok (Some True) then STATE_HEALTHY else STATE_UNREACHABLE),
         lbs_Message = None, lbs_Active = (if active = [] then None else Some active)\<rparr> @
      concat (map (\<lambda>(_, ep). ep_effects ep
        (if ep_name ep \<in> ep_name ` set (endpoints (chosen net this)) then STATE_ACTIVE else STATE_INACTIVE) True)
        (rng (named (endpoints (healthy_targets net this))))) @
      concat (map (\<lambda>(_, ep). ep_effects ep STATE_INACTIVE False)
        (rng (named (endpoints (unhealthy_targets net this)))))"
proof -
  have "lookup_lb net this \<noteq> Panic"
    using assms Handle_panic [of a net debug this w] by simp
  then obtain h where h: "lookup_lb net this = Ok h" by (cases "lookup_lb net this") auto
  obtain m where d: "d = SetMessage m (collected net this h)" and tr: "w_trace w' = w_trace w"
    using fresh_feedback [OF assms(2) h assms(3,4)] by blast
  let ?active = "active_list (named (endpoints (chosen net this)))"
  have act: "(named (endpoints (chosen net this)) = []) = (?active = [])"
  proof -
    have "(?active = []) = (map a_Endpoint ?active = [])" by simp
    also have "\<dots> = (set (map ep_name (endpoints (chosen net this))) = {})"
      unfolding active_list_named by (metis set_empty set_sort)
    finally show ?thesis by (simp add: named_def)
  qed
  have st: "new_status d True '''' '''' =
      \<lparr>lbs_State = Some (if lookup_lb net this = Ok (Some True) then STATE_HEALTHY else STATE_UNREACHABLE),
       lbs_Message = None, lbs_Active = (if ?active = [] then None else Some ?active)\<rparr>"
    using act collected_fresh [of net this h] dd_active_collected [OF assms(1), of net h]
    by (simp add: new_status_def d SetMessage_def Let_def h)
  have wr: "writes (w_trace (snd (feedback a rng Succeeded (d, w')))) =
      writes (w_trace w) @ status_effects rng d '''' ''''"
    using assms(4) feedback_writes [of a rng Succeeded d w'] by (simp only: call_effects.simps tr if_False)
  have "status_effects rng d '''' '''' = lb_effects (wt_DNSLB this) (new_status d True '''' '''') @
      concat (map (\<lambda>(_, ep). ep_effects ep
        (if ep_name ep \<in> ep_name ` set (endpoints (chosen net this)) then STATE_ACTIVE else STATE_INACTIVE) True)
        (rng (named (endpoints (healthy_targets net this))))) @
      concat (map (\<lambda>(_, ep). ep_effects ep STATE_INACTIVE False)
        (rng (named (endpoints (unhealthy_targets net this)))))"
    unfolding status_effects_def map_of_named [symmetric]
    using collected_fresh(3) [of net this h] dd_active_collected [OF assms(1), of net h]
      dd_healthy_collected [OF assms(1), of net h]
    by (simp add: d SetMessage_def)
  with wr show ?thesis
    by (intro exI [of _ ?active] conjI active_list_named) (simp only: st)
qed

theorem handle_then_succeeded_witness:
  "\<exists>hosts d this' w' (active :: DNSLoadBalancerActive list). Handle sample_api sample_net False (sample_watch True) init_world =
       Ok (hosts, Some d, this', w') \<and>
     map a_Endpoint active = sort (map ep_name (endpoints (chosen sample_net (sample_watch True))))"
proof -
  have dist: "distinct (map ep_name (endpoints (wt_Targets (sample_watch True))))"
    by (simp add: watch_sample_defs)
  have ne: "wt_Targets (sample_watch True) \<noteq> []" by (simp add: sample_watch_def)
  have "check (sample_watch True) [wt_Targets (sample_watch True) ! 1]"
    "target_healthy sample_net (sample_watch True) 1 (wt_Targets (sample_watch True) ! 1)"
    by (simp_all add: watch_sample_defs check_def GetHostName_def IsHealthy_def Let_def)
  then obtain hosts d this' w' where
    h: "Handle sample_api sample_net False (sample_watch True) init_world = Ok (hosts, Some d, this', w')"
    "\<not> dd_done d"
    using handle_sticky_fresh [of "sample_watch True" 1 sample_net sample_api False init_world]
    by (auto simp: sample_watch_def sample_net_def check_def)
  obtain active :: "DNSLoadBalancerActive list" where
    "map a_Endpoint active = sort (map ep_name (endpoints (chosen sample_net (sample_watch True))))"
    using handle_then_succeeded [OF dist ne h, of "\<lambda>m. m"] by (elim exE conjE)
  with h(1) show ?thesis by blast
qed

end
