(* ===== verification/Memory.thy ===== *)
theory Memory
  imports Api
begin

text \<open>
  A store of Go objects: what pointers, maps and slices point at. The components of the library work
  on values; this theory and \<open>DeepCopy\<close> justify that for the code which works on copies. A cell
  holds what one \<open>new\<close> or \<open>make\<close> allocates, a pointer is an optional address, nil being \<open>None\<close>.
  The store is typed: a pointer of a struct has to point at a cell of its type.
\<close>

section \<open>The store\<close>

type_synonym addr = nat

record TypeMeta =
  tm_kind :: string
  tm_apiVersion :: string

record ListMeta =
  lm_selfLink :: string
  lm_resourceVersion :: string
  lm_continue :: string

text \<open>The structs as they lie in the store: a field that is a pointer, a map or a slice is an address.\<close>

record pObjectMeta =
  po_namespace :: string
  po_name :: string
  po_generateName :: string
  po_uid :: string
  po_resourceVersion :: string
  po_CreationTimestamp :: time
  po_DeletionTimestamp :: "addr option"
  po_DeletionGracePeriodSeconds :: "addr option"
  po_Labels :: "addr option"
  po_Annotations :: "addr option"
  po_OwnerReferences :: "addr option"
  po_Finalizers :: "addr option"

record pSpec =
  ps_DNSName :: string
  ps_HealthPath :: string
  ps_StatusCode :: int
  ps_Type :: string
  ps_TTL :: "addr option"
  ps_Singleton :: "addr option"
  ps_EndpointValidityInterval :: "addr option"

record pStatus =
  pt_State :: "addr option"
  pt_Message :: "addr option"
  pt_Active :: "addr option"

record pLoadBalancer =
  pl_TypeMeta :: TypeMeta
  pl_ObjectMeta :: pObjectMeta
  pl_Spec :: pSpec
  pl_Status :: pStatus

record pEndpointStatus =
  pe_State :: "addr option"
  pe_Message :: "addr option"
  pe_Healthy :: bool
  pe_ValidUntil :: "addr option"

record pEndpoint =
  pp_TypeMeta :: TypeMeta
  pp_ObjectMeta :: pObjectMeta
  pp_Spec :: DNSLoadBalancerEndpointSpec
  pp_Status :: pEndpointStatus

record pList =
  pi_TypeMeta :: TypeMeta
  pi_ListMeta :: ListMeta
  pi_Items :: "addr option"

datatype cell =
    CString string
  | CInt int
  | CBool bool
  | CTime time
  | CDuration duration
  | CMap "string \<rightharpoonup> string"
  | CStrings "string list"
  | COwners "OwnerReference list"
  | CActives "DNSLoadBalancerActive list"
  | CActive DNSLoadBalancerActive
  | CSpec pSpec
  | CStatus pStatus
  | CLoadBalancer pLoadBalancer
  | CLoadBalancers "pLoadBalancer list"
  | CEndpointSpec DNSLoadBalancerEndpointSpec
  | CEndpointStatus pEndpointStatus
  | CEndpoint pEndpoint
  | CEndpoints "pEndpoint list"
  | CLoadBalancerList pList
  | CEndpointList pList

datatype kind =
    KString | KInt | KBool | KTime | KDuration | KMap | KStrings | KOwners | KActives | KActive
  | KSpec | KStatus | KLoadBalancer | KLoadBalancers | KEndpointSpec | KEndpointStatus | KEndpoint
  | KEndpoints | KLoadBalancerList | KEndpointList

fun kind_of :: "cell \<Rightarrow> kind" where
  "kind_of (CString _) = KString"
| "kind_of (CInt _) = KInt"
| "kind_of (CBool _) = KBool"
| "kind_of (CTime _) = KTime"
| "kind_of (CDuration _) = KDuration"
| "kind_of (CMap _) = KMap"
| "kind_of (CStrings _) = KStrings"
| "kind_of (COwners _) = KOwners"
| "kind_of (CActives _) = KActives"
| "kind_of (CActive _) = KActive"
| "kind_of (CSpec _) = KSpec"
| "kind_of (CStatus _) = KStatus"
| "kind_of (CLoadBalancer _) = KLoadBalancer"
| "kind_of (CLoadBalancers _) = KLoadBalancers"
| "kind_of (CEndpointSpec _) = KEndpointSpec"
| "kind_of (CEndpointStatus _) = KEndpointStatus"
| "kind_of (CEndpoint _) = KEndpoint"
| "kind_of (CEndpoints _) = KEndpoints"
| "kind_of (CLoadBalancerList _) = KLoadBalancerList"
| "kind_of (CEndpointList _) = KEndpointList"

record heap =
  h_cells :: "addr \<rightharpoonup> cell"
  h_next :: addr

type_synonym 'a mem = "heap \<Rightarrow> ('a \<times> heap) outcome"

definition mem_return :: "'a \<Rightarrow> 'a mem" where
  "mem_return x h = Ok (x, h)"

definition mem_panic :: "'a mem" where
  "mem_panic h = Panic"

definition mem_bind :: "'a mem \<Rightarrow> ('a \<Rightarrow> 'b mem) \<Rightarrow> 'b mem" where
  "mem_bind m k h = bind_outcome (m h) (\<lambda>(x, h'). k x h')"

text \<open>\<open>new\<close> and \<open>make\<close>, reading and writing through a pointer; a dangling one would panic.\<close>

definition mem_new :: "cell \<Rightarrow> addr mem" where
  "mem_new c h = Ok (h_next h, \<lparr>h_cells = (h_cells h)(h_next h \<mapsto> c), h_next = Suc (h_next h)\<rparr>)"

definition mem_read :: "addr \<Rightarrow> cell mem" where
  "mem_read a h = (case h_cells h a of None \<Rightarrow> Panic | Some c \<Rightarrow> Ok (c, h))"

definition mem_write :: "addr \<Rightarrow> cell \<Rightarrow> unit mem" where
  "mem_write a c h = (case h_cells h a of None \<Rightarrow> Panic | Some _ \<Rightarrow> Ok ((), h\<lparr>h_cells := (h_cells h)(a \<mapsto> c)\<rparr>))"

section \<open>Typed stores\<close>

definition rd :: "heap \<Rightarrow> addr option \<Rightarrow> cell option" where
  "rd h p = Option.bind p (h_cells h)"

definition points :: "heap \<Rightarrow> kind \<Rightarrow> addr option \<Rightarrow> bool" where
  "points h k p \<longleftrightarrow> p = None \<or> map_option kind_of (rd h p) = Some k"

text \<open>The pointers of the structs, in the order of their fields, and the types they are declared with.\<close>

definition meta_fields :: "pObjectMeta \<Rightarrow> addr option list" where
  "meta_fields m =
     [po_DeletionTimestamp m, po_DeletionGracePeriodSeconds m, po_Labels m, po_Annotations m,
      po_OwnerReferences m, po_Finalizers m]"

definition spec_fields :: "pSpec \<Rightarrow> addr option list" where
  "spec_fields s = [ps_TTL s, ps_Singleton s, ps_EndpointValidityInterval s]"

definition status_fields :: "pStatus \<Rightarrow> addr option list" where
  "status_fields s = [pt_State s, pt_Message s, pt_Active s]"

definition epstatus_fields :: "pEndpointStatus \<Rightarrow> addr option list" where
  "epstatus_fields s = [pe_State s, pe_Message s, pe_ValidUntil s]"

abbreviation "meta_kinds \<equiv> [KTime, KInt, KMap, KMap, KOwners, KStrings]"
abbreviation "spec_kinds \<equiv> [KInt, KBool, KDuration]"
abbreviation "status_kinds \<equiv> [KString, KString, KActives]"
abbreviation "epstatus_kinds \<equiv> [KString, KString, KTime]"

definition lb_fields :: "pLoadBalancer \<Rightarrow> addr option list" where
  "lb_fields l = meta_fields (pl_ObjectMeta l) @ spec_fields (pl_Spec l) @ status_fields (pl_Status l)"

definition ep_fields :: "pEndpoint \<Rightarrow> addr option list" where
  "ep_fields e = meta_fields (pp_ObjectMeta e) @ epstatus_fields (pp_Status e)"

abbreviation "lb_kinds \<equiv> meta_kinds @ spec_kinds @ status_kinds"
abbreviation "ep_kinds \<equiv> meta_kinds @ epstatus_kinds"

abbreviation typed :: "heap \<Rightarrow> kind list \<Rightarrow> addr option list \<Rightarrow> bool" where
  "typed h \<equiv> list_all2 (points h)"

fun cell_ok :: "heap \<Rightarrow> cell \<Rightarrow> bool" where
  "cell_ok h (CSpec s) = typed h spec_kinds (spec_fields s)"
| "cell_ok h (CStatus s) = typed h status_kinds (status_fields s)"
| "cell_ok h (CLoadBalancer l) = typed h lb_kinds (lb_fields l)"
| "cell_ok h (CLoadBalancers ls) = list_all (\<lambda>l. typed h lb_kinds (lb_fields l)) ls"
| "cell_ok h (CEndpointStatus s) = typed h epstatus_kinds (epstatus_fields s)"
| "cell_ok h (CEndpoint e) = typed h ep_kinds (ep_fields e)"
| "cell_ok h (CEndpoints es) = list_all (\<lambda>e. typed h ep_kinds (ep_fields e)) es"
| "cell_ok h (CLoadBalancerList l) = points h KLoadBalancers (pi_Items l)"
| "cell_ok h (CEndpointList l) = points h KEndpoints (pi_Items l)"
| "cell_ok h _ = True"

definition heap_ok :: "heap \<Rightarrow> bool" where
  "heap_ok h \<longleftrightarrow> dom (h_cells h) \<subseteq> {..<h_next h} \<and> (\<forall>a c. h_cells h a = Some c \<longrightarrow> cell_ok h c)"

text \<open>\<open>h'\<close> has all the cells of \<open>h\<close>, unchanged, and perhaps more.\<close>

definition heap_le :: "heap \<Rightarrow> heap \<Rightarrow> bool" where
  "heap_le h h' \<longleftrightarrow> h_next h \<le> h_next h' \<and> (\<forall>a<h_next h. h_cells h' a = h_cells h a)"

text \<open>\<open>h'\<close> has all the cells of \<open>h\<close>, with contents of the same type.\<close>

definition kinds_le :: "heap \<Rightarrow> heap \<Rightarrow> bool" where
  "kinds_le h h' \<longleftrightarrow> (\<forall>a c. h_cells h a = Some c \<longrightarrow> (\<exists>c'. h_cells h' a = Some c' \<and> kind_of c' = kind_of c))"

definition fresh_in :: "heap \<Rightarrow> heap \<Rightarrow> addr set \<Rightarrow> bool" where
  "fresh_in h h' A \<longleftrightarrow> A \<subseteq> {h_next h..<h_next h'}"

text \<open>Two stores that agree on some cells.\<close>

definition agree :: "addr set \<Rightarrow> heap \<Rightarrow> heap \<Rightarrow> bool" where
  "agree A g h \<longleftrightarrow> (\<forall>a\<in>A. h_cells g a = h_cells h a)"

lemma heap_le_refl [simp]: "heap_le h h"
  by (simp add: heap_le_def)

lemma heap_le_trans: "heap_le h h1 \<Longrightarrow> heap_le h1 h2 \<Longrightarrow> heap_le h h2"
  by (simp add: heap_le_def)

lemma heap_le_kinds: "heap_ok h \<Longrightarrow> heap_le h h' \<Longrightarrow> kinds_le h h'"
  by (auto simp: heap_ok_def heap_le_def kinds_le_def)

lemma fresh_in_empty [simp]: "fresh_in h h' {}"
  by (simp add: fresh_in_def)

lemma fresh_in_Un [simp]: "fresh_in h h' (A \<union> B) \<longleftrightarrow> fresh_in h h' A \<and> fresh_in h h' B"
  by (auto simp: fresh_in_def)

lemma fresh_in_later: "fresh_in h h1 A \<Longrightarrow> heap_le h1 h2 \<Longrightarrow> fresh_in h h2 A"
  by (auto simp: fresh_in_def heap_le_def)

lemma fresh_in_earlier: "fresh_in h1 h2 A \<Longrightarrow> heap_le h h1 \<Longrightarrow> fresh_in h h2 A"
  by (auto simp: fresh_in_def heap_le_def)

lemma rd_None [simp]: "rd h None = None"
  by (simp add: rd_def)

lemma rd_Some [simp]: "rd h (Some a) = h_cells h a"
  by (simp add: rd_def)

lemma points_None [simp]: "points h k None"
  by (simp add: points_def)

lemma points_Some: "points h k (Some a) \<longleftrightarrow> (\<exists>c. h_cells h a = Some c \<and> kind_of c = k)"
  by (auto simp: points_def)

lemma points_kinds: "points h k p \<Longrightarrow> kinds_le h h' \<Longrightarrow> points h' k p"
  by (cases p) (fastforce simp: points_Some kinds_le_def)+

lemma points_dom: "heap_ok h \<Longrightarrow> points h k p \<Longrightarrow> a \<in> set_option p \<Longrightarrow> a < h_next h"
  by (cases p) (auto simp: points_Some heap_ok_def)

lemma typed_kinds: "typed h ks ps \<Longrightarrow> kinds_le h h' \<Longrightarrow> typed h' ks ps"
  by (erule list_all2_mono) (simp add: points_kinds)

lemma cell_ok_kinds: "cell_ok h c \<Longrightarrow> kinds_le h h' \<Longrightarrow> cell_ok h' c"
  by (cases c) (auto intro: typed_kinds points_kinds elim: list.pred_mono_strong)

lemma heap_ok_new:
  assumes "heap_ok h" and "cell_ok h c"
  shows "heap_ok \<lparr>h_cells = (h_cells h)(h_next h \<mapsto> c), h_next = Suc (h_next h)\<rparr>" (is "heap_ok ?h1")
    and "heap_le h \<lparr>h_cells = (h_cells h)(h_next h \<mapsto> c), h_next = Suc (h_next h)\<rparr>"
proof -
  show le: "heap_le h ?h1" by (simp add: heap_le_def)
  have *: "kinds_le h ?h1" using heap_le_kinds [OF assms(1) le] .
  show "heap_ok ?h1"
    using assms * by (auto simp: heap_ok_def less_Suc_eq intro: cell_ok_kinds)
qed

lemma kinds_le_write:
  "h_cells h a = Some c0 \<Longrightarrow> kind_of c0 = kind_of c \<Longrightarrow> kinds_le h (h\<lparr>h_cells := (h_cells h)(a \<mapsto> c)\<rparr>)"
  by (auto simp: kinds_le_def)

lemma heap_ok_write:
  assumes "heap_ok h" and "cell_ok h c" and "h_cells h a = Some c0" and "kind_of c0 = kind_of c"
  shows "heap_ok (h\<lparr>h_cells := (h_cells h)(a \<mapsto> c)\<rparr>)"
  using assms(1,2,3) kinds_le_write [OF assms(3,4)] by (auto simp: heap_ok_def intro: cell_ok_kinds)

section \<open>Runs\<close>

text \<open>
  \<open>runs h0 m h Q\<close>: started in \<open>h\<close>, \<open>m\<close> does not panic, leaves a typed store that keeps all the
  cells \<open>h0\<close> has, and a result and a store with \<open>Q\<close>.
\<close>

definition runs :: "heap \<Rightarrow> 'a mem \<Rightarrow> heap \<Rightarrow> ('a \<Rightarrow> heap \<Rightarrow> bool) \<Rightarrow> bool" where
  "runs h0 m h Q \<longleftrightarrow> (\<exists>x h'. m h = Ok (x, h') \<and> heap_ok h' \<and> heap_le h0 h' \<and> Q x h')"

lemma runs_return: "heap_ok h \<Longrightarrow> heap_le h0 h \<Longrightarrow> Q x h \<Longrightarrow> runs h0 (mem_return x) h Q"
  by (simp add: runs_def mem_return_def)

lemma runs_bind: "runs h0 m h (\<lambda>x h1. runs h0 (k x) h1 Q) \<Longrightarrow> runs h0 (mem_bind m k) h Q"
  by (auto simp: runs_def mem_bind_def)

lemma runs_new:
  assumes "heap_ok h" and "heap_le h0 h" and "cell_ok h c"
    and "\<And>a h1. heap_ok h1 \<Longrightarrow> heap_le h h1 \<Longrightarrow> h_cells h1 a = Some c \<Longrightarrow>
      a = h_next h \<Longrightarrow> h_next h1 = Suc (h_next h) \<Longrightarrow> Q a h1"
  shows "runs h0 (mem_new c) h Q"
  using heap_ok_new [OF assms(1,3)] heap_le_trans [OF assms(2) heap_ok_new(2) [OF assms(1,3)]]
    assms(4) [OF heap_ok_new [OF assms(1,3)]]
  by (simp add: runs_def mem_new_def)

lemma runs_read: "heap_ok h \<Longrightarrow> heap_le h0 h \<Longrightarrow> h_cells h a = Some c \<Longrightarrow> Q c h \<Longrightarrow> runs h0 (mem_read a) h Q"
  by (simp add: runs_def mem_read_def)

lemma runs_write:
  assumes "heap_ok h" and "heap_le h0 h" and "cell_ok h c" and "h_cells h a = Some c0"
    and "kind_of c0 = kind_of c" and "h_next h0 \<le> a"
    and "\<And>h1. heap_ok h1 \<Longrightarrow> heap_le h0 h1 \<Longrightarrow> h1 = h\<lparr>h_cells := (h_cells h)(a \<mapsto> c)\<rparr> \<Longrightarrow> Q () h1"
  shows "runs h0 (mem_write a c) h Q"
  using heap_ok_write [OF assms(1,3,4,5)] assms(2,4,6) assms(7) [OF _ _ refl]
  by (simp add: runs_def mem_write_def heap_le_def)

text \<open>A run that keeps \<open>h\<close> keeps what \<open>h\<close> keeps.\<close>

lemma runs_call:
  assumes "runs h m h Q" and "heap_le h0 h"
    and "\<And>x h'. heap_ok h' \<Longrightarrow> heap_le h h' \<Longrightarrow> Q x h' \<Longrightarrow> R x h'"
  shows "runs h0 m h R"
  using assms by (auto simp: runs_def intro: heap_le_trans)

lemma runs_mono:
  assumes "runs h0 m h Q" and "\<And>x h'. heap_ok h' \<Longrightarrow> heap_le h0 h' \<Longrightarrow> Q x h' \<Longrightarrow> R x h'"
  shows "runs h0 m h R"
  using assms by (auto simp: runs_def)

lemma runsE:
  assumes "runs h0 m h Q"
  obtains x h' where "m h = Ok (x, h')" and "heap_ok h'" and "heap_le h0 h'" and "Q x h'"
  using assms by (auto simp: runs_def)

end
