(* ===== verification/DeepCopy.thy ===== *)
theory DeepCopy
  imports Memory
begin

text \<open>
  The generated deep copies of \<open>pkg/apis/loadbalancer/v1beta1/zz_generated.deepcopy.go\<close>. A
  \<open>DeepCopyInto\<close> takes the struct \<open>in\<close> points at and gives the one it writes through \<open>out\<close>, which
  starts as a copy of all the fields; a \<open>DeepCopy\<close> works on pointers.
\<close>

section \<open>Fields\<close>

definition zero_Active :: DNSLoadBalancerActive where
  "zero_Active = \<lparr>a_Endpoint = '''', a_IPAddress = '''', a_CName = ''''\<rparr>"

definition zero_Owner :: OwnerReference where
  "zero_Owner = \<lparr>or_apiVersion = '''', or_kind = '''', or_name = '''', or_uid = ''''\<rparr>"

text \<open>The zero value of a cell, a slice with as many elements.\<close>

fun zero_like :: "cell \<Rightarrow> cell" where
  "zero_like (CString _) = CString ''''"
| "zero_like (CInt _) = CInt 0"
| "zero_like (CBool _) = CBool False"
| "zero_like (CTime _) = CTime 0"
| "zero_like (CDuration _) = CDuration 0"
| "zero_like (CMap _) = CMap (\<lambda>_. None)"
| "zero_like (CStrings xs) = CStrings (replicate (length xs) '''')"
| "zero_like (COwners xs) = COwners (replicate (length xs) zero_Owner)"
| "zero_like (CActives xs) = CActives (replicate (length xs) zero_Active)"
| "zero_like c = c"

text \<open>
  The block for a field that is a pointer, a slice or a map: \<open>new\<close> or \<open>make\<close> a cell with the zero
  value of the type, and copy what the field of \<open>in\<close> points at. A nil field stays nil.
\<close>

definition copy_field :: "addr option \<Rightarrow> addr option mem" where
  "copy_field p =
     (case p of
        None \<Rightarrow> mem_return None
      | Some a \<Rightarrow>
          mem_bind (mem_read a) (\<lambda>c.
          mem_bind (mem_new (zero_like c)) (\<lambda>b.
          mem_bind (mem_write b c) (\<lambda>_. mem_return (Some b)))))"

abbreviation leaves :: "kind set" where
  "leaves \<equiv> {KString, KInt, KBool, KTime, KDuration, KMap, KStrings, KOwners, KActives}"

section \<open>Structs\<close>

definition ObjectMeta_DeepCopyInto :: "pObjectMeta \<Rightarrow> pObjectMeta mem" where
  "ObjectMeta_DeepCopyInto m =
     mem_bind (copy_field (po_DeletionTimestamp m)) (\<lambda>deletion.
     mem_bind (copy_field (po_DeletionGracePeriodSeconds m)) (\<lambda>grace.
     mem_bind (copy_field (po_Labels m)) (\<lambda>labels.
     mem_bind (copy_field (po_Annotations m)) (\<lambda>annotations.
     mem_bind (copy_field (po_OwnerReferences m)) (\<lambda>owners.
     mem_bind (copy_field (po_Finalizers m)) (\<lambda>finalizers.
     mem_return (m\<lparr>po_DeletionTimestamp := deletion, po_DeletionGracePeriodSeconds := grace,
       po_Labels := labels, po_Annotations := annotations, po_OwnerReferences := owners,
       po_Finalizers := finalizers\<rparr>)))))))"

definition Active_DeepCopyInto :: "DNSLoadBalancerActive \<Rightarrow> DNSLoadBalancerActive mem" where
  "Active_DeepCopyInto x = mem_return x"

definition EndpointSpec_DeepCopyInto :: "DNSLoadBalancerEndpointSpec \<Rightarrow> DNSLoadBalancerEndpointSpec mem" where
  "EndpointSpec_DeepCopyInto x = mem_return x"

definition Spec_DeepCopyInto :: "pSpec \<Rightarrow> pSpec mem" where
  "Spec_DeepCopyInto s =
     mem_bind (copy_field (ps_TTL s)) (\<lambda>ttl.
     mem_bind (copy_field (ps_Singleton s)) (\<lambda>singleton.
     mem_bind (copy_field (ps_EndpointValidityInterval s)) (\<lambda>interval.
     mem_return (s\<lparr>ps_TTL := ttl, ps_Singleton := singleton, ps_EndpointValidityInterval := interval\<rparr>))))"

definition Status_DeepCopyInto :: "pStatus \<Rightarrow> pStatus mem" where
  "Status_DeepCopyInto s =
     mem_bind (copy_field (pt_State s)) (\<lambda>state.
     mem_bind (copy_field (pt_Message s)) (\<lambda>message.
     mem_bind (copy_field (pt_Active s)) (\<lambda>active.
     mem_return (s\<lparr>pt_State := state, pt_Message := message, pt_Active := active\<rparr>))))"

definition EndpointStatus_DeepCopyInto :: "pEndpointStatus \<Rightarrow> pEndpointStatus mem" where
  "EndpointStatus_DeepCopyInto s =
     mem_bind (copy_field (pe_State s)) (\<lambda>state.
     mem_bind (copy_field (pe_Message s)) (\<lambda>message.
     mem_bind (copy_field (pe_ValidUntil s)) (\<lambda>valid.
     mem_return (s\<lparr>pe_State := state, pe_Message := message, pe_ValidUntil := valid\<rparr>))))"

definition LoadBalancer_DeepCopyInto :: "pLoadBalancer \<Rightarrow> pLoadBalancer mem" where
  "LoadBalancer_DeepCopyInto l =
     mem_bind (ObjectMeta_DeepCopyInto (pl_ObjectMeta l)) (\<lambda>m.
     mem_bind (Spec_DeepCopyInto (pl_Spec l)) (\<lambda>spec.
     mem_bind (Status_DeepCopyInto (pl_Status l)) (\<lambda>status.
     mem_return (l\<lparr>pl_ObjectMeta := m, pl_Spec := spec, pl_Status := status\<rparr>))))"

definition Endpoint_DeepCopyInto :: "pEndpoint \<Rightarrow> pEndpoint mem" where
  "Endpoint_DeepCopyInto e =
     mem_bind (ObjectMeta_DeepCopyInto (pp_ObjectMeta e)) (\<lambda>m.
     mem_bind (EndpointStatus_DeepCopyInto (pp_Status e)) (\<lambda>status.
     mem_return (e\<lparr>pp_ObjectMeta := m, pp_Status := status\<rparr>)))"

section \<open>Pointers\<close>

text \<open>\<open>DeepCopy\<close> of a struct whose cells are \<open>put\<close>, with its zero value and its \<open>DeepCopyInto\<close>.\<close>

definition deep_copy :: "(cell \<Rightarrow> 'p option) \<Rightarrow> ('p \<Rightarrow> cell) \<Rightarrow> 'p \<Rightarrow> ('p \<Rightarrow> 'p mem) \<Rightarrow> addr option \<Rightarrow> addr option mem" where
  "deep_copy get put zero into inp =
     (case inp of
        None \<Rightarrow> mem_return None
      | Some a \<Rightarrow>
          mem_bind (mem_new (put zero)) (\<lambda>out.
          mem_bind (mem_read a) (\<lambda>c.
            case get c of
              None \<Rightarrow> mem_panic
            | Some x \<Rightarrow>
                mem_bind (into x) (\<lambda>y.
                mem_bind (mem_write out (put y)) (\<lambda>_. mem_return (Some out))))))"

text \<open>The loop over a slice of structs: \<open>(*in)[i].DeepCopyInto(&(*out)[i])\<close>.\<close>

primrec copy_items ::
  "(cell \<Rightarrow> 'p list option) \<Rightarrow> ('p list \<Rightarrow> cell) \<Rightarrow> ('p \<Rightarrow> 'p mem) \<Rightarrow> addr \<Rightarrow> addr \<Rightarrow> nat list \<Rightarrow> unit mem" where
  "copy_items get put into src dst [] = mem_return ()"
| "copy_items get put into src dst (i # is) =
     mem_bind (mem_read src) (\<lambda>c.
     case get c of
       None \<Rightarrow> mem_panic
     | Some xs \<Rightarrow>
         mem_bind (into (xs ! i)) (\<lambda>y.
         mem_bind (mem_read dst) (\<lambda>d.
         case get d of
           None \<Rightarrow> mem_panic
         | Some ys \<Rightarrow>
             mem_bind (mem_write dst (put (ys[i := y]))) (\<lambda>_. copy_items get put into src dst is))))"

definition copy_slice ::
  "(cell \<Rightarrow> 'p list option) \<Rightarrow> ('p list \<Rightarrow> cell) \<Rightarrow> 'p \<Rightarrow> ('p \<Rightarrow> 'p mem) \<Rightarrow> addr option \<Rightarrow> addr option mem" where
  "copy_slice get put zero into items =
     (case items of
        None \<Rightarrow> mem_return None
      | Some src \<Rightarrow>
          mem_bind (mem_read src) (\<lambda>c.
          case get c of
            None \<Rightarrow> mem_panic
          | Some xs \<Rightarrow>
              mem_bind (mem_new (put (replicate (length xs) zero))) (\<lambda>dst.
              mem_bind (copy_items get put into src dst [0..<length xs]) (\<lambda>_. mem_return (Some dst)))))"


section \<open>Copies\<close>

text \<open>The pointers \<open>qs\<close> point at copies, made since \<open>h0\<close>, of the cells the pointers \<open>ps\<close> pointed at.\<close>

definition ptr_set :: "addr option list \<Rightarrow> addr set" where
  "ptr_set ps = \<Union> (set_option ` set ps)"

definition copied :: "heap \<Rightarrow> kind list \<Rightarrow> addr option list \<Rightarrow> heap \<Rightarrow> addr option list \<Rightarrow> bool" where
  "copied h0 ks ps h qs \<longleftrightarrow>
     typed h ks qs \<and> map (rd h) qs = map (rd h0) ps \<and> fresh_in h0 h (ptr_set qs)"

lemma ptr_set_simps [simp]:
  "ptr_set [] = {}" "ptr_set (p # ps) = set_option p \<union> ptr_set ps"
  "ptr_set (ps @ qs) = ptr_set ps \<union> ptr_set qs"
  by (simp_all add: ptr_set_def)

lemma copied_Nil: "copied h0 [] [] h []"
  by (simp add: copied_def)

lemma copied_append:
  "copied h0 ks ps h qs \<Longrightarrow> copied h0 ks' ps' h qs' \<Longrightarrow> copied h0 (ks @ ks') (ps @ ps') h (qs @ qs')"
  by (auto simp: copied_def intro: list_all2_appendI)

lemma typed_later: "typed h0 ks ps \<Longrightarrow> heap_ok h0 \<Longrightarrow> heap_le h0 h \<Longrightarrow> typed h ks ps"
  by (blast intro: typed_kinds heap_le_kinds)

lemma typed_dom: "heap_ok h \<Longrightarrow> typed h ks ps \<Longrightarrow> ptr_set ps \<subseteq> {..<h_next h}"
  by (induction ks ps rule: list_induct2') (auto dest: points_dom)

lemma rd_agree: "(\<And>a. a \<in> ptr_set ps \<Longrightarrow> h_cells h' a = h_cells h a) \<Longrightarrow> map (rd h') ps = map (rd h) ps"
  by (auto simp: ptr_set_def rd_def split: bind_splits)

lemma rd_later:
  assumes "typed h ks ps" and "heap_ok h" and "heap_le h h'"
  shows "map (rd h') ps = map (rd h) ps"
  using typed_dom [OF assms(2,1)] assms(3) by (intro rd_agree) (auto simp: heap_le_def)

lemma copied_later: "copied h0 ks ps h qs \<Longrightarrow> heap_ok h \<Longrightarrow> heap_le h h' \<Longrightarrow> copied h0 ks ps h' qs"
  unfolding copied_def by (metis typed_later rd_later fresh_in_later)

lemma copied_earlier:
  "copied h ks ps h' qs \<Longrightarrow> heap_le h0 h \<Longrightarrow> heap_ok h0 \<Longrightarrow> typed h0 ks ps \<Longrightarrow> copied h0 ks ps h' qs"
  unfolding copied_def by (metis rd_later fresh_in_earlier)

text \<open>A part of a struct is copied, after other parts have been.\<close>

lemma runs_part:
  assumes part: "\<And>h. heap_ok h \<Longrightarrow> typed h ks' ps' \<Longrightarrow> runs h m h (\<lambda>y h'. copied h ks' ps' h' (f y) \<and> P y)"
    and h0: "heap_ok h0" "typed h0 ks' ps'"
    and h: "copied h0 ks ps h qs" "heap_ok h" "heap_le h0 h"
    and rest: "\<And>y h'. copied h0 (ks @ ks') (ps @ ps') h' (qs @ f y) \<Longrightarrow> heap_ok h' \<Longrightarrow> heap_le h0 h' \<Longrightarrow>
      P y \<Longrightarrow> runs h0 (K y) h' Q"
  shows "runs h0 (mem_bind m K) h Q"
proof (rule runs_bind, rule runs_call [OF part h(3)])
  show "heap_ok h" "typed h ks' ps'" using h h0 typed_later by blast+
next
  fix y h' assume *: "heap_ok h'" "heap_le h h'" "copied h ks' ps' h' (f y) \<and> P y"
  then have "copied h0 (ks @ ks') (ps @ ps') h' (qs @ f y)"
    using h h0 by (blast intro: copied_append copied_later copied_earlier)
  with * h(3) show "runs h0 (K y) h' Q" by (blast intro: rest heap_le_trans)
qed

lemma copy_field_copies:
  assumes "heap_ok h" and "points h k p" and "k \<in> leaves"
  shows "runs h (copy_field p) h (\<lambda>q h'. copied h [k] [p] h' [q] \<and> True)"
proof (cases p)
  case None
  then show ?thesis using assms(1) by (simp add: copy_field_def copied_def runs_return)
next
  case (Some a)
  with assms(2) obtain c where c: "h_cells h a = Some c" "kind_of c = k" by (auto simp: points_Some)
  then have z: "cell_ok h (zero_like c)" "kind_of (zero_like c) = k" "\<And>h. cell_ok h c"
    using assms(3) by (cases c; simp)+
  show ?thesis
    unfolding copy_field_def Some option.case
    by (rule runs_bind runs_read runs_new runs_write runs_return | rule c z assms heap_le_refl
        | simp add: c z assms copied_def points_Some fresh_in_def heap_le_def)+
qed

lemma runs_field:
  assumes "heap_ok h0" and "points h0 k p" and "k \<in> leaves"
    and "copied h0 ks ps h qs" and "heap_ok h" and "heap_le h0 h"
    and "\<And>q h'. copied h0 (ks @ [k]) (ps @ [p]) h' (qs @ [q]) \<Longrightarrow> heap_ok h' \<Longrightarrow> heap_le h0 h' \<Longrightarrow>
      runs h0 (K q) h' Q"
  shows "runs h0 (mem_bind (copy_field p) K) h Q"
  by (rule runs_part [where f = "\<lambda>q. [q]" and P = "\<lambda>_. True" and ks' = "[k]" and ps' = "[p]"])
    (use assms in \<open>auto intro: copy_field_copies [simplified]\<close>)

section \<open>The structs are copied\<close>

definition erase_meta :: "pObjectMeta \<Rightarrow> pObjectMeta" where
  "erase_meta m = m\<lparr>po_DeletionTimestamp := None, po_DeletionGracePeriodSeconds := None,
     po_Labels := None, po_Annotations := None, po_OwnerReferences := None, po_Finalizers := None\<rparr>"

definition erase_spec :: "pSpec \<Rightarrow> pSpec" where
  "erase_spec s = s\<lparr>ps_TTL := None, ps_Singleton := None, ps_EndpointValidityInterval := None\<rparr>"

definition erase_status :: "pStatus \<Rightarrow> pStatus" where
  "erase_status s = s\<lparr>pt_State := None, pt_Message := None, pt_Active := None\<rparr>"

definition erase_epstatus :: "pEndpointStatus \<Rightarrow> pEndpointStatus" where
  "erase_epstatus s = s\<lparr>pe_State := None, pe_Message := None, pe_ValidUntil := None\<rparr>"

definition erase_lb :: "pLoadBalancer \<Rightarrow> pLoadBalancer" where
  "erase_lb l = l\<lparr>pl_ObjectMeta := erase_meta (pl_ObjectMeta l), pl_Spec := erase_spec (pl_Spec l),
     pl_Status := erase_status (pl_Status l)\<rparr>"

definition erase_ep :: "pEndpoint \<Rightarrow> pEndpoint" where
  "erase_ep e = e\<lparr>pp_ObjectMeta := erase_meta (pp_ObjectMeta e), pp_Status := erase_epstatus (pp_Status e)\<rparr>"

lemmas erase_defs = erase_meta_def erase_spec_def erase_status_def erase_epstatus_def

lemma ObjectMeta_copied:
  assumes h: "heap_ok h" and "typed h meta_kinds (meta_fields m)"
  shows "runs h (ObjectMeta_DeepCopyInto m) h
     (\<lambda>y h'. copied h meta_kinds (meta_fields m) h' (meta_fields y) \<and> erase_meta y = erase_meta m)"
proof -
  have p: "points h KTime (po_DeletionTimestamp m)" "points h KInt (po_DeletionGracePeriodSeconds m)"
    "points h KMap (po_Labels m)" "points h KMap (po_Annotations m)"
    "points h KOwners (po_OwnerReferences m)" "points h KStrings (po_Finalizers m)"
    using assms(2) by (simp_all add: meta_fields_def)
  show ?thesis
    unfolding ObjectMeta_DeepCopyInto_def
    by (rule runs_field [OF h _ _ copied_Nil h heap_le_refl], rule p, simp,
        (rule runs_field [OF h], rule p, simp, assumption+)+,
        rule runs_return, assumption+, simp add: meta_fields_def erase_defs)
qed

lemma Spec_copied:
  assumes h: "heap_ok h" and "typed h spec_kinds (spec_fields s)"
  shows "runs h (Spec_DeepCopyInto s) h
     (\<lambda>y h'. copied h spec_kinds (spec_fields s) h' (spec_fields y) \<and> erase_spec y = erase_spec s)"
proof -
  have p: "points h KInt (ps_TTL s)" "points h KBool (ps_Singleton s)"
    "points h KDuration (ps_EndpointValidityInterval s)"
    using assms(2) by (simp_all add: spec_fields_def)
  show ?thesis
    unfolding Spec_DeepCopyInto_def
    by (rule runs_field [OF h _ _ copied_Nil h heap_le_refl], rule p, simp,
        (rule runs_field [OF h], rule p, simp, assumption+)+,
        rule runs_return, assumption+, simp add: spec_fields_def erase_defs)
qed

lemma Status_copied:
  assumes h: "heap_ok h" and "typed h status_kinds (status_fields s)"
  shows "runs h (Status_DeepCopyInto s) h
     (\<lambda>y h'. copied h status_kinds (status_fields s) h' (status_fields y) \<and> erase_status y = erase_status s)"
proof -
  have p: "points h KString (pt_State s)" "points h KString (pt_Message s)" "points h KActives (pt_Active s)"
    using assms(2) by (simp_all add: status_fields_def)
  show ?thesis
    unfolding Status_DeepCopyInto_def
    by (rule runs_field [OF h _ _ copied_Nil h heap_le_refl], rule p, simp,
        (rule runs_field [OF h], rule p, simp, assumption+)+,
        rule runs_return, assumption+, simp add: status_fields_def erase_defs)
qed

lemma EndpointStatus_copied:
  assumes h: "heap_ok h" and "typed h epstatus_kinds (epstatus_fields s)"
  shows "runs h (EndpointStatus_DeepCopyInto s) h
     (\<lambda>y h'. copied h epstatus_kinds (epstatus_fields s) h' (epstatus_fields y) \<and> erase_epstatus y = erase_epstatus s)"
proof -
  have p: "points h KString (pe_State s)" "points h KString (pe_Message s)" "points h KTime (pe_ValidUntil s)"
    using assms(2) by (simp_all add: epstatus_fields_def)
  show ?thesis
    unfolding EndpointStatus_DeepCopyInto_def
    by (rule runs_field [OF h _ _ copied_Nil h heap_le_refl], rule p, simp,
        (rule runs_field [OF h], rule p, simp, assumption+)+,
        rule runs_return, assumption+, simp add: epstatus_fields_def erase_defs)
qed

lemma LoadBalancer_copied:
  assumes h: "heap_ok h" and "typed h lb_kinds (lb_fields l)"
  shows "runs h (LoadBalancer_DeepCopyInto l) h
     (\<lambda>y h'. copied h lb_kinds (lb_fields l) h' (lb_fields y) \<and> erase_lb y = erase_lb l)"
proof -
  have p: "typed h meta_kinds (meta_fields (pl_ObjectMeta l))" "typed h spec_kinds (spec_fields (pl_Spec l))"
    "typed h status_kinds (status_fields (pl_Status l))"
    using assms(2) by (simp_all add: lb_fields_def meta_fields_def spec_fields_def status_fields_def)
  show ?thesis
    unfolding LoadBalancer_DeepCopyInto_def
    by (rule runs_part [OF ObjectMeta_copied h p(1) copied_Nil h heap_le_refl], assumption+,
        rule runs_part [OF Spec_copied h p(2)], assumption+,
        rule runs_part [OF Status_copied h p(3)], assumption+,
        rule runs_return, assumption+, simp add: lb_fields_def erase_lb_def)
qed

lemma Endpoint_copied:
  assumes h: "heap_ok h" and "typed h ep_kinds (ep_fields e)"
  shows "runs h (Endpoint_DeepCopyInto e) h
     (\<lambda>y h'. copied h ep_kinds (ep_fields e) h' (ep_fields y) \<and> erase_ep y = erase_ep e)"
proof -
  have p: "typed h meta_kinds (meta_fields (pp_ObjectMeta e))"
    "typed h epstatus_kinds (epstatus_fields (pp_Status e))"
    using assms(2) by (simp_all add: ep_fields_def meta_fields_def epstatus_fields_def)
  show ?thesis
    unfolding Endpoint_DeepCopyInto_def
    by (rule runs_part [OF ObjectMeta_copied h p(1) copied_Nil h heap_le_refl], assumption+,
        rule runs_part [OF EndpointStatus_copied h p(2)], assumption+,
        rule runs_return, assumption+, simp add: ep_fields_def erase_ep_def)
qed

section \<open>The contract of a deep copy\<close>

text \<open>
  \<open>ok\<close>: the pointers of a struct have the declared types; \<open>ptrs\<close>: the cells it reaches; \<open>view\<close>: its
  value, pointers followed. The value depends on the cells reached only, and the copy has the value
  of the original in cells allocated since.
\<close>

locale copier =
  fixes ok :: "heap \<Rightarrow> 'p \<Rightarrow> bool"
    and ptrs :: "heap \<Rightarrow> 'p \<Rightarrow> addr set"
    and view :: "heap \<Rightarrow> 'p \<Rightarrow> 'v"
    and into :: "'p \<Rightarrow> 'p mem"
  assumes ok_kinds: "ok h x \<Longrightarrow> kinds_le h h' \<Longrightarrow> ok h' x"
    and ptrs_dom: "heap_ok h \<Longrightarrow> ok h x \<Longrightarrow> ptrs h x \<subseteq> {..<h_next h}"
    and local_view: "(\<And>a. a \<in> ptrs h x \<Longrightarrow> h_cells h' a = h_cells h a) \<Longrightarrow> view h' x = view h x"
    and local_ptrs: "(\<And>a. a \<in> ptrs h x \<Longrightarrow> h_cells h' a = h_cells h a) \<Longrightarrow> ptrs h' x = ptrs h x"
    and copies: "heap_ok h \<Longrightarrow> ok h x \<Longrightarrow>
      runs h (into x) h (\<lambda>y h'. ok h' y \<and> view h' y = view h x \<and> fresh_in h h' (ptrs h' y))"
begin

lemma ok_later: "ok h x \<Longrightarrow> heap_ok h \<Longrightarrow> heap_le h h' \<Longrightarrow> ok h' x"
  by (blast intro: ok_kinds heap_le_kinds)

lemma same_later:
  assumes "ok h x" and "heap_ok h" and "heap_le h h'"
  shows "view h' x = view h x" and "ptrs h' x = ptrs h x"
proof -
  have *: "h_cells h' a = h_cells h a" if "a \<in> ptrs h x" for a
    using that ptrs_dom [OF assms(2,1)] assms(3) by (auto simp: heap_le_def)
  show "view h' x = view h x" using * by (rule local_view)
  show "ptrs h' x = ptrs h x" using * by (rule local_ptrs)
qed

end

text \<open>A struct that has cells of its own, \<open>put\<close>, can be copied behind a pointer.\<close>

locale pointer_copier = copier +
  fixes get :: "cell \<Rightarrow> 'a option" and put :: "'a \<Rightarrow> cell" and zero :: 'a
  assumes get_put [simp]: "get (put x) = Some x"
    and kind_put: "kind_of (put x) = kind_of (put zero)"
    and cell_put: "cell_ok h (put x) = ok h x"
    and ok_zero: "ok h zero"
begin

lemma nil_copy: "deep_copy get put zero into None h = Ok (None, h)"
  by (simp add: deep_copy_def mem_return_def)

lemma pointer_copies:
  assumes "heap_ok h" and "h_cells h a = Some (put x)"
  shows "runs h (deep_copy get put zero into (Some a)) h
     (\<lambda>q h'. \<exists>b y. q = Some b \<and> h_cells h' b = Some (put y) \<and> fresh_in h h' {b} \<and> b \<notin> ptrs h' y \<and>
        fresh_in h h' (ptrs h' y) \<and> view h' y = view h x)"
proof -
  have okx: "ok h x" using assms by (metis cell_put heap_ok_def)
  have zero: "cell_ok h (put zero)" by (simp add: cell_put ok_zero)
  show ?thesis
    unfolding deep_copy_def option.case
  proof (rule runs_bind, rule runs_new [OF assms(1) heap_le_refl zero], rule runs_bind, goal_cases)
    case h1: (1 b h1)
    have x1: "h_cells h1 a = Some (put x)"
      using assms h1(2) by (auto simp: heap_ok_def heap_le_def dom_def)
    have ok1: "ok h1 x" using okx assms(1) h1(2) by (rule ok_later)
    let ?Q = "\<lambda>q h'. \<exists>b y. q = Some b \<and> h_cells h' b = Some (put y) \<and> fresh_in h h' {b} \<and> b \<notin> ptrs h' y \<and>
        fresh_in h h' (ptrs h' y) \<and> view h' y = view h x"
    have "runs h (mem_bind (into x) (\<lambda>y. mem_bind (mem_write b (put y)) (\<lambda>_. mem_return (Some b)))) h1 ?Q"
    proof (rule runs_bind, rule runs_call [OF copies [OF h1(1) ok1] h1(2)])
      fix y h2
      assume h2: "heap_ok h2" "heap_le h1 h2" "ok h2 y \<and> view h2 y = view h1 x \<and> fresh_in h1 h2 (ptrs h2 y)"
      have le: "heap_le h h2" using h1(2) h2(2) by (rule heap_le_trans)
      have b2: "h_cells h2 b = Some (put zero)" using h1 h2(2) by (simp add: heap_le_def)
      show "runs h (mem_bind (mem_write b (put y)) (\<lambda>_. mem_return (Some b))) h2 ?Q"
      proof (rule runs_bind, rule runs_write [OF h2(1) le _ b2], goal_cases)
        case 1 then show ?case using h2(3) by (simp add: cell_put)
      next
        case 2 then show ?case using kind_put [of y] by simp
      next
        case 3 then show ?case using h1(4) by simp
      next
        case (4 h3)
        have nb: "b \<notin> ptrs h2 y" using h2(3) h1(4,5) by (auto simp: fresh_in_def)
        then have "view h3 y = view h2 y" "ptrs h3 y = ptrs h2 y"
          using 4(3) by (auto intro!: local_view local_ptrs)
        moreover have "view h1 x = view h x" using okx assms(1) h1(2) by (rule same_later)
        moreover have "fresh_in h h3 (ptrs h2 y)"
          using h2(3) h1(2) 4(3) by (auto simp: fresh_in_def heap_le_def)
        moreover have "fresh_in h h3 {b}"
          using h1(4,5) h2(2) 4(3) by (simp add: fresh_in_def heap_le_def)
        moreover have "h_cells h3 b = Some (put y)" using 4(3) by simp
        ultimately have "?Q (Some b) h3" using nb h2(3) by auto
        with 4(1,2) show ?case by (rule runs_return)
      qed
    qed
    then show ?case by (intro runs_read [OF h1(1,2) x1]) simp
  qed
qed

text \<open>A deep copy never fails on a typed store, and keeps it typed.\<close>

lemma deep_copy_typed:
  assumes h: "heap_ok h" and p: "points h (kind_of (put zero)) p"
    and cells: "\<And>c. kind_of c = kind_of (put zero) \<Longrightarrow> \<exists>x. c = put x"
  shows "\<exists>q h'. deep_copy get put zero into p h = Ok (q, h') \<and> heap_ok h' \<and> heap_le h h' \<and>
    points h' (kind_of (put zero)) q \<and> (q = None \<longleftrightarrow> p = None)"
proof (cases p)
  case None
  then show ?thesis using h by (simp add: nil_copy)
next
  case (Some a)
  with p cells obtain x where "h_cells h a = Some (put x)" by (auto simp: points_Some)
  from runsE [OF pointer_copies [OF h this]] Some show ?thesis
    by (metis kind_put option.distinct(1) points_Some)
qed

text \<open>
  The original and the copy are apart: whatever is written to cells of the one, or to cells
  allocated later, the other one keeps its value.
\<close>

lemma deep_copy_isolated:
  assumes h: "heap_ok h" and a: "h_cells h a = Some (put x)"
  shows "\<exists>b y h'. deep_copy get put zero into (Some a) h = Ok (Some b, h') \<and> h_cells h' b = Some (put y) \<and>
    view h' y = view h x \<and>
    (\<forall>g. agree {..<h_next h} g h' \<longrightarrow> h_cells g a = Some (put x) \<and> view g x = view h x) \<and>
    (\<forall>g. agree {h_next h..<h_next h'} g h' \<longrightarrow> h_cells g b = Some (put y) \<and> view g y = view h x)"
proof -
  from pointer_copies [OF assms] obtain b y h' where c:
    "deep_copy get put zero into (Some a) h = Ok (Some b, h')" "heap_le h h'"
    "h_cells h' b = Some (put y)" "fresh_in h h' {b}" "fresh_in h h' (ptrs h' y)" "view h' y = view h x"
    by (rule runsE) blast
  have "a < h_next h" using h a by (auto simp: heap_ok_def)
  moreover have "ptrs h x \<subseteq> {..<h_next h}" using h a by (metis cell_put heap_ok_def ptrs_dom)
  ultimately have "\<forall>g. agree {..<h_next h} g h' \<longrightarrow> h_cells g a = Some (put x) \<and> view g x = view h x"
    using a c(2) by (intro allI impI conjI local_view) (auto simp: agree_def heap_le_def)
  moreover have "\<forall>g. agree {h_next h..<h_next h'} g h' \<longrightarrow> h_cells g b = Some (put y) \<and> view g y = view h' y"
    using c(3,4,5) by (intro allI impI conjI local_view) (auto simp: agree_def fresh_in_def)
  ultimately show ?thesis using c by auto
qed

end

section \<open>Slices of structs\<close>

text \<open>The value behind a slice whose elements are structs, and the cells it reaches.\<close>

definition slice_view :: "(cell \<Rightarrow> 'p list option) \<Rightarrow> (heap \<Rightarrow> 'p \<Rightarrow> 'v) \<Rightarrow> heap \<Rightarrow> addr option \<Rightarrow> 'v list option" where
  "slice_view get view h p = map_option (map (view h)) (Option.bind (rd h p) get)"

definition slice_ptrs :: "(cell \<Rightarrow> 'p list option) \<Rightarrow> (heap \<Rightarrow> 'p \<Rightarrow> addr set) \<Rightarrow> heap \<Rightarrow> addr option \<Rightarrow> addr set" where
  "slice_ptrs get ptrs h p =
     set_option p \<union> (case Option.bind (rd h p) get of None \<Rightarrow> {} | Some xs \<Rightarrow> \<Union> (ptrs h ` set xs))"

locale array_copier = copier +
  fixes get :: "cell \<Rightarrow> 'a list option" and put :: "'a list \<Rightarrow> cell" and zero :: 'a and k :: kind
  assumes get_put [simp]: "get (put xs) = Some xs"
    and kind_put [simp]: "kind_of (put xs) = k"
    and put_kind: "kind_of c = k \<Longrightarrow> \<exists>xs. c = put xs"
    and cell_put: "cell_ok h (put xs) = list_all (ok h) xs"
    and ok_zero: "ok h zero"
begin

lemma list_ok_update: "list_all P ys \<Longrightarrow> P y \<Longrightarrow> list_all P (ys[i := y])"
  by (auto simp: list_all_iff dest: set_update_subset_insert [THEN subsetD])

lemma list_ok_later: "list_all (ok h) ys \<Longrightarrow> heap_ok h \<Longrightarrow> heap_le h h' \<Longrightarrow> list_all (ok h') ys"
  by (auto simp: list_all_iff intro: ok_later)

text \<open>The loop has copied the first \<open>i\<close> elements of \<open>xs\<close> to the array at \<open>dst\<close>, made before \<open>h1\<close>.\<close>

definition loop_inv :: "heap \<Rightarrow> 'a list \<Rightarrow> heap \<Rightarrow> addr \<Rightarrow> nat \<Rightarrow> 'a list \<Rightarrow> heap \<Rightarrow> bool" where
  "loop_inv h0 xs h1 dst i ys h \<longleftrightarrow>
     heap_ok h \<and> heap_le h0 h \<and> h_next h1 \<le> h_next h \<and> h_cells h dst = Some (put ys) \<and> length ys = length xs \<and>
     list_all (ok h) ys \<and>
     (\<forall>j<i. view h (ys ! j) = view h0 (xs ! j) \<and> ptrs h (ys ! j) \<subseteq> {h_next h1..<h_next h})"

lemma loop_step:
  assumes inv: "loop_inv h0 xs h1 dst i ys h" and i: "i < length xs"
    and h0: "heap_ok h0" "list_all (ok h0) xs" and dst: "h_next h0 \<le> dst" "dst < h_next h1"
    and h2: "heap_ok h2" "heap_le h h2" "ok h2 y \<and> view h2 y = view h (xs ! i) \<and> fresh_in h h2 (ptrs h2 y)"
    and h3: "heap_ok h3" "heap_le h0 h3" "h3 = h2\<lparr>h_cells := (h_cells h2)(dst \<mapsto> put (ys[i := y]))\<rparr>"
  shows "loop_inv h0 xs h1 dst (Suc i) (ys[i := y]) h3"
proof -
  have h: "heap_ok h" "heap_le h0 h" "h_next h1 \<le> h_next h" "h_cells h dst = Some (put ys)"
    "length ys = length xs" "list_all (ok h) ys"
    "\<And>j. j < i \<Longrightarrow> view h (ys ! j) = view h0 (xs ! j)"
    "\<And>j. j < i \<Longrightarrow> ptrs h (ys ! j) \<subseteq> {h_next h1..<h_next h}"
    using inv by (simp_all add: loop_inv_def)
  have d2: "h_cells h2 dst = Some (put ys)" using h h2(2) dst by (simp add: heap_le_def)
  have kinds: "kinds_le h2 h3" unfolding h3(3) by (rule kinds_le_write [OF d2]) simp
  have okx: "ok h0 (xs ! i)" using h0(2) i by (simp add: list_all_length)
  have all: "list_all (ok h3) (ys[i := y])"
    using list_ok_update [OF list_ok_later [OF h(6,1) h2(2)]] h2(3) kinds
    by (auto simp: list_all_iff intro: ok_kinds)
  have same: "view h3 z = view h2 z \<and> ptrs h3 z = ptrs h2 z" if "dst \<notin> ptrs h2 z" for z
    using that unfolding h3(3) by (intro conjI local_view local_ptrs) auto
  have elem: "view h3 (ys[i := y] ! j) = view h0 (xs ! j) \<and> ptrs h3 (ys[i := y] ! j) \<subseteq> {h_next h1..<h_next h3}"
    if j: "j < Suc i" for j
  proof (cases "j = i")
    case True
    have "dst \<notin> ptrs h2 y" using h2(3) h(3) dst by (auto simp: fresh_in_def)
    moreover have "view h (xs ! i) = view h0 (xs ! i)" using same_later [OF okx h0(1) h(2)] by simp
    ultimately show ?thesis
      using True i h h2 same [of y] h3(3) by (auto simp: fresh_in_def)
  next
    case False
    then have j: "j < i" using j by simp
    have "ok h (ys ! j)" using h(5,6) i j by (simp add: list_all_length)
    then have "view h2 (ys ! j) = view h (ys ! j)" "ptrs h2 (ys ! j) = ptrs h (ys ! j)"
      using same_later [OF _ h(1) h2(2)] by blast+
    moreover have "dst \<notin> ptrs h (ys ! j)" using h(8) [OF j] dst by auto
    ultimately show ?thesis
      using h(7,8) [OF j] same [of "ys ! j"] j h2(2) h3(3) by (auto simp: heap_le_def)
  qed
  show ?thesis
    unfolding loop_inv_def using h h2 h3 all elem by (simp add: heap_le_def)
qed

lemma items_copied:
  assumes h0: "heap_ok h0" "h_cells h0 src = Some (put xs)" and dst: "h_next h0 \<le> dst" "dst < h_next h1"
    and inv: "loop_inv h0 xs h1 dst i ys h" and i: "i \<le> length xs"
  shows "runs h0 (copy_items get put into src dst [i..<length xs]) h
     (\<lambda>_ h'. \<exists>zs. loop_inv h0 xs h1 dst (length xs) zs h')"
  using inv i
proof (induction "length xs - i" arbitrary: i ys h)
  case 0
  then show ?case by (auto simp: loop_inv_def intro!: runs_return)
next
  case (Suc n)
  then have i: "i < length xs" by simp
  have okx: "list_all (ok h0) xs" using h0 cell_put by (metis heap_ok_def)
  have h: "heap_ok h" "heap_le h0 h" "h_cells h dst = Some (put ys)" "list_all (ok h) ys" "h_next h1 \<le> h_next h"
    using Suc.prems(1) by (simp_all add: loop_inv_def)
  have src: "h_cells h src = Some (put xs)"
    using h0 h(2) by (auto simp: heap_ok_def heap_le_def)
  have oki: "ok h (xs ! i)"
    using list_ok_later [OF okx h0(1) h(2)] i by (simp add: list_all_length)
  have rest: "runs h0 (mem_bind (mem_read dst) (\<lambda>d. case get d of None \<Rightarrow> mem_panic
      | Some ys \<Rightarrow> mem_bind (mem_write dst (put (ys[i := y])))
          (\<lambda>_. copy_items get put into src dst [Suc i..<length xs]))) h2
      (\<lambda>_ h'. \<exists>zs. loop_inv h0 xs h1 dst (length xs) zs h')"
    if h2: "heap_ok h2" "heap_le h h2" "ok h2 y \<and> view h2 y = view h (xs ! i) \<and> fresh_in h h2 (ptrs h2 y)"
    for y h2
  proof -
    have le: "heap_le h0 h2" using h(2) h2(2) by (rule heap_le_trans)
    have d2: "h_cells h2 dst = Some (put ys)" using h h2(2) dst by (simp add: heap_le_def)
    have c2: "cell_ok h2 (put (ys[i := y]))"
      using list_ok_update [OF list_ok_later [OF h(4,1) h2(2)]] h2(3) by (simp add: cell_put)
    show ?thesis
    proof (rule runs_bind, rule runs_read [OF h2(1) le d2], simp only: get_put option.case,
        rule runs_bind, rule runs_write [OF h2(1) le c2 d2 _ dst(1)], goal_cases)
      case 1 show ?case by simp
    next
      case (2 h3)
      have "loop_inv h0 xs h1 dst (Suc i) (ys[i := y]) h3"
        using loop_step [OF Suc.prems(1) i h0(1) okx dst h2 2] .
      then show ?case using Suc.hyps i by simp
    qed
  qed
  have "[i..<length xs] = i # [Suc i..<length xs]" using i by (rule upt_conv_Cons)
  moreover have "runs h0 (mem_bind (into (xs ! i)) (\<lambda>y. mem_bind (mem_read dst) (\<lambda>d. case get d of
      None \<Rightarrow> mem_panic | Some ys \<Rightarrow> mem_bind (mem_write dst (put (ys[i := y])))
        (\<lambda>_. copy_items get put into src dst [Suc i..<length xs])))) h
      (\<lambda>_ h'. \<exists>zs. loop_inv h0 xs h1 dst (length xs) zs h')"
    by (rule runs_bind, rule runs_call [OF copies [OF h(1) oki] h(2)], rule rest)
  ultimately show ?case
    by (simp, intro runs_bind runs_read [OF h(1,2) src]) simp
qed

lemma slice_copied:
  assumes h: "heap_ok h" and p: "points h k p"
  shows "runs h (copy_slice get put zero into p) h
     (\<lambda>q h'. points h' k q \<and> slice_view get view h' q = slice_view get view h p \<and>
        fresh_in h h' (slice_ptrs get ptrs h' q))"
proof (cases p)
  case None
  then show ?thesis
    using h by (simp add: copy_slice_def slice_view_def slice_ptrs_def runs_return)
next
  case (Some src)
  with p put_kind obtain xs where src: "h_cells h src = Some (put xs)" by (auto simp: points_Some)
  have zero: "cell_ok h (put (replicate (length xs) zero))"
    by (simp add: cell_put list_all_iff ok_zero)
  show ?thesis
    unfolding copy_slice_def Some option.case
  proof (rule runs_bind, rule runs_read [OF h heap_le_refl src], simp only: get_put option.case,
      rule runs_bind, rule runs_new [OF h heap_le_refl zero], rule runs_bind, goal_cases)
    case (1 dst h1)
    have "loop_inv h xs h1 dst 0 (replicate (length xs) zero) h1"
      using 1 by (simp add: loop_inv_def list_all_iff ok_zero)
    then have loop: "runs h (copy_items get put into src dst [0..<length xs]) h1
        (\<lambda>_ h'. \<exists>zs. loop_inv h xs h1 dst (length xs) zs h')"
      using h src 1(4,5) by (intro items_copied) simp_all
    show ?case
    proof (rule runs_mono [OF loop])
      fix u :: unit and h'
      assume h': "heap_ok h'" "heap_le h h'" "\<exists>zs. loop_inv h xs h1 dst (length xs) zs h'"
      then obtain zs where zs: "h_cells h' dst = Some (put zs)" "length zs = length xs" "h_next h1 \<le> h_next h'"
        "\<And>j. j < length xs \<Longrightarrow> view h' (zs ! j) = view h (xs ! j)"
        "\<And>j. j < length xs \<Longrightarrow> ptrs h' (zs ! j) \<subseteq> {h_next h1..<h_next h'}"
        by (auto simp: loop_inv_def)
      have "map (view h') zs = map (view h) xs"
        using zs(2,4) by (auto intro: nth_equalityI)
      moreover have "fresh_in h h' (ptrs h' z)" if "z \<in> set zs" for z
        using that zs(2,5) 1(5) by (auto simp: fresh_in_def in_set_conv_nth) fastforce+
      ultimately show "runs h (mem_return (Some dst)) h'
          (\<lambda>q h'. points h' k q \<and> slice_view get view h' q = slice_view get view h (Some src) \<and>
            fresh_in h h' (slice_ptrs get ptrs h' q))"
        using h'(1,2) zs(1,3) 1(4,5) src
        by (intro runs_return)
          (auto simp: slice_view_def slice_ptrs_def points_Some fresh_in_def)
    qed
  qed
qed

lemma slice_local:
  assumes "\<And>a. a \<in> slice_ptrs get ptrs h p \<Longrightarrow> h_cells h' a = h_cells h a"
  shows "slice_view get view h' p = slice_view get view h p" and "slice_ptrs get ptrs h' p = slice_ptrs get ptrs h p"
proof -
  have rd: "rd h' p = rd h p"
    using assms by (cases p) (simp_all add: slice_ptrs_def)
  have elem: "view h' x = view h x \<and> ptrs h' x = ptrs h x" if "Option.bind (rd h p) get = Some xs" "x \<in> set xs" for x xs
    using that assms by (intro conjI local_view local_ptrs) (auto simp: slice_ptrs_def)
  show "slice_view get view h' p = slice_view get view h p"
    using elem by (cases "Option.bind (rd h p) get") (auto simp: slice_view_def rd)
  show "slice_ptrs get ptrs h' p = slice_ptrs get ptrs h p"
    using elem by (auto simp: slice_ptrs_def rd split: option.split)
qed

lemma slice_dom:
  assumes "heap_ok h" and "points h k p"
  shows "slice_ptrs get ptrs h p \<subseteq> {..<h_next h}"
proof (cases p)
  case None
  then show ?thesis by (simp add: slice_ptrs_def)
next
  case (Some a)
  with assms(2) put_kind obtain xs where xs: "h_cells h a = Some (put xs)" by (auto simp: points_Some)
  then have "list_all (ok h) xs" using assms(1) cell_put by (metis heap_ok_def)
  then show ?thesis
    using Some xs assms(1) ptrs_dom by (fastforce simp: slice_ptrs_def list_all_iff heap_ok_def)
qed

end

section \<open>The deep copies of the API types\<close>

lemma struct_copier:
  assumes "\<And>h x. heap_ok h \<Longrightarrow> typed h ks (f x) \<Longrightarrow>
    runs h (into x) h (\<lambda>y h'. copied h ks (f x) h' (f y) \<and> erase y = erase x)"
  shows "copier (\<lambda>h x. typed h ks (f x)) (\<lambda>h x. ptr_set (f x)) (\<lambda>h x. (erase x, map (rd h) (f x))) into"
proof (unfold_locales, goal_cases)
  case 1 then show ?case by (rule typed_kinds)
next
  case 2 then show ?case by (rule typed_dom)
next
  case 3 then show ?case using rd_agree by blast
next
  case 5 then show ?case by (intro runs_mono [OF assms]) (auto simp: copied_def)
qed simp

fun get_Spec :: "cell \<Rightarrow> pSpec option" where
  "get_Spec (CSpec s) = Some s" | "get_Spec _ = None"
fun get_Status :: "cell \<Rightarrow> pStatus option" where
  "get_Status (CStatus s) = Some s" | "get_Status _ = None"
fun get_Active :: "cell \<Rightarrow> DNSLoadBalancerActive option" where
  "get_Active (CActive x) = Some x" | "get_Active _ = None"
fun get_LoadBalancer :: "cell \<Rightarrow> pLoadBalancer option" where
  "get_LoadBalancer (CLoadBalancer l) = Some l" | "get_LoadBalancer _ = None"
fun get_LoadBalancers :: "cell \<Rightarrow> pLoadBalancer list option" where
  "get_LoadBalancers (CLoadBalancers ls) = Some ls" | "get_LoadBalancers _ = None"
fun get_LoadBalancerList :: "cell \<Rightarrow> pList option" where
  "get_LoadBalancerList (CLoadBalancerList l) = Some l" | "get_LoadBalancerList _ = None"
fun get_EndpointSpec :: "cell \<Rightarrow> DNSLoadBalancerEndpointSpec option" where
  "get_EndpointSpec (CEndpointSpec s) = Some s" | "get_EndpointSpec _ = None"
fun get_EndpointStatus :: "cell \<Rightarrow> pEndpointStatus option" where
  "get_EndpointStatus (CEndpointStatus s) = Some s" | "get_EndpointStatus _ = None"
fun get_Endpoint :: "cell \<Rightarrow> pEndpoint option" where
  "get_Endpoint (CEndpoint e) = Some e" | "get_Endpoint _ = None"
fun get_Endpoints :: "cell \<Rightarrow> pEndpoint list option" where
  "get_Endpoints (CEndpoints es) = Some es" | "get_Endpoints _ = None"
fun get_EndpointList :: "cell \<Rightarrow> pList option" where
  "get_EndpointList (CEndpointList l) = Some l" | "get_EndpointList _ = None"

definition zero_Meta :: pObjectMeta where
  "zero_Meta = \<lparr>po_namespace = '''', po_name = '''', po_generateName = '''', po_uid = '''',
     po_resourceVersion = '''', po_CreationTimestamp = 0, po_DeletionTimestamp = None,
     po_DeletionGracePeriodSeconds = None, po_Labels = None, po_Annotations = None,
     po_OwnerReferences = None, po_Finalizers = None\<rparr>"

definition zero_TypeMeta :: TypeMeta where
  "zero_TypeMeta = \<lparr>tm_kind = '''', tm_apiVersion = ''''\<rparr>"

definition zero_Spec :: pSpec where
  "zero_Spec = \<lparr>ps_DNSName = '''', ps_HealthPath = '''', ps_StatusCode = 0, ps_Type = '''', ps_TTL = None,
     ps_Singleton = None, ps_EndpointValidityInterval = None\<rparr>"

definition zero_Status :: pStatus where
  "zero_Status = \<lparr>pt_State = None, pt_Message = None, pt_Active = None\<rparr>"

definition zero_LoadBalancer :: pLoadBalancer where
  "zero_LoadBalancer = \<lparr>pl_TypeMeta = zero_TypeMeta, pl_ObjectMeta = zero_Meta, pl_Spec = zero_Spec,
     pl_Status = zero_Status\<rparr>"

definition zero_EndpointSpec :: DNSLoadBalancerEndpointSpec where
  "zero_EndpointSpec = \<lparr>LoadBalancerRef = '''', IPAddress = '''', CName = ''''\<rparr>"

definition zero_EndpointStatus :: pEndpointStatus where
  "zero_EndpointStatus = \<lparr>pe_State = None, pe_Message = None, pe_Healthy = False, pe_ValidUntil = None\<rparr>"

definition zero_Endpoint :: pEndpoint where
  "zero_Endpoint = \<lparr>pp_TypeMeta = zero_TypeMeta, pp_ObjectMeta = zero_Meta, pp_Spec = zero_EndpointSpec,
     pp_Status = zero_EndpointStatus\<rparr>"

definition zero_List :: pList where
  "zero_List = \<lparr>pi_TypeMeta = zero_TypeMeta,
     pi_ListMeta = \<lparr>lm_selfLink = '''', lm_resourceVersion = '''', lm_continue = ''''\<rparr>, pi_Items = None\<rparr>"

lemmas zero_defs = zero_Meta_def zero_Spec_def zero_Status_def zero_LoadBalancer_def
  zero_EndpointStatus_def zero_Endpoint_def zero_List_def

definition LoadBalancerList_DeepCopyInto :: "pList \<Rightarrow> pList mem" where
  "LoadBalancerList_DeepCopyInto l =
     mem_bind (copy_slice get_LoadBalancers CLoadBalancers zero_LoadBalancer LoadBalancer_DeepCopyInto (pi_Items l))
       (\<lambda>items. mem_return (l\<lparr>pi_Items := items\<rparr>))"

definition EndpointList_DeepCopyInto :: "pList \<Rightarrow> pList mem" where
  "EndpointList_DeepCopyInto l =
     mem_bind (copy_slice get_Endpoints CEndpoints zero_Endpoint Endpoint_DeepCopyInto (pi_Items l))
       (\<lambda>items. mem_return (l\<lparr>pi_Items := items\<rparr>))"

definition DNSLoadBalancer_DeepCopy :: "addr option \<Rightarrow> addr option mem" where
  "DNSLoadBalancer_DeepCopy = deep_copy get_LoadBalancer CLoadBalancer zero_LoadBalancer LoadBalancer_DeepCopyInto"

definition DNSLoadBalancerActive_DeepCopy :: "addr option \<Rightarrow> addr option mem" where
  "DNSLoadBalancerActive_DeepCopy = deep_copy get_Active CActive zero_Active Active_DeepCopyInto"

definition DNSLoadBalancerEndpoint_DeepCopy :: "addr option \<Rightarrow> addr option mem" where
  "DNSLoadBalancerEndpoint_DeepCopy = deep_copy get_Endpoint CEndpoint zero_Endpoint Endpoint_DeepCopyInto"

definition DNSLoadBalancerEndpointList_DeepCopy :: "addr option \<Rightarrow> addr option mem" where
  "DNSLoadBalancerEndpointList_DeepCopy = deep_copy get_EndpointList CEndpointList zero_List EndpointList_DeepCopyInto"

definition DNSLoadBalancerEndpointSpec_DeepCopy :: "addr option \<Rightarrow> addr option mem" where
  "DNSLoadBalancerEndpointSpec_DeepCopy =
     deep_copy get_EndpointSpec CEndpointSpec zero_EndpointSpec EndpointSpec_DeepCopyInto"

definition DNSLoadBalancerEndpointStatus_DeepCopy :: "addr option \<Rightarrow> addr option mem" where
  "DNSLoadBalancerEndpointStatus_DeepCopy =
     deep_copy get_EndpointStatus CEndpointStatus zero_EndpointStatus EndpointStatus_DeepCopyInto"

definition DNSLoadBalancerList_DeepCopy :: "addr option \<Rightarrow> addr option mem" where
  "DNSLoadBalancerList_DeepCopy =
     deep_copy get_LoadBalancerList CLoadBalancerList zero_List LoadBalancerList_DeepCopyInto"

definition DNSLoadBalancerSpec_DeepCopy :: "addr option \<Rightarrow> addr option mem" where
  "DNSLoadBalancerSpec_DeepCopy = deep_copy get_Spec CSpec zero_Spec Spec_DeepCopyInto"

definition DNSLoadBalancerStatus_DeepCopy :: "addr option \<Rightarrow> addr option mem" where
  "DNSLoadBalancerStatus_DeepCopy = deep_copy get_Status CStatus zero_Status Status_DeepCopyInto"

text \<open>
  A \<open>runtime.Object\<close> is an interface: nil, or a dynamic type with a pointer, which could be nil.
\<close>

type_synonym Object = "(kind \<times> addr option) option"

definition as_object :: "kind \<Rightarrow> addr option mem \<Rightarrow> Object mem" where
  "as_object k m = mem_bind m (\<lambda>c. if c \<noteq> None then mem_return (Some (k, c)) else mem_return None)"

definition DNSLoadBalancer_DeepCopyObject :: "addr option \<Rightarrow> Object mem" where
  "DNSLoadBalancer_DeepCopyObject p = as_object KLoadBalancer (DNSLoadBalancer_DeepCopy p)"

definition DNSLoadBalancerEndpoint_DeepCopyObject :: "addr option \<Rightarrow> Object mem" where
  "DNSLoadBalancerEndpoint_DeepCopyObject p = as_object KEndpoint (DNSLoadBalancerEndpoint_DeepCopy p)"

definition DNSLoadBalancerEndpointList_DeepCopyObject :: "addr option \<Rightarrow> Object mem" where
  "DNSLoadBalancerEndpointList_DeepCopyObject p = as_object KEndpointList (DNSLoadBalancerEndpointList_DeepCopy p)"

definition DNSLoadBalancerList_DeepCopyObject :: "addr option \<Rightarrow> Object mem" where
  "DNSLoadBalancerList_DeepCopyObject p = as_object KLoadBalancerList (DNSLoadBalancerList_DeepCopy p)"

section \<open>Each of them keeps the contract\<close>

lemma zero_typed:
  "typed h lb_kinds (lb_fields zero_LoadBalancer)" "typed h ep_kinds (ep_fields zero_Endpoint)"
  "typed h spec_kinds (spec_fields zero_Spec)" "typed h status_kinds (status_fields zero_Status)"
  "typed h epstatus_kinds (epstatus_fields zero_EndpointStatus)"
  by (simp_all add: zero_defs lb_fields_def ep_fields_def meta_fields_def spec_fields_def status_fields_def
      epstatus_fields_def)

text \<open>The values behind the structs.\<close>

definition lb_view where "lb_view h l = (erase_lb l, map (rd h) (lb_fields l))"
definition ep_view where "ep_view h e = (erase_ep e, map (rd h) (ep_fields e))"
definition lb_list_view where
  "lb_list_view h l = (pi_TypeMeta l, pi_ListMeta l, slice_view get_LoadBalancers lb_view h (pi_Items l))"
definition ep_list_view where
  "ep_list_view h l = (pi_TypeMeta l, pi_ListMeta l, slice_view get_Endpoints ep_view h (pi_Items l))"
definition lb_ptrs :: "heap \<Rightarrow> pLoadBalancer \<Rightarrow> addr set" where "lb_ptrs h l = ptr_set (lb_fields l)"
definition ep_ptrs :: "heap \<Rightarrow> pEndpoint \<Rightarrow> addr set" where "ep_ptrs h e = ptr_set (ep_fields e)"
definition lb_list_ptrs where "lb_list_ptrs h l = slice_ptrs get_LoadBalancers lb_ptrs h (pi_Items l)"
definition ep_list_ptrs where "ep_list_ptrs h l = slice_ptrs get_Endpoints ep_ptrs h (pi_Items l)"

abbreviation lb_ok :: "heap \<Rightarrow> pLoadBalancer \<Rightarrow> bool" where "lb_ok h l \<equiv> typed h lb_kinds (lb_fields l)"
abbreviation ep_ok :: "heap \<Rightarrow> pEndpoint \<Rightarrow> bool" where "ep_ok h e \<equiv> typed h ep_kinds (ep_fields e)"

interpretation lb_copy: pointer_copier lb_ok lb_ptrs lb_view LoadBalancer_DeepCopyInto
    get_LoadBalancer CLoadBalancer zero_LoadBalancer
proof (intro pointer_copier.intro pointer_copier_axioms.intro)
  show "copier lb_ok lb_ptrs lb_view LoadBalancer_DeepCopyInto"
    using struct_copier [OF LoadBalancer_copied] by (simp add: lb_ptrs_def [abs_def] lb_view_def [abs_def])
qed (rule zero_typed | simp)+

interpretation ep_copy: pointer_copier ep_ok ep_ptrs ep_view Endpoint_DeepCopyInto
    get_Endpoint CEndpoint zero_Endpoint
proof (intro pointer_copier.intro pointer_copier_axioms.intro)
  show "copier ep_ok ep_ptrs ep_view Endpoint_DeepCopyInto"
    using struct_copier [OF Endpoint_copied] by (simp add: ep_ptrs_def [abs_def] ep_view_def [abs_def])
qed (rule zero_typed | simp)+

interpretation lbs_copy: array_copier lb_ok lb_ptrs lb_view LoadBalancer_DeepCopyInto
    get_LoadBalancers CLoadBalancers zero_LoadBalancer KLoadBalancers
proof (unfold_locales, goal_cases)
  case (3 c) then show ?case by (cases c) auto
qed (rule zero_typed | simp)+

interpretation eps_copy: array_copier ep_ok ep_ptrs ep_view Endpoint_DeepCopyInto
    get_Endpoints CEndpoints zero_Endpoint KEndpoints
proof (unfold_locales, goal_cases)
  case (3 c) then show ?case by (cases c) auto
qed (rule zero_typed | simp)+

lemma lb_items_copied: "heap_ok h \<Longrightarrow> points h KLoadBalancers (pi_Items l) \<Longrightarrow>
    runs h (LoadBalancerList_DeepCopyInto l) h
      (\<lambda>y h'. points h' KLoadBalancers (pi_Items y) \<and> lb_list_view h' y = lb_list_view h l \<and>
         fresh_in h h' (lb_list_ptrs h' y))"
  unfolding LoadBalancerList_DeepCopyInto_def
  by (rule runs_bind, rule runs_call [OF lbs_copy.slice_copied heap_le_refl])
    (auto intro: runs_return simp: lb_list_view_def lb_list_ptrs_def)

lemma ep_items_copied: "heap_ok h \<Longrightarrow> points h KEndpoints (pi_Items l) \<Longrightarrow>
    runs h (EndpointList_DeepCopyInto l) h
      (\<lambda>y h'. points h' KEndpoints (pi_Items y) \<and> ep_list_view h' y = ep_list_view h l \<and>
         fresh_in h h' (ep_list_ptrs h' y))"
  unfolding EndpointList_DeepCopyInto_def
  by (rule runs_bind, rule runs_call [OF eps_copy.slice_copied heap_le_refl])
    (auto intro: runs_return simp: ep_list_view_def ep_list_ptrs_def)

interpretation lb_list_copy: pointer_copier "\<lambda>h l. points h KLoadBalancers (pi_Items l)" lb_list_ptrs lb_list_view
    LoadBalancerList_DeepCopyInto get_LoadBalancerList CLoadBalancerList zero_List
proof (unfold_locales, goal_cases)
  case 1 then show ?case by (rule points_kinds)
next
  case 2 then show ?case unfolding lb_list_ptrs_def by (rule lbs_copy.slice_dom)
next
  case (3 h x h')
  then show ?case using lbs_copy.slice_local(1) [of h "pi_Items x" h'] by (simp add: lb_list_ptrs_def lb_list_view_def)
next
  case (4 h x h')
  then show ?case using lbs_copy.slice_local(2) [of h "pi_Items x" h'] by (simp add: lb_list_ptrs_def)
next
  case 5 then show ?case by (rule lb_items_copied)
qed (simp_all add: zero_defs)

interpretation ep_list_copy: pointer_copier "\<lambda>h l. points h KEndpoints (pi_Items l)" ep_list_ptrs ep_list_view
    EndpointList_DeepCopyInto get_EndpointList CEndpointList zero_List
proof (unfold_locales, goal_cases)
  case 1 then show ?case by (rule points_kinds)
next
  case 2 then show ?case unfolding ep_list_ptrs_def by (rule eps_copy.slice_dom)
next
  case (3 h x h')
  then show ?case using eps_copy.slice_local(1) [of h "pi_Items x" h'] by (simp add: ep_list_ptrs_def ep_list_view_def)
next
  case (4 h x h')
  then show ?case using eps_copy.slice_local(2) [of h "pi_Items x" h'] by (simp add: ep_list_ptrs_def)
next
  case 5 then show ?case by (rule ep_items_copied)
qed (simp_all add: zero_defs)

interpretation spec_copy: pointer_copier "\<lambda>h s. typed h spec_kinds (spec_fields s)" "\<lambda>h s. ptr_set (spec_fields s)"
    "\<lambda>h s. (erase_spec s, map (rd h) (spec_fields s))" Spec_DeepCopyInto get_Spec CSpec zero_Spec
  by (intro pointer_copier.intro pointer_copier_axioms.intro struct_copier [OF Spec_copied])
    (rule zero_typed | simp)+

interpretation status_copy: pointer_copier "\<lambda>h s. typed h status_kinds (status_fields s)"
    "\<lambda>h s. ptr_set (status_fields s)" "\<lambda>h s. (erase_status s, map (rd h) (status_fields s))"
    Status_DeepCopyInto get_Status CStatus zero_Status
  by (intro pointer_copier.intro pointer_copier_axioms.intro struct_copier [OF Status_copied])
    (rule zero_typed | simp)+

interpretation epstatus_copy: pointer_copier "\<lambda>h s. typed h epstatus_kinds (epstatus_fields s)"
    "\<lambda>h s. ptr_set (epstatus_fields s)" "\<lambda>h s. (erase_epstatus s, map (rd h) (epstatus_fields s))"
    EndpointStatus_DeepCopyInto get_EndpointStatus CEndpointStatus zero_EndpointStatus
  by (intro pointer_copier.intro pointer_copier_axioms.intro struct_copier [OF EndpointStatus_copied])
    (rule zero_typed | simp)+

interpretation active_copy: pointer_copier "\<lambda>_ _. True" "\<lambda>_ _. {}" "\<lambda>_ x. x" Active_DeepCopyInto
    get_Active CActive zero_Active
  by unfold_locales (simp_all add: Active_DeepCopyInto_def runs_return)

interpretation epspec_copy: pointer_copier "\<lambda>_ _. True" "\<lambda>_ _. {}" "\<lambda>_ x. x" EndpointSpec_DeepCopyInto
    get_EndpointSpec CEndpointSpec zero_EndpointSpec
  by unfold_locales (simp_all add: EndpointSpec_DeepCopyInto_def runs_return)

end
