(* ===== verification/DeepCopyProps.thy ===== *)
theory DeepCopyProps
  imports DeepCopy
begin

text \<open>
  What the deep copies of the API types guarantee, and the link from the structs in the store to the
  values the other theories work on.
\<close>

section \<open>Loading the values of Api\<close>

fun as_string :: "cell \<Rightarrow> string option" where
  "as_string (CString s) = Some s" | "as_string _ = None"
fun as_int :: "cell \<Rightarrow> int option" where
  "as_int (CInt i) = Some i" | "as_int _ = None"
fun as_bool :: "cell \<Rightarrow> bool option" where
  "as_bool (CBool b) = Some b" | "as_bool _ = None"
fun as_time :: "cell \<Rightarrow> time option" where
  "as_time (CTime t) = Some t" | "as_time _ = None"
fun as_duration :: "cell \<Rightarrow> duration option" where
  "as_duration (CDuration d) = Some d" | "as_duration _ = None"
fun as_map :: "cell \<Rightarrow> (string \<rightharpoonup> string) option" where
  "as_map (CMap m) = Some m" | "as_map _ = None"
fun as_strings :: "cell \<Rightarrow> string list option" where
  "as_strings (CStrings xs) = Some xs" | "as_strings _ = None"
fun as_owners :: "cell \<Rightarrow> OwnerReference list option" where
  "as_owners (COwners xs) = Some xs" | "as_owners _ = None"
fun as_actives :: "cell \<Rightarrow> DNSLoadBalancerActive list option" where
  "as_actives (CActives xs) = Some xs" | "as_actives _ = None"

text \<open>The cluster an object was read from is not part of the struct. Nil slices load as empty ones.\<close>

definition load_ObjectMeta :: "string \<Rightarrow> heap \<Rightarrow> pObjectMeta \<Rightarrow> ObjectMeta" where
  "load_ObjectMeta cluster h m =
     \<lparr>m_cluster = cluster, m_namespace = po_namespace m, m_name = po_name m,
      m_generateName = po_generateName m, m_uid = po_uid m, m_resourceVersion = po_resourceVersion m,
      m_labels = Option.bind (rd h (po_Labels m)) as_map,
      m_annotations = (case Option.bind (rd h (po_Annotations m)) as_map of None \<Rightarrow> (\<lambda>_. None) | Some f \<Rightarrow> f),
      m_finalizers = (case Option.bind (rd h (po_Finalizers m)) as_strings of None \<Rightarrow> [] | Some xs \<Rightarrow> xs),
      m_ownerReferences = (case Option.bind (rd h (po_OwnerReferences m)) as_owners of None \<Rightarrow> [] | Some xs \<Rightarrow> xs),
      m_creationTimestamp = po_CreationTimestamp m,
      m_deletionTimestamp = Option.bind (rd h (po_DeletionTimestamp m)) as_time\<rparr>"

definition load_LoadBalancer :: "string \<Rightarrow> heap \<Rightarrow> pLoadBalancer \<Rightarrow> DNSLoadBalancer" where
  "load_LoadBalancer cluster h l =
     \<lparr>lb_meta = load_ObjectMeta cluster h (pl_ObjectMeta l),
      lb_spec =
        \<lparr>DNSName = ps_DNSName (pl_Spec l), HealthPath = ps_HealthPath (pl_Spec l),
         StatusCode = ps_StatusCode (pl_Spec l), Type = ps_Type (pl_Spec l),
         TTL = Option.bind (rd h (ps_TTL (pl_Spec l))) as_int,
         Singleton = Option.bind (rd h (ps_Singleton (pl_Spec l))) as_bool,
         EndpointValidityInterval = Option.bind (rd h (ps_EndpointValidityInterval (pl_Spec l))) as_duration\<rparr>,
      lb_status =
        \<lparr>lbs_State = Option.bind (rd h (pt_State (pl_Status l))) as_string,
         lbs_Message = Option.bind (rd h (pt_Message (pl_Status l))) as_string,
         lbs_Active = Option.bind (rd h (pt_Active (pl_Status l))) as_actives\<rparr>\<rparr>"

definition load_Endpoint :: "string \<Rightarrow> heap \<Rightarrow> pEndpoint \<Rightarrow> DNSLoadBalancerEndpoint" where
  "load_Endpoint cluster h e =
     \<lparr>ep_meta = load_ObjectMeta cluster h (pp_ObjectMeta e), ep_spec = pp_Spec e,
      ep_status =
        \<lparr>eps_State = Option.bind (rd h (pe_State (pp_Status e))) as_string,
         eps_Message = Option.bind (rd h (pe_Message (pp_Status e))) as_string,
         eps_Healthy = pe_Healthy (pp_Status e),
         eps_ValidUntil = Option.bind (rd h (pe_ValidUntil (pp_Status e))) as_time\<rparr>\<rparr>"

text \<open>The value behind the pointers is all they depend on.\<close>

lemma erase_meta_eq:
  assumes "erase_meta m = erase_meta n"
  shows "po_namespace m = po_namespace n" and "po_name m = po_name n" and "po_generateName m = po_generateName n"
    and "po_uid m = po_uid n" and "po_resourceVersion m = po_resourceVersion n"
    and "po_CreationTimestamp m = po_CreationTimestamp n"
  using assms by (cases m; cases n; simp add: erase_meta_def)+

lemma load_ObjectMeta_view:
  assumes "erase_meta m = erase_meta n" and "map (rd h) (meta_fields m) = map (rd g) (meta_fields n)"
  shows "load_ObjectMeta cluster h m = load_ObjectMeta cluster g n"
  using erase_meta_eq [OF assms(1)] assms(2) by (simp add: load_ObjectMeta_def meta_fields_def)

lemma load_LoadBalancer_view:
  assumes "lb_view h l = lb_view g k"
  shows "load_LoadBalancer cluster h l = load_LoadBalancer cluster g k"
proof -
  have e: "erase_meta (pl_ObjectMeta l) = erase_meta (pl_ObjectMeta k)"
    "erase_spec (pl_Spec l) = erase_spec (pl_Spec k)"
    using assms by (cases l; cases k; simp add: lb_view_def erase_lb_def)+
  have f: "map (rd h) (meta_fields (pl_ObjectMeta l)) = map (rd g) (meta_fields (pl_ObjectMeta k))"
    "map (rd h) (spec_fields (pl_Spec l)) = map (rd g) (spec_fields (pl_Spec k))"
    "map (rd h) (status_fields (pl_Status l)) = map (rd g) (status_fields (pl_Status k))"
    using assms by (simp_all add: lb_view_def lb_fields_def meta_fields_def spec_fields_def status_fields_def)
  have "ps_DNSName (pl_Spec l) = ps_DNSName (pl_Spec k)" "ps_HealthPath (pl_Spec l) = ps_HealthPath (pl_Spec k)"
    "ps_StatusCode (pl_Spec l) = ps_StatusCode (pl_Spec k)" "ps_Type (pl_Spec l) = ps_Type (pl_Spec k)"
    using e(2) by (cases "pl_Spec l"; cases "pl_Spec k"; simp add: erase_spec_def)+
  with f load_ObjectMeta_view [OF e(1) f(1)] show ?thesis
    by (simp add: load_LoadBalancer_def spec_fields_def status_fields_def)
qed

lemma load_Endpoint_view:
  assumes "ep_view h e = ep_view g k"
  shows "load_Endpoint cluster h e = load_Endpoint cluster g k"
proof -
  have e: "erase_meta (pp_ObjectMeta e) = erase_meta (pp_ObjectMeta k)" "pp_Spec e = pp_Spec k"
    "pe_Healthy (pp_Status e) = pe_Healthy (pp_Status k)"
    using assms by (cases e; cases k; simp add: ep_view_def erase_ep_def;
      cases "pp_Status e"; cases "pp_Status k"; simp add: erase_epstatus_def)+
  have f: "map (rd h) (meta_fields (pp_ObjectMeta e)) = map (rd g) (meta_fields (pp_ObjectMeta k))"
    "map (rd h) (epstatus_fields (pp_Status e)) = map (rd g) (epstatus_fields (pp_Status k))"
    using assms by (simp_all add: ep_view_def ep_fields_def meta_fields_def epstatus_fields_def)
  with e load_ObjectMeta_view [OF e(1) f(1)] show ?thesis
    by (simp add: load_Endpoint_def epstatus_fields_def)
qed

section \<open>The properties\<close>

definition load_LoadBalancers :: "string \<Rightarrow> heap \<Rightarrow> pList \<Rightarrow> DNSLoadBalancer list option" where
  "load_LoadBalancers cluster h l = slice_view get_LoadBalancers (load_LoadBalancer cluster) h (pi_Items l)"

definition load_Endpoints :: "string \<Rightarrow> heap \<Rightarrow> pList \<Rightarrow> DNSLoadBalancerEndpoint list option" where
  "load_Endpoints cluster h l = slice_view get_Endpoints (load_Endpoint cluster) h (pi_Items l)"

text \<open>What a view of the elements determines is determined by the view of the slice.\<close>

lemma slice_view_mono:
  assumes "slice_view get view h p = slice_view get view g q"
    and "\<And>x y. view h x = view g y \<Longrightarrow> view' h x = view' g y"
  shows "slice_view get view' h p = slice_view get view' g q"
proof -
  have *: "map (view' h) xs = map (view' g) ys" if "map (view h) xs = map (view g) ys" for xs ys
    using that assms(2) by (auto simp: list_eq_iff_nth_eq)
  show ?thesis
    using assms(1) * by (auto simp: slice_view_def map_option_case split: option.splits)
qed

lemma load_LoadBalancers_view:
  "lb_list_view h l = lb_list_view g k \<Longrightarrow> load_LoadBalancers cluster h l = load_LoadBalancers cluster g k"
  unfolding load_LoadBalancers_def lb_list_view_def
  by (auto intro: slice_view_mono load_LoadBalancer_view)

lemma load_Endpoints_view:
  "ep_list_view h l = ep_list_view g k \<Longrightarrow> load_Endpoints cluster h l = load_Endpoints cluster g k"
  unfolding load_Endpoints_def ep_list_view_def
  by (auto intro: slice_view_mono load_Endpoint_view)

text \<open>All the deep copies, with the type their pointers have.\<close>

definition deep_copies :: "(kind \<times> (addr option \<Rightarrow> addr option mem)) list" where
  "deep_copies =
     [(KLoadBalancer, DNSLoadBalancer_DeepCopy), (KActive, DNSLoadBalancerActive_DeepCopy),
      (KEndpoint, DNSLoadBalancerEndpoint_DeepCopy), (KEndpointList, DNSLoadBalancerEndpointList_DeepCopy),
      (KEndpointSpec, DNSLoadBalancerEndpointSpec_DeepCopy),
      (KEndpointStatus, DNSLoadBalancerEndpointStatus_DeepCopy),
      (KLoadBalancerList, DNSLoadBalancerList_DeepCopy), (KSpec, DNSLoadBalancerSpec_DeepCopy),
      (KStatus, DNSLoadBalancerStatus_DeepCopy)]"

definition copy_typed :: "kind \<Rightarrow> (addr option \<Rightarrow> addr option mem) \<Rightarrow> heap \<Rightarrow> addr option \<Rightarrow> bool" where
  "copy_typed k copy h p \<longleftrightarrow>
     (case copy p h of
        Panic \<Rightarrow> False
      | Ok (q, h') \<Rightarrow> heap_ok h' \<and> heap_le h h' \<and> points h' k q \<and> (q = None \<longleftrightarrow> p = None))"

lemma copy_typedI:
  "\<exists>q h'. copy p h = Ok (q, h') \<and> heap_ok h' \<and> heap_le h h' \<and> points h' k q \<and> (q = None \<longleftrightarrow> p = None) \<Longrightarrow>
   copy_typed k copy h p"
  by (auto simp: copy_typed_def)

lemmas copy_funs = DNSLoadBalancer_DeepCopy_def DNSLoadBalancerActive_DeepCopy_def
  DNSLoadBalancerEndpoint_DeepCopy_def DNSLoadBalancerEndpointList_DeepCopy_def
  DNSLoadBalancerEndpointSpec_DeepCopy_def DNSLoadBalancerEndpointStatus_DeepCopy_def
  DNSLoadBalancerList_DeepCopy_def DNSLoadBalancerSpec_DeepCopy_def DNSLoadBalancerStatus_DeepCopy_def

lemma kind_cells:
  "kind_of c = KLoadBalancer \<Longrightarrow> \<exists>x. c = CLoadBalancer x" "kind_of c = KActive \<Longrightarrow> \<exists>x. c = CActive x"
  "kind_of c = KEndpoint \<Longrightarrow> \<exists>x. c = CEndpoint x" "kind_of c = KEndpointList \<Longrightarrow> \<exists>x. c = CEndpointList x"
  "kind_of c = KEndpointSpec \<Longrightarrow> \<exists>x. c = CEndpointSpec x"
  "kind_of c = KEndpointStatus \<Longrightarrow> \<exists>x. c = CEndpointStatus x"
  "kind_of c = KLoadBalancerList \<Longrightarrow> \<exists>x. c = CLoadBalancerList x" "kind_of c = KSpec \<Longrightarrow> \<exists>x. c = CSpec x"
  "kind_of c = KStatus \<Longrightarrow> \<exists>x. c = CStatus x"
  by (cases c; simp)+

lemmas copies_typed = lb_copy.deep_copy_typed active_copy.deep_copy_typed ep_copy.deep_copy_typed
  ep_list_copy.deep_copy_typed epspec_copy.deep_copy_typed epstatus_copy.deep_copy_typed
  lb_list_copy.deep_copy_typed spec_copy.deep_copy_typed status_copy.deep_copy_typed

text \<open>
  C34. The type property of the generated deep copies: on a store whose pointers all have the declared
  types, each of the nine \<open>DeepCopy\<close> functions returns for every pointer of its type, leaves a store
  that is typed again and keeps every cell there was, and gives a pointer of the same type, nil for
  nil and only then.
\<close>

theorem deep_copies_are_typed:
  assumes "(k, copy) \<in> set deep_copies" and "heap_ok h" and "points h k p"
  shows "copy_typed k copy h p"
  using assms(1) copies_typed [OF assms(2), simplified] assms(3) kind_cells
  by (auto simp: deep_copies_def copy_funs intro!: copy_typedI)

text \<open>
  A deep copy of a list of load balancers has the value of the original: the same type and list
  metadata, and elements that load as the same objects in the same order, metadata, specs and
  statuses included, whatever pointers, maps and slices they are made of.
\<close>

theorem list_copy_has_same_value:
  assumes "heap_ok h" and "h_cells h a = Some (CLoadBalancerList l)"
  shows "\<exists>b k h'. DNSLoadBalancerList_DeepCopy (Some a) h = Ok (Some b, h') \<and>
    h_cells h' b = Some (CLoadBalancerList k) \<and> pi_TypeMeta k = pi_TypeMeta l \<and> pi_ListMeta k = pi_ListMeta l \<and>
    load_LoadBalancers cluster h' k = load_LoadBalancers cluster h l"
proof -
  from lb_list_copy.deep_copy_isolated [OF assms] obtain b k h' where
    "DNSLoadBalancerList_DeepCopy (Some a) h = Ok (Some b, h')" "h_cells h' b = Some (CLoadBalancerList k)"
    and view: "lb_list_view h' k = lb_list_view h l"
    unfolding DNSLoadBalancerList_DeepCopy_def by blast
  moreover from view have "pi_TypeMeta k = pi_TypeMeta l" "pi_ListMeta k = pi_ListMeta l"
    by (simp_all add: lb_list_view_def)
  ultimately show ?thesis using load_LoadBalancers_view [OF view] by blast
qed


text \<open>
  The copy as a \<open>runtime.Object\<close>: a nil pointer gives the nil interface, not an interface that holds
  a nil pointer.
\<close>

lemma nil_object:
  "DNSLoadBalancer_DeepCopyObject None h = Ok (None, h)"
  "DNSLoadBalancerEndpoint_DeepCopyObject None h = Ok (None, h)"
  "DNSLoadBalancerList_DeepCopyObject None h = Ok (None, h)"
  "DNSLoadBalancerEndpointList_DeepCopyObject None h = Ok (None, h)"
  by (simp_all add: DNSLoadBalancer_DeepCopyObject_def DNSLoadBalancerEndpoint_DeepCopyObject_def
      DNSLoadBalancerList_DeepCopyObject_def DNSLoadBalancerEndpointList_DeepCopyObject_def as_object_def
      copy_funs deep_copy_def mem_bind_def mem_return_def)

lemma object_of_copy:
  assumes "DNSLoadBalancer_DeepCopy (Some a) h = Ok (Some b, h')"
  shows "DNSLoadBalancer_DeepCopyObject (Some a) h = Ok (Some (KLoadBalancer, Some b), h')"
  using assms by (simp add: DNSLoadBalancer_DeepCopyObject_def as_object_def mem_bind_def mem_return_def)

section \<open>Samples\<close>

text \<open>A list with a load balancer that is \<open>Active\<close>, and one with an endpoint.\<close>

definition sample_plb :: pLoadBalancer where
  "sample_plb = zero_LoadBalancer\<lparr>pl_Status := zero_Status\<lparr>pt_State := Some 0\<rparr>\<rparr>"

definition sample_pep :: pEndpoint where
  "sample_pep = zero_Endpoint\<lparr>pp_Status := zero_EndpointStatus\<lparr>pe_State := Some 0, pe_Healthy := True\<rparr>\<rparr>"

definition sample_plist :: pList where
  "sample_plist = zero_List\<lparr>pi_Items := Some 1\<rparr>"

definition sample_heap :: heap where
  "sample_heap =
     \<lparr>h_cells = [0 \<mapsto> CString ''Active'', 1 \<mapsto> CLoadBalancers [sample_plb], 2 \<mapsto> CLoadBalancerList sample_plist,
        3 \<mapsto> CEndpoints [sample_pep], 4 \<mapsto> CEndpointList (sample_plist\<lparr>pi_Items := Some 3\<rparr>)],
      h_next = 5\<rparr>"

lemmas sample_heap_defs = sample_heap_def sample_plb_def sample_pep_def sample_plist_def zero_defs

lemma sample_heap_ok: "heap_ok sample_heap"
proof -
  have "typed sample_heap lb_kinds (lb_fields sample_plb)" "typed sample_heap ep_kinds (ep_fields sample_pep)"
    by (simp_all add: sample_heap_defs lb_fields_def ep_fields_def meta_fields_def spec_fields_def
        status_fields_def epstatus_fields_def points_Some)
  then have "cell_ok sample_heap c" if "h_cells sample_heap a = Some c" for a c
    using that by (auto simp: sample_heap_def sample_plist_def points_Some split: if_splits)
  then show ?thesis by (auto simp: heap_ok_def) (auto simp: sample_heap_def split: if_splits)
qed

theorem deep_copies_are_typed_witness:
  "copy_typed KLoadBalancerList DNSLoadBalancerList_DeepCopy sample_heap (Some 2)"
  using sample_heap_ok
  by (intro deep_copies_are_typed) (simp_all add: deep_copies_def points_Some sample_heap_def)

theorem list_copy_has_same_value_witness:
  "\<exists>b k h'. DNSLoadBalancerList_DeepCopy (Some 2) sample_heap = Ok (Some b, h') \<and>
    h_cells h' b = Some (CLoadBalancerList k) \<and> pi_TypeMeta k = pi_TypeMeta sample_plist \<and>
    pi_ListMeta k = pi_ListMeta sample_plist \<and>
    load_LoadBalancers ''c'' h' k = load_LoadBalancers ''c'' sample_heap sample_plist"
  using sample_heap_ok by (rule list_copy_has_same_value) (simp add: sample_heap_def)


end
