(* ===== verification/Rest.thy ===== *)
theory Rest
  imports Api
begin

text \<open>
  Requests to the API server as \<open>k8s.io/client-go/rest\<close> builds them (\<open>request.go\<close>): the chained
  setters with their checks, the first error being kept, and the path of the URL, with the path
  functions of Go's standard library.
\<close>

section \<open>Paths\<close>

text \<open>\<open>path.Clean\<close>, the elements of the path one after the other.\<close>

definition clean_step :: "bool \<Rightarrow> string list \<Rightarrow> string \<Rightarrow> string list" where
  "clean_step rooted acc s =
     (if s = '''' \<or> s = ''.'' then acc
      else if s = ''..'' then
        (if acc \<noteq> [] \<and> last acc \<noteq> ''..'' then butlast acc
         else if rooted then acc else acc @ [s])
      else acc @ [s])"

definition path_Clean :: "string \<Rightarrow> string" where
  "path_Clean p =
     (let rooted = (take 1 p = ''/'');
          s = Join ''/'' (foldl (clean_step rooted) [] (Split CHR ''/'' p))
      in if rooted then ''/'' @ s else if s = '''' then ''.'' else s)"

definition path_Join :: "string list \<Rightarrow> string" where
  "path_Join elems =
     (case dropWhile (\<lambda>e. e = '''') elems of [] \<Rightarrow> '''' | es \<Rightarrow> path_Clean (Join ''/'' es))"

text \<open>A path from the root with the given elements.\<close>

definition rooted_path :: "string list \<Rightarrow> string" where
  "rooted_path ps = ''/'' @ Join ''/'' ps"

definition segment :: "string \<Rightarrow> bool" where
  "segment s \<longleftrightarrow> s \<noteq> '''' \<and> s \<noteq> ''.'' \<and> s \<noteq> ''..'' \<and> CHR ''/'' \<notin> set s"

text \<open>The elements of a path without dots.\<close>

abbreviation elements :: "string \<Rightarrow> string list" where
  "elements s \<equiv> filter (\<lambda>x. x \<noteq> '''') (Split CHR ''/'' s)"

lemma clean_steps:
  "(\<forall>s\<in>set ss. s \<noteq> ''.'' \<and> s \<noteq> ''..'') \<Longrightarrow> foldl (clean_step rooted) acc ss = acc @ filter (\<lambda>x. x \<noteq> '''') ss"
  by (induction ss arbitrary: acc) (auto simp: clean_step_def)

lemma Split_Cons_append: "Split c (s @ [c] @ t) = Split c s @ Split c t"
proof (induction s)
  case (Cons x xs)
  then show ?case by (cases "Split c xs") auto
qed simp

lemma Split_Join_concat: "ps \<noteq> [] \<Longrightarrow> Split c (Join [c] ps) = concat (map (Split c) ps)"
proof (induction "[c]" ps rule: Join.induct)
  case (3 p q ps)
  then show ?case using Split_Cons_append [of c p "Join [c] (q # ps)"] by simp
qed simp_all

lemma elements_Join: "elements (Join ''/'' ps) = concat (map elements ps)"
  by (cases "ps = []") (simp_all add: Split_Join_concat filter_concat comp_def)

definition dotless :: "string \<Rightarrow> bool" where
  "dotless s \<longleftrightarrow> (\<forall>x\<in>set (elements s). x \<noteq> ''.'' \<and> x \<noteq> ''..'')"

lemma Clean_dotless:
  assumes "dotless p"
  shows "path_Clean p = (let s = Join ''/'' (elements p) in
    if take 1 p = ''/'' then ''/'' @ s else if s = '''' then ''.'' else s)"
proof -
  have "\<forall>s\<in>set (Split CHR ''/'' p). s \<noteq> ''.'' \<and> s \<noteq> ''..''"
    using assms by (auto simp: dotless_def)
  then show ?thesis by (simp add: path_Clean_def clean_steps Let_def)
qed

lemma dotless_Join: "dotless (Join ''/'' ps) \<longleftrightarrow> (\<forall>p\<in>set ps. dotless p)"
  by (auto simp: dotless_def elements_Join)

lemma dotless_Nil [simp]: "dotless ''''"
  by (simp add: dotless_def)

lemma segment_elements [simp]: "segment s \<Longrightarrow> elements s = [s]"
  by (simp add: segment_def Split_no_sep)

lemma segment_dotless [simp]: "segment s \<Longrightarrow> dotless s"
  by (simp add: dotless_def segment_def Split_no_sep)

lemma elements_rooted [simp]: "\<forall>p\<in>set ps. segment p \<Longrightarrow> elements (rooted_path ps) = ps"
  unfolding rooted_path_def by (simp add: elements_Join) (induction ps; simp)

lemma dotless_rooted [simp]: "\<forall>p\<in>set ps. segment p \<Longrightarrow> dotless (rooted_path ps)"
  by (simp add: dotless_def) (auto simp: segment_def)

text \<open>Joining dotless paths to one from the root concatenates their elements.\<close>

lemma Join_rooted:
  assumes "\<forall>p\<in>set ps. segment p" and "\<forall>e\<in>set es. dotless e"
  shows "path_Join (rooted_path ps # es) = rooted_path (ps @ concat (map elements es))"
proof -
  have d: "dotless (Join ''/'' (rooted_path ps # es))"
    using assms by (simp only: dotless_Join) simp
  have "take 1 (Join ''/'' (rooted_path ps # es)) = ''/''"
    by (cases es) (simp_all add: rooted_path_def)
  then have "path_Clean (Join ''/'' (rooted_path ps # es)) =
      ''/'' @ Join ''/'' (elements (Join ''/'' (rooted_path ps # es)))"
    using Clean_dotless [OF d] by (simp add: Let_def)
  also have "elements (Join ''/'' (rooted_path ps # es)) = ps @ concat (map elements es)"
    using assms(1) by (simp only: elements_Join) simp
  finally show ?thesis
    by (simp add: path_Join_def rooted_path_def)
qed

lemma rooted_path_inject:
  assumes "\<forall>p\<in>set ps. segment p" and "\<forall>q\<in>set qs. segment q" and "rooted_path ps = rooted_path qs"
  shows "ps = qs"
  using assms elements_rooted by metis

section \<open>Checks of path segments\<close>

definition IsValidPathSegmentName :: "string \<Rightarrow> string list" where
  "IsValidPathSegmentName name =
     (if name = ''.'' then [''may not be '' @ [CHR 0x27] @ ''.'' @ [CHR 0x27]]
      else if name = ''..'' then [''may not be '' @ [CHR 0x27] @ ''..'' @ [CHR 0x27]]
      else (if CHR ''/'' \<in> set name then [''may not contain '' @ [CHR 0x27] @ ''/'' @ [CHR 0x27]] else []) @
           (if CHR ''%'' \<in> set name then [''may not contain '' @ [CHR 0x27] @ ''%'' @ [CHR 0x27]] else []))"

lemma valid_segment: "IsValidPathSegmentName s = [] \<Longrightarrow> s \<noteq> '''' \<Longrightarrow> segment s"
  by (auto simp: IsValidPathSegmentName_def segment_def split: if_splits)

lemma valid_dotless: "IsValidPathSegmentName s = [] \<Longrightarrow> dotless s"
  by (cases "s = ''''") (simp_all add: valid_segment)

text \<open>The verb \<open>%v\<close> on a slice of strings.\<close>

definition slice_String :: "string list \<Rightarrow> string" where
  "slice_String ms = ''['' @ Join '' '' ms @ '']''"

section \<open>Options and bodies\<close>

record ListOptions =
  lo_LabelSelector :: string
  lo_FieldSelector :: string
  lo_IncludeUninitialized :: bool
  lo_Watch :: bool
  lo_ResourceVersion :: string
  lo_TimeoutSeconds :: "int option"
  lo_Limit :: int
  lo_Continue :: string

record GetOptions =
  go_ResourceVersion :: string
  go_IncludeUninitialized :: bool

record DeleteOptions =
  del_GracePeriodSeconds :: "int option"
  del_PreconditionUID :: "string option"
  del_OrphanDependents :: "bool option"
  del_PropagationPolicy :: "string option"
  del_DryRun :: "string list"

datatype param = PString string | PBool bool | PInt int

text \<open>The query parameters of options, without those that are empty (\<open>omitempty\<close>).\<close>

definition encode_ListOptions :: "ListOptions \<Rightarrow> (string \<times> param) list" where
  "encode_ListOptions o' =
     (if lo_LabelSelector o' = '''' then [] else [(''labelSelector'', PString (lo_LabelSelector o'))]) @
     (if lo_FieldSelector o' = '''' then [] else [(''fieldSelector'', PString (lo_FieldSelector o'))]) @
     (if lo_IncludeUninitialized o' then [(''includeUninitialized'', PBool True)] else []) @
     (if lo_Watch o' then [(''watch'', PBool True)] else []) @
     (if lo_ResourceVersion o' = '''' then [] else [(''resourceVersion'', PString (lo_ResourceVersion o'))]) @
     (case lo_TimeoutSeconds o' of None \<Rightarrow> [] | Some t \<Rightarrow> [(''timeoutSeconds'', PInt t)]) @
     (if lo_Limit o' = 0 then [] else [(''limit'', PInt (lo_Limit o'))]) @
     (if lo_Continue o' = '''' then [] else [(''continue'', PString (lo_Continue o'))])"

definition encode_GetOptions :: "GetOptions \<Rightarrow> (string \<times> param) list" where
  "encode_GetOptions o' =
     (if go_ResourceVersion o' = '''' then [] else [(''resourceVersion'', PString (go_ResourceVersion o'))]) @
     (if go_IncludeUninitialized o' then [(''includeUninitialized'', PBool True)] else [])"

datatype api_object = LoadBalancerObject DNSLoadBalancer | EndpointObject DNSLoadBalancerEndpoint

datatype body = ObjectBody api_object | OptionsBody DeleteOptions | DataBody string

section \<open>Requests\<close>

record Request =
  rq_verb :: string
  rq_pathPrefix :: string
  rq_params :: "(string \<times> param) list"
  rq_contentType :: string
  rq_namespace :: string
  rq_namespaceSet :: bool
  rq_resource :: string
  rq_resourceName :: string
  rq_subresource :: string
  rq_err :: "go_error option"
  rq_body :: "body option"

text \<open>A REST client with the path of its base URL and the versioned path of its API.\<close>

record RESTClient =
  rc_base :: string
  rc_versionedAPIPath :: string

definition NewRequest :: "RESTClient \<Rightarrow> string \<Rightarrow> Request" where
  "NewRequest c verb =
     \<lparr>rq_verb = verb, rq_pathPrefix = path_Join [path_Join [''/'', rc_base c], rc_versionedAPIPath c],
      rq_params = [], rq_contentType = '''', rq_namespace = '''', rq_namespaceSet = False, rq_resource = '''',
      rq_resourceName = '''', rq_subresource = '''', rq_err = None, rq_body = None\<rparr>"

definition set_err :: "string \<Rightarrow> Request \<Rightarrow> Request" where
  "set_err m r = r\<lparr>rq_err := Some (OtherError m)\<rparr>"

definition Resource :: "string \<Rightarrow> Request \<Rightarrow> Request" where
  "Resource resource r =
     (if rq_err r \<noteq> None then r
      else if rq_resource r \<noteq> '''' then
        set_err (''resource already set to '' @ quoted (rq_resource r) @ '', cannot change to '' @ quoted resource) r
      else let msgs = IsValidPathSegmentName resource in
      if msgs \<noteq> [] then set_err (''invalid resource '' @ quoted resource @ '': '' @ slice_String msgs) r
      else r\<lparr>rq_resource := resource\<rparr>)"

fun invalid_subresource :: "string list \<Rightarrow> Request \<Rightarrow> Request option" where
  "invalid_subresource [] r = None"
| "invalid_subresource (s # ss) r =
     (let msgs = IsValidPathSegmentName s in
      if msgs \<noteq> [] then Some (set_err (''invalid subresource '' @ quoted s @ '': '' @ slice_String msgs) r)
      else invalid_subresource ss r)"

definition SubResource :: "string list \<Rightarrow> Request \<Rightarrow> Request" where
  "SubResource subresources r =
     (if rq_err r \<noteq> None then r
      else let subresource = path_Join subresources in
      if rq_subresource r \<noteq> '''' then
        set_err (''subresource already set to '' @ quoted (rq_resource r) @ '', cannot change to '' @
          quoted subresource) r
      else case invalid_subresource subresources r of
        Some r' \<Rightarrow> r'
      | None \<Rightarrow> r\<lparr>rq_subresource := subresource\<rparr>)"

definition Name :: "string \<Rightarrow> Request \<Rightarrow> Request" where
  "Name resourceName r =
     (if rq_err r \<noteq> None then r
      else if resourceName = '''' then set_err ''resource name may not be empty'' r
      else if rq_resourceName r \<noteq> '''' then
        set_err (''resource name already set to '' @ quoted (rq_resourceName r) @ '', cannot change to '' @
          quoted resourceName) r
      else let msgs = IsValidPathSegmentName resourceName in
      if msgs \<noteq> [] then set_err (''invalid resource name '' @ quoted resourceName @ '': '' @ slice_String msgs) r
      else r\<lparr>rq_resourceName := resourceName\<rparr>)"

definition Namespace :: "string \<Rightarrow> Request \<Rightarrow> Request" where
  "Namespace namespace r =
     (if rq_err r \<noteq> None then r
      else if rq_namespaceSet r then
        set_err (''namespace already set to '' @ quoted (rq_namespace r) @ '', cannot change to '' @
          quoted namespace) r
      else let msgs = IsValidPathSegmentName namespace in
      if msgs \<noteq> [] then set_err (''invalid namespace '' @ quoted namespace @ '': '' @ slice_String msgs) r
      else r\<lparr>rq_namespaceSet := True, rq_namespace := namespace\<rparr>)"

definition VersionedParams :: "(string \<times> param) list \<Rightarrow> Request \<Rightarrow> Request" where
  "VersionedParams params r = (if rq_err r \<noteq> None then r else r\<lparr>rq_params := rq_params r @ params\<rparr>)"

text \<open>A body that is a nil object or nil options is left out.\<close>

definition Body :: "body option \<Rightarrow> Request \<Rightarrow> Request" where
  "Body obj r =
     (if rq_err r \<noteq> None then r
      else case obj of
        None \<Rightarrow> r
      | Some (DataBody _) \<Rightarrow> r\<lparr>rq_body := obj\<rparr>
      | Some _ \<Rightarrow> r\<lparr>rq_body := obj, rq_contentType := ''application/json''\<rparr>)"

definition URL_path :: "Request \<Rightarrow> string" where
  "URL_path r =
     (let p = rq_pathPrefix r;
          p = (if rq_namespaceSet r \<and> rq_namespace r \<noteq> '''' then path_Join [p, ''namespaces'', rq_namespace r] else p);
          p = (if rq_resource r \<noteq> '''' then path_Join [p, ToLower (rq_resource r)] else p)
      in if rq_resourceName r \<noteq> '''' \<or> rq_subresource r \<noteq> ''''
         then path_Join [p, rq_resourceName r, rq_subresource r, ''''] else p)"

end
