(* ===== verification/Client.thy ===== *)
theory Client
  imports Rest Memory
begin

text \<open>
  The typed clients of \<open>pkg/client/clientset/versioned/typed/loadbalancer/v1beta1\<close>: the request each
  method builds and what it makes of the answer. The API server is a parameter.
\<close>

section \<open>The server's answer\<close>

record 'o ObjectList =
  ol_ListMeta :: ListMeta
  ol_Items :: "'o list"

text \<open>
  A reply holds what its body decodes to; a status is a failure or a success. A watch answers a
  handle.
\<close>

datatype reply =
    ReplyObject api_object
  | ReplyLoadBalancers "DNSLoadBalancer ObjectList"
  | ReplyEndpoints "DNSLoadBalancerEndpoint ObjectList"
  | ReplyStatus "go_error option"
  | ReplyWatch nat

type_synonym 'w server = "Request \<Rightarrow> 'w \<Rightarrow> (go_error + reply) \<times> 'w"

definition empty_namespace :: "Request \<Rightarrow> string option" where
  "empty_namespace r =
     (if rq_verb r \<in> {''GET'', ''PUT'', ''DELETE''} \<and> rq_namespaceSet r \<and> rq_resourceName r \<noteq> '''' \<and> rq_namespace r = ''''
      then Some ''an empty namespace may not be set when a resource name is provided''
      else if rq_verb r = ''POST'' \<and> rq_namespaceSet r \<and> rq_namespace r = ''''
      then Some ''an empty namespace may not be set during creation''
      else None)"

definition Do :: "'w server \<Rightarrow> Request \<Rightarrow> 'w \<Rightarrow> (go_error + reply) \<times> 'w" where
  "Do srv r w =
     (case rq_err r of
        Some e \<Rightarrow> (Inl e, w)
      | None \<Rightarrow> (case empty_namespace r of Some m \<Rightarrow> (Inl (OtherError m), w) | None \<Rightarrow> srv r w))"

definition rest_Watch :: "'w server \<Rightarrow> Request \<Rightarrow> 'w \<Rightarrow> (nat option \<times> go_error option) \<times> 'w" where
  "rest_Watch srv r w =
     (case rq_err r of
        Some e \<Rightarrow> ((None, Some e), w)
      | None \<Rightarrow> (case srv r w of
          (Inl e, w) \<Rightarrow> ((None, Some e), w)
        | (Inr (ReplyWatch n), w) \<Rightarrow> ((Some n, None), w)
        | (Inr (ReplyStatus (Some e)), w) \<Rightarrow> ((None, Some e), w)
        | (Inr _, w) \<Rightarrow> ((None, None), w)))"

text \<open>\<open>Into\<close> decodes into an empty object, which it leaves empty when the reply is of another type.\<close>

definition Into :: "'r \<Rightarrow> (reply \<Rightarrow> 'r option) \<Rightarrow> (go_error + reply) \<times> 'w \<Rightarrow> ('r \<times> go_error option) \<times> 'w" where
  "Into result decode res =
     (case res of
        (Inl e, w) \<Rightarrow> ((result, Some e), w)
      | (Inr (ReplyStatus (Some e)), w) \<Rightarrow> ((result, Some e), w)
      | (Inr rep, w) \<Rightarrow> ((case decode rep of None \<Rightarrow> result | Some x \<Rightarrow> x, None), w))"

definition result_Error :: "(go_error + reply) \<times> 'w \<Rightarrow> go_error option \<times> 'w" where
  "result_Error res = (case res of (Inl e, w) \<Rightarrow> (Some e, w) | (Inr (ReplyStatus e), w) \<Rightarrow> (e, w) | (Inr _, w) \<Rightarrow> (None, w))"

section \<open>The requests\<close>

text \<open>\<open>dNSLoadBalancers\<close> and \<open>dNSLoadBalancerEndpoints\<close>: a client for a namespace.\<close>

record typed_client =
  tc_client :: RESTClient
  tc_ns :: string

definition rest_Patch :: "RESTClient \<Rightarrow> string \<Rightarrow> Request" where
  "rest_Patch c pt = (NewRequest c ''PATCH'')\<lparr>rq_contentType := pt\<rparr>"

definition get_request :: "string \<Rightarrow> typed_client \<Rightarrow> string \<Rightarrow> GetOptions \<Rightarrow> Request" where
  "get_request resource c name options =
     VersionedParams (encode_GetOptions options)
       (Name name (Resource resource (Namespace (tc_ns c) (NewRequest (tc_client c) ''GET''))))"

definition list_request :: "string \<Rightarrow> typed_client \<Rightarrow> ListOptions \<Rightarrow> Request" where
  "list_request resource c opts =
     VersionedParams (encode_ListOptions opts)
       (Resource resource (Namespace (tc_ns c) (NewRequest (tc_client c) ''GET'')))"

definition watch_request :: "string \<Rightarrow> typed_client \<Rightarrow> ListOptions \<Rightarrow> Request" where
  "watch_request resource c opts =
     (let opts = opts\<lparr>lo_Watch := True\<rparr>
      in VersionedParams (encode_ListOptions opts)
           (Resource resource (Namespace (tc_ns c) (NewRequest (tc_client c) ''GET''))))"

definition create_request :: "string \<Rightarrow> typed_client \<Rightarrow> api_object option \<Rightarrow> Request" where
  "create_request resource c obj =
     Body (map_option ObjectBody obj) (Resource resource (Namespace (tc_ns c) (NewRequest (tc_client c) ''POST'')))"

definition update_request :: "string \<Rightarrow> typed_client \<Rightarrow> string \<Rightarrow> api_object \<Rightarrow> Request" where
  "update_request resource c name obj =
     Body (Some (ObjectBody obj))
       (Name name (Resource resource (Namespace (tc_ns c) (NewRequest (tc_client c) ''PUT''))))"

definition updateStatus_request :: "string \<Rightarrow> typed_client \<Rightarrow> string \<Rightarrow> api_object \<Rightarrow> Request" where
  "updateStatus_request resource c name obj =
     Body (Some (ObjectBody obj))
       (SubResource [''status'']
         (Name name (Resource resource (Namespace (tc_ns c) (NewRequest (tc_client c) ''PUT'')))))"

definition delete_request :: "string \<Rightarrow> typed_client \<Rightarrow> string \<Rightarrow> DeleteOptions option \<Rightarrow> Request" where
  "delete_request resource c name options =
     Body (map_option OptionsBody options)
       (Name name (Resource resource (Namespace (tc_ns c) (NewRequest (tc_client c) ''DELETE''))))"

definition deleteCollection_request :: "string \<Rightarrow> typed_client \<Rightarrow> DeleteOptions option \<Rightarrow> ListOptions \<Rightarrow> Request" where
  "deleteCollection_request resource c options listOptions =
     Body (map_option OptionsBody options)
       (VersionedParams (encode_ListOptions listOptions)
         (Resource resource (Namespace (tc_ns c) (NewRequest (tc_client c) ''DELETE''))))"

definition patch_request ::
  "string \<Rightarrow> typed_client \<Rightarrow> string \<Rightarrow> string \<Rightarrow> string \<Rightarrow> string list \<Rightarrow> Request" where
  "patch_request resource c name pt data subresources =
     Body (Some (DataBody data))
       (Name name (SubResource subresources (Resource resource (Namespace (tc_ns c) (rest_Patch (tc_client c) pt)))))"

lemmas request_defs = get_request_def list_request_def watch_request_def create_request_def update_request_def
  updateStatus_request_def delete_request_def deleteCollection_request_def patch_request_def rest_Patch_def

section \<open>Load balancers\<close>

definition no_meta :: ObjectMeta where
  "no_meta = \<lparr>m_cluster = '''', m_namespace = '''', m_name = '''', m_generateName = '''', m_uid = '''',
     m_resourceVersion = '''', m_labels = None, m_annotations = (\<lambda>_. None), m_finalizers = [],
     m_ownerReferences = [], m_creationTimestamp = 0, m_deletionTimestamp = None\<rparr>"

definition empty_lb :: DNSLoadBalancer where
  "empty_lb = \<lparr>lb_meta = no_meta,
     lb_spec = \<lparr>DNSName = '''', HealthPath = '''', StatusCode = 0, Type = '''', TTL = None, Singleton = None,
       EndpointValidityInterval = None\<rparr>,
     lb_status = \<lparr>lbs_State = None, lbs_Message = None, lbs_Active = None\<rparr>\<rparr>"

definition empty_ep :: DNSLoadBalancerEndpoint where
  "empty_ep = \<lparr>ep_meta = no_meta, ep_spec = \<lparr>LoadBalancerRef = '''', IPAddress = '''', CName = ''''\<rparr>,
     ep_status = \<lparr>eps_State = None, eps_Message = None, eps_Healthy = False, eps_ValidUntil = None\<rparr>\<rparr>"

definition empty_list :: "'o ObjectList" where
  "empty_list = \<lparr>ol_ListMeta = \<lparr>lm_selfLink = '''', lm_resourceVersion = '''', lm_continue = ''''\<rparr>, ol_Items = []\<rparr>"

abbreviation dnsloadbalancers :: string where "dnsloadbalancers \<equiv> ''dnsloadbalancers''"
abbreviation dnsloadbalancerendpoints :: string where "dnsloadbalancerendpoints \<equiv> ''dnsloadbalancerendpoints''"

fun decode_lb :: "reply \<Rightarrow> DNSLoadBalancer option" where
  "decode_lb (ReplyObject (LoadBalancerObject lb)) = Some lb" | "decode_lb _ = None"
fun decode_lbs :: "reply \<Rightarrow> DNSLoadBalancer ObjectList option" where
  "decode_lbs (ReplyLoadBalancers l) = Some l" | "decode_lbs _ = None"
fun decode_ep :: "reply \<Rightarrow> DNSLoadBalancerEndpoint option" where
  "decode_ep (ReplyObject (EndpointObject ep)) = Some ep" | "decode_ep _ = None"
fun decode_eps :: "reply \<Rightarrow> DNSLoadBalancerEndpoint ObjectList option" where
  "decode_eps (ReplyEndpoints l) = Some l" | "decode_eps _ = None"

definition lbs_Get where
  "lbs_Get srv c name options w = Into empty_lb decode_lb (Do srv (get_request dnsloadbalancers c name options) w)"

definition lbs_List where
  "lbs_List srv c opts w = Into empty_list decode_lbs (Do srv (list_request dnsloadbalancers c opts) w)"

definition lbs_Watch where
  "lbs_Watch srv c opts w = rest_Watch srv (watch_request dnsloadbalancers c opts) w"

definition lbs_Create where
  "lbs_Create srv c lb w =
     Into empty_lb decode_lb (Do srv (create_request dnsloadbalancers c (map_option LoadBalancerObject lb)) w)"

text \<open>\<open>Update\<close> reads the name of the object, which panics on nil.\<close>

definition lbs_Update where
  "lbs_Update srv c lb w =
     (case lb of None \<Rightarrow> Panic
      | Some o' \<Rightarrow> Ok (Into empty_lb decode_lb
          (Do srv (update_request dnsloadbalancers c (m_name (lb_meta o')) (LoadBalancerObject o')) w)))"

definition lbs_UpdateStatus where
  "lbs_UpdateStatus srv c lb w =
     (case lb of None \<Rightarrow> Panic
      | Some o' \<Rightarrow> Ok (Into empty_lb decode_lb
          (Do srv (updateStatus_request dnsloadbalancers c (m_name (lb_meta o')) (LoadBalancerObject o')) w)))"

definition lbs_Delete where
  "lbs_Delete srv c name options w = result_Error (Do srv (delete_request dnsloadbalancers c name options) w)"

definition lbs_DeleteCollection where
  "lbs_DeleteCollection srv c options listOptions w =
     result_Error (Do srv (deleteCollection_request dnsloadbalancers c options listOptions) w)"

definition lbs_Patch where
  "lbs_Patch srv c name pt data subresources w =
     Into empty_lb decode_lb (Do srv (patch_request dnsloadbalancers c name pt data subresources) w)"

section \<open>Endpoints\<close>

definition eps_Get where
  "eps_Get srv c name options w = Into empty_ep decode_ep (Do srv (get_request dnsloadbalancerendpoints c name options) w)"

definition eps_List where
  "eps_List srv c opts w = Into empty_list decode_eps (Do srv (list_request dnsloadbalancerendpoints c opts) w)"

definition eps_Watch where
  "eps_Watch srv c opts w = rest_Watch srv (watch_request dnsloadbalancerendpoints c opts) w"

definition eps_Create where
  "eps_Create srv c ep w =
     Into empty_ep decode_ep (Do srv (create_request dnsloadbalancerendpoints c (map_option EndpointObject ep)) w)"

definition eps_Update where
  "eps_Update srv c ep w =
     (case ep of None \<Rightarrow> Panic
      | Some o' \<Rightarrow> Ok (Into empty_ep decode_ep
          (Do srv (update_request dnsloadbalancerendpoints c (m_name (ep_meta o')) (EndpointObject o')) w)))"

definition eps_UpdateStatus where
  "eps_UpdateStatus srv c ep w =
     (case ep of None \<Rightarrow> Panic
      | Some o' \<Rightarrow> Ok (Into empty_ep decode_ep
          (Do srv (updateStatus_request dnsloadbalancerendpoints c (m_name (ep_meta o')) (EndpointObject o')) w)))"

definition eps_Delete where
  "eps_Delete srv c name options w = result_Error (Do srv (delete_request dnsloadbalancerendpoints c name options) w)"

definition eps_DeleteCollection where
  "eps_DeleteCollection srv c options listOptions w =
     result_Error (Do srv (deleteCollection_request dnsloadbalancerendpoints c options listOptions) w)"

definition eps_Patch where
  "eps_Patch srv c name pt data subresources w =
     Into empty_ep decode_ep (Do srv (patch_request dnsloadbalancerendpoints c name pt data subresources) w)"

section \<open>The client of the API group\<close>

text \<open>
  \<open>rest.Config\<close>, with the fields the clientset sets or reads. The group version is
  \<open>loadbalancer.gardener.cloud/v1beta1\<close> once the defaults are set; a rate limiter is a handle.
\<close>

record Config =
  cf_Host :: string
  cf_APIPath :: string
  cf_GroupVersion :: "(string \<times> string) option"
  cf_UserAgent :: string
  cf_QPS :: int
  cf_Burst :: int
  cf_RateLimiter :: "(int \<times> int) option"

definition SchemeGroupVersion :: "string \<times> string" where
  "SchemeGroupVersion = (GroupName, ''v1beta1'')"

definition setConfigDefaults :: "string \<Rightarrow> Config \<Rightarrow> Config" where
  "setConfigDefaults userAgent config =
     (let config = config\<lparr>cf_GroupVersion := Some SchemeGroupVersion, cf_APIPath := ''/apis''\<rparr>
      in if cf_UserAgent config = '''' then config\<lparr>cf_UserAgent := userAgent\<rparr> else config)"

text \<open>The path of the API a client for a configuration uses, \<open>rest.DefaultVersionedAPIPath\<close>.\<close>

definition DefaultVersionedAPIPath :: "string \<Rightarrow> string \<times> string \<Rightarrow> string" where
  "DefaultVersionedAPIPath apiPath gv =
     (let versionedAPIPath = path_Join [''/'', apiPath]
      in if fst gv \<noteq> '''' then path_Join [versionedAPIPath, fst gv, snd gv]
         else path_Join [versionedAPIPath, snd gv])"

text \<open>
  The environment: the default user agent, \<open>rest.RESTClientFor\<close> and the discovery client for a
  configuration, both of which can fail.
\<close>

record 'd client_env =
  en_userAgent :: string
  en_RESTClientFor :: "Config \<Rightarrow> go_error + RESTClient"
  en_DiscoveryFor :: "Config \<Rightarrow> go_error + 'd"
  en_Discovery :: "RESTClient \<Rightarrow> 'd"

definition group_NewForConfig :: "'d client_env \<Rightarrow> Config \<Rightarrow> go_error + RESTClient" where
  "group_NewForConfig env c = en_RESTClientFor env (setConfigDefaults (en_userAgent env) c)"

definition group_NewForConfigOrDie :: "'d client_env \<Rightarrow> Config \<Rightarrow> RESTClient outcome" where
  "group_NewForConfigOrDie env c = (case group_NewForConfig env c of Inl _ \<Rightarrow> Panic | Inr client \<Rightarrow> Ok client)"

definition group_New :: "RESTClient \<Rightarrow> RESTClient" where
  "group_New c = c"

definition group_RESTClient :: "RESTClient option \<Rightarrow> RESTClient option" where
  "group_RESTClient c = c"

definition newDNSLoadBalancers :: "RESTClient \<Rightarrow> string \<Rightarrow> typed_client" where
  "newDNSLoadBalancers c namespace = \<lparr>tc_client = c, tc_ns = namespace\<rparr>"

definition newDNSLoadBalancerEndpoints :: "RESTClient \<Rightarrow> string \<Rightarrow> typed_client" where
  "newDNSLoadBalancerEndpoints c namespace = \<lparr>tc_client = c, tc_ns = namespace\<rparr>"

definition group_DNSLoadBalancers :: "RESTClient \<Rightarrow> string \<Rightarrow> typed_client" where
  "group_DNSLoadBalancers c namespace = newDNSLoadBalancers c namespace"

definition group_DNSLoadBalancerEndpoints :: "RESTClient \<Rightarrow> string \<Rightarrow> typed_client" where
  "group_DNSLoadBalancerEndpoints c namespace = newDNSLoadBalancerEndpoints c namespace"

section \<open>The clientset\<close>

record 'd Clientset =
  cs_DiscoveryClient :: 'd
  cs_loadbalancerV1beta1 :: RESTClient

definition cs_LoadbalancerV1beta1 :: "'d Clientset \<Rightarrow> RESTClient" where
  "cs_LoadbalancerV1beta1 c = cs_loadbalancerV1beta1 c"

definition cs_Loadbalancer :: "'d Clientset \<Rightarrow> RESTClient" where
  "cs_Loadbalancer c = cs_loadbalancerV1beta1 c"

definition cs_Discovery :: "'d Clientset option \<Rightarrow> 'd option" where
  "cs_Discovery c = (case c of None \<Rightarrow> None | Some cs \<Rightarrow> Some (cs_DiscoveryClient cs))"

definition cs_NewForConfig :: "'d client_env \<Rightarrow> Config \<Rightarrow> go_error + 'd Clientset" where
  "cs_NewForConfig env c =
     (let configShallowCopy = (if cf_RateLimiter c = None \<and> cf_QPS c > 0
            then c\<lparr>cf_RateLimiter := Some (cf_QPS c, cf_Burst c)\<rparr> else c)
      in case group_NewForConfig env configShallowCopy of
           Inl err \<Rightarrow> Inl err
         | Inr client \<Rightarrow> (case en_DiscoveryFor env configShallowCopy of
             Inl err \<Rightarrow> Inl err
           | Inr d \<Rightarrow> Inr \<lparr>cs_DiscoveryClient = d, cs_loadbalancerV1beta1 = client\<rparr>))"

definition cs_NewForConfigOrDie :: "'d client_env \<Rightarrow> Config \<Rightarrow> 'd Clientset outcome" where
  "cs_NewForConfigOrDie env c =
     bind_outcome (group_NewForConfigOrDie env c) (\<lambda>client.
       case en_DiscoveryFor env c of
         Inl _ \<Rightarrow> Panic
       | Inr d \<Rightarrow> Ok \<lparr>cs_DiscoveryClient = d, cs_loadbalancerV1beta1 = client\<rparr>)"

definition cs_New :: "'d client_env \<Rightarrow> RESTClient \<Rightarrow> 'd Clientset" where
  "cs_New env c = \<lparr>cs_DiscoveryClient = en_Discovery env c, cs_loadbalancerV1beta1 = group_New c\<rparr>"

end
