(* ===== verification/Tracker.thy ===== *)
theory Tracker
  imports Client
begin

text \<open>
  The test doubles of \<open>k8s.io/client-go/testing\<close> the fake clientset is built of: actions
  (\<open>actions.go\<close>), the recording and dispatching \<open>Fake\<close> (\<open>fake.go\<close>) and the object tracker
  (\<open>fixture.go\<close>). Parsing selectors and merging patches are parameters.
\<close>

section \<open>Actions\<close>

record GroupVersionResource =
  gvr_Group :: string
  gvr_Version :: string
  gvr_Resource :: string

record ActionImpl =
  ac_Namespace :: string
  ac_Verb :: string
  ac_Resource :: GroupVersionResource
  ac_Subresource :: string

text \<open>A selector is the predicate it stands for; those of fields are kept as text.\<close>

type_synonym labels = "string \<rightharpoonup> string"

record ListRestrictions =
  re_Labels :: "labels \<Rightarrow> bool"
  re_Fields :: string

text \<open>The types that implement \<open>Action\<close>; a nil object is \<open>None\<close>.\<close>

datatype Action =
    GetActionImpl ActionImpl string
  | ListActionImpl ActionImpl string ListRestrictions
  | CreateActionImpl ActionImpl "api_object option"
  | UpdateActionImpl ActionImpl "api_object option"
  | DeleteActionImpl ActionImpl string
  | DeleteCollectionActionImpl ActionImpl ListRestrictions
  | PatchActionImpl ActionImpl string string
  | WatchActionImpl ActionImpl ListRestrictions string

fun action_impl :: "Action \<Rightarrow> ActionImpl" where
  "action_impl (GetActionImpl a _) = a"
| "action_impl (ListActionImpl a _ _) = a"
| "action_impl (CreateActionImpl a _) = a"
| "action_impl (UpdateActionImpl a _) = a"
| "action_impl (DeleteActionImpl a _) = a"
| "action_impl (DeleteCollectionActionImpl a _) = a"
| "action_impl (PatchActionImpl a _ _) = a"
| "action_impl (WatchActionImpl a _ _) = a"

definition impl :: "string \<Rightarrow> GroupVersionResource \<Rightarrow> string \<Rightarrow> string \<Rightarrow> ActionImpl" where
  "impl verb resource subresource namespace =
     \<lparr>ac_Namespace = namespace, ac_Verb = verb, ac_Resource = resource, ac_Subresource = subresource\<rparr>"

text \<open>Parsing a label selector; \<open>None\<close> when the text is not one, which makes the fake panic.\<close>

type_synonym selector_parser = "string \<Rightarrow> (labels \<Rightarrow> bool) option"

definition ExtractFromListOptions :: "selector_parser \<Rightarrow> ListOptions \<Rightarrow> (ListRestrictions \<times> string) outcome" where
  "ExtractFromListOptions parse opts =
     (case parse (lo_LabelSelector opts) of
        None \<Rightarrow> Panic
      | Some sel \<Rightarrow> Ok (\<lparr>re_Labels = sel, re_Fields = lo_FieldSelector opts\<rparr>, lo_ResourceVersion opts))"

definition NewGetAction where
  "NewGetAction resource namespace name = GetActionImpl (impl ''get'' resource '''' namespace) name"

definition NewListAction where
  "NewListAction parse resource kind namespace opts =
     bind_outcome (ExtractFromListOptions parse opts)
       (\<lambda>(re, _). Ok (ListActionImpl (impl ''list'' resource '''' namespace) kind re))"

definition NewCreateAction where
  "NewCreateAction resource namespace obj = CreateActionImpl (impl ''create'' resource '''' namespace) obj"

definition NewUpdateAction where
  "NewUpdateAction resource namespace obj = UpdateActionImpl (impl ''update'' resource '''' namespace) obj"

definition NewUpdateSubresourceAction where
  "NewUpdateSubresourceAction resource subresource namespace obj =
     UpdateActionImpl (impl ''update'' resource subresource namespace) obj"

definition NewDeleteAction where
  "NewDeleteAction resource namespace name = DeleteActionImpl (impl ''delete'' resource '''' namespace) name"

definition NewDeleteCollectionAction where
  "NewDeleteCollectionAction parse resource namespace opts =
     bind_outcome (ExtractFromListOptions parse opts)
       (\<lambda>(re, _). Ok (DeleteCollectionActionImpl (impl ''delete-collection'' resource '''' namespace) re))"

definition NewPatchSubresourceAction where
  "NewPatchSubresourceAction resource namespace name patch subresources =
     PatchActionImpl (impl ''patch'' resource (path_Join subresources) namespace) name patch"

definition NewWatchAction where
  "NewWatchAction parse resource namespace opts =
     bind_outcome (ExtractFromListOptions parse opts)
       (\<lambda>(re, rv). Ok (WatchActionImpl (impl ''watch'' resource '''' namespace) re rv))"

section \<open>The object tracker\<close>

fun obj_meta :: "api_object \<Rightarrow> ObjectMeta" where
  "obj_meta (LoadBalancerObject lb) = lb_meta lb"
| "obj_meta (EndpointObject ep) = ep_meta ep"

fun set_obj_namespace :: "string \<Rightarrow> api_object \<Rightarrow> api_object" where
  "set_obj_namespace ns (LoadBalancerObject lb) = LoadBalancerObject (lb\<lparr>lb_meta := (lb_meta lb)\<lparr>m_namespace := ns\<rparr>\<rparr>)"
| "set_obj_namespace ns (EndpointObject ep) = EndpointObject (ep\<lparr>ep_meta := (ep_meta ep)\<lparr>m_namespace := ns\<rparr>\<rparr>)"

abbreviation obj_namespace :: "api_object \<Rightarrow> string" where "obj_namespace x \<equiv> m_namespace (obj_meta x)"
abbreviation obj_name :: "api_object \<Rightarrow> string" where "obj_name x \<equiv> m_name (obj_meta x)"

datatype event = Added api_object | Modified api_object | Deleted api_object

text \<open>A watcher of a resource in a namespace (of all for the empty one) with the events it was sent.\<close>

record watcher =
  wa_gvr :: GroupVersionResource
  wa_ns :: string
  wa_events :: "event list"

record tracker =
  tr_objects :: "GroupVersionResource \<rightharpoonup> api_object list"
  tr_watchers :: "watcher list"

definition NewObjectTracker :: tracker where
  "NewObjectTracker = \<lparr>tr_objects = (\<lambda>_. None), tr_watchers = []\<rparr>"

definition GroupResource_String :: "GroupVersionResource \<Rightarrow> string" where
  "GroupResource_String gvr =
     (if gvr_Group gvr = '''' then gvr_Resource gvr else gvr_Resource gvr @ ''.'' @ gvr_Group gvr)"

definition NewNotFound :: "GroupVersionResource \<Rightarrow> string \<Rightarrow> go_error" where
  "NewNotFound gvr name = NotFoundError (GroupResource_String gvr @ '' '' @ quoted name @ '' not found'')"

definition NewAlreadyExists :: "GroupVersionResource \<Rightarrow> string \<Rightarrow> go_error" where
  "NewAlreadyExists gvr name = AlreadyExistsError (GroupResource_String gvr @ '' '' @ quoted name @ '' already exists'')"

text \<open>The objects of a resource, none for one that never had any.\<close>

definition objects_of :: "GroupVersionResource \<Rightarrow> tracker \<Rightarrow> api_object list" where
  "objects_of gvr t = (case tr_objects t gvr of None \<Rightarrow> [] | Some xs \<Rightarrow> xs)"

definition filterByNamespaceAndName :: "api_object list \<Rightarrow> string \<Rightarrow> string \<Rightarrow> api_object list" where
  "filterByNamespaceAndName xs ns name =
     filter (\<lambda>x. \<not> (ns \<noteq> '''' \<and> obj_namespace x \<noteq> ns) \<and> \<not> (name \<noteq> '''' \<and> obj_name x \<noteq> name)) xs"

text \<open>A list of a kind takes objects of this kind only.\<close>

fun object_kind :: "api_object \<Rightarrow> string" where
  "object_kind (LoadBalancerObject _) = ''DNSLoadBalancer''"
| "object_kind (EndpointObject _) = ''DNSLoadBalancerEndpoint''"

definition tracker_List ::
  "GroupVersionResource \<Rightarrow> string \<Rightarrow> string \<Rightarrow> tracker \<Rightarrow> go_error + api_object list" where
  "tracker_List gvr kind ns t =
     (case tr_objects t gvr of
        None \<Rightarrow> Inr []
      | Some xs \<Rightarrow>
          (let matchingObjs = filterByNamespaceAndName xs ns ''''
           in if list_all (\<lambda>x. object_kind x = kind) matchingObjs then Inr matchingObjs
              else Inl (OtherError ''cannot assign or convert'')))"

definition tracker_Get :: "GroupVersionResource \<Rightarrow> string \<Rightarrow> string \<Rightarrow> tracker \<Rightarrow> go_error + api_object" where
  "tracker_Get gvr ns name t =
     (case tr_objects t gvr of
        None \<Rightarrow> Inl (NewNotFound gvr name)
      | Some xs \<Rightarrow>
          (case filterByNamespaceAndName xs ns name of
             [] \<Rightarrow> Inl (NewNotFound gvr name)
           | [x] \<Rightarrow> Inr x
           | _ \<Rightarrow> Inl (OtherError ''more than one object matched'')))"

definition notify :: "GroupVersionResource \<Rightarrow> string \<Rightarrow> event \<Rightarrow> tracker \<Rightarrow> tracker" where
  "notify gvr ns e t =
     t\<lparr>tr_watchers := map (\<lambda>w. if wa_gvr w = gvr
       then w\<lparr>wa_events := wa_events w @ (if wa_ns w = ns then [e] else []) @ (if wa_ns w = '''' then [e] else [])\<rparr>
       else w) (tr_watchers t)\<rparr>"

text \<open>The place of the object with a namespace and a name.\<close>

fun find_index :: "('a \<Rightarrow> bool) \<Rightarrow> 'a list \<Rightarrow> nat option" where
  "find_index P [] = None"
| "find_index P (x # xs) = (if P x then Some 0 else map_option Suc (find_index P xs))"

abbreviation is_object :: "string \<Rightarrow> string \<Rightarrow> api_object \<Rightarrow> bool" where
  "is_object ns name x \<equiv> obj_namespace x = ns \<and> obj_name x = name"

definition tracker_add ::
  "GroupVersionResource \<Rightarrow> api_object \<Rightarrow> string \<Rightarrow> bool \<Rightarrow> tracker \<Rightarrow> go_error option \<times> tracker" where
  "tracker_add gvr obj ns replaceExisting t =
     (let obj = (if obj_namespace obj = '''' then set_obj_namespace ns obj else obj)
      in if ns \<noteq> obj_namespace obj then
           (Some (OtherError (''request namespace does not match object namespace, request: '' @ quoted ns @
              '' object: '' @ quoted (obj_namespace obj))), t)
         else case find_index (is_object ns (obj_name obj)) (objects_of gvr t) of
           Some i \<Rightarrow>
             if replaceExisting then
               (None, (notify gvr ns (Modified obj) t)
                  \<lparr>tr_objects := (tr_objects t)(gvr \<mapsto> (objects_of gvr t)[i := obj])\<rparr>)
             else (Some (NewAlreadyExists gvr (obj_name obj)), t)
         | None \<Rightarrow>
             if replaceExisting then (Some (NewNotFound gvr (obj_name obj)), t)
             else (None, notify gvr ns (Added obj) (t\<lparr>tr_objects := (tr_objects t)(gvr \<mapsto> objects_of gvr t @ [obj])\<rparr>)))"

definition tracker_Create where
  "tracker_Create gvr obj ns t = tracker_add gvr obj ns False t"

definition tracker_Update where
  "tracker_Update gvr obj ns t = tracker_add gvr obj ns True t"

definition tracker_Delete :: "GroupVersionResource \<Rightarrow> string \<Rightarrow> string \<Rightarrow> tracker \<Rightarrow> go_error option \<times> tracker" where
  "tracker_Delete gvr ns name t =
     (case find_index (is_object ns name) (objects_of gvr t) of
        None \<Rightarrow> (Some (NewNotFound gvr name), t)
      | Some i \<Rightarrow>
          let xs = objects_of gvr t
          in (None, notify gvr ns (Deleted (xs ! i))
                (t\<lparr>tr_objects := (tr_objects t)(gvr \<mapsto> take i xs @ drop (Suc i) xs)\<rparr>)))"

text \<open>A watch is the number of its watcher.\<close>

definition tracker_Watch :: "GroupVersionResource \<Rightarrow> string \<Rightarrow> tracker \<Rightarrow> nat \<times> tracker" where
  "tracker_Watch gvr ns t =
     (length (tr_watchers t), t\<lparr>tr_watchers := tr_watchers t @ [\<lparr>wa_gvr = gvr, wa_ns = ns, wa_events = []\<rparr>]\<rparr>)"

section \<open>Reactions\<close>

text \<open>What a reaction returns as its object.\<close>

datatype ret = NoObject | SingleObject api_object | ObjectsList "api_object list"

type_synonym merger = "api_object \<Rightarrow> string \<Rightarrow> go_error + api_object"

text \<open>The answer to an update or creation: the stored object.\<close>

definition stored :: "GroupVersionResource \<Rightarrow> string \<Rightarrow> api_object \<Rightarrow> go_error option \<times> tracker \<Rightarrow>
    (bool \<times> ret \<times> go_error option) \<times> tracker" where
  "stored gvr ns obj r =
     (case r of
        (Some e, t) \<Rightarrow> ((True, NoObject, Some e), t)
      | (None, t) \<Rightarrow> (case tracker_Get gvr ns (obj_name obj) t of
          Inl e \<Rightarrow> ((True, NoObject, Some e), t)
        | Inr x \<Rightarrow> ((True, SingleObject x, None), t)))"

abbreviation not_an_object :: go_error where
  "not_an_object \<equiv> OtherError ''object does not implement the Object interfaces''"

fun ObjectReaction :: "merger \<Rightarrow> Action \<Rightarrow> tracker \<Rightarrow> (bool \<times> ret \<times> go_error option) \<times> tracker" where
  "ObjectReaction merge (ListActionImpl a kind _) t =
     (case tracker_List (ac_Resource a) kind (ac_Namespace a) t of
        Inl e \<Rightarrow> ((True, NoObject, Some e), t)
      | Inr xs \<Rightarrow> ((True, ObjectsList xs, None), t))"
| "ObjectReaction merge (GetActionImpl a name) t =
     (case tracker_Get (ac_Resource a) (ac_Namespace a) name t of
        Inl e \<Rightarrow> ((True, NoObject, Some e), t)
      | Inr x \<Rightarrow> ((True, SingleObject x, None), t))"
| "ObjectReaction merge (CreateActionImpl a obj) t =
     (case obj of
        None \<Rightarrow> ((True, NoObject, Some not_an_object), t)
      | Some x \<Rightarrow> stored (ac_Resource a) (ac_Namespace a) x
          (if ac_Subresource a = '''' then tracker_Create (ac_Resource a) x (ac_Namespace a) t
           else tracker_Update (ac_Resource a) x (ac_Namespace a) t))"
| "ObjectReaction merge (UpdateActionImpl a obj) t =
     (case obj of
        None \<Rightarrow> ((True, NoObject, Some not_an_object), t)
      | Some x \<Rightarrow> stored (ac_Resource a) (ac_Namespace a) x (tracker_Update (ac_Resource a) x (ac_Namespace a) t))"
| "ObjectReaction merge (DeleteActionImpl a name) t =
     (case tracker_Delete (ac_Resource a) (ac_Namespace a) name t of (e, t) \<Rightarrow> ((True, NoObject, e), t))"
| "ObjectReaction merge (PatchActionImpl a name patch) t =
     (case tracker_Get (ac_Resource a) (ac_Namespace a) name t of
        Inl e \<Rightarrow> ((False, NoObject, Some e), t)
      | Inr x \<Rightarrow> (case merge x patch of
          Inl e \<Rightarrow> ((True, NoObject, Some e), t)
        | Inr x \<Rightarrow> (case tracker_Update (ac_Resource a) x (ac_Namespace a) t of
            (Some e, t) \<Rightarrow> ((True, NoObject, Some e), t)
          | (None, t) \<Rightarrow> ((True, SingleObject x, None), t))))"
| "ObjectReaction merge _ t = ((False, NoObject, Some (OtherError ''no reaction implemented'')), t)"

section \<open>The fake\<close>

type_synonym reaction = "Action \<Rightarrow> tracker \<Rightarrow> (bool \<times> ret \<times> go_error option) \<times> tracker"
type_synonym watch_reaction = "Action \<Rightarrow> tracker \<Rightarrow> (bool \<times> nat option \<times> go_error option) \<times> tracker"

record Fake =
  fk_actions :: "Action list"
  fk_ReactionChain :: "(string \<times> string \<times> reaction) list"
  fk_WatchReactionChain :: "(string \<times> watch_reaction) list"
  fk_tracker :: tracker

definition Handles :: "string \<Rightarrow> string \<Rightarrow> Action \<Rightarrow> bool" where
  "Handles verb resource action \<longleftrightarrow>
     (verb = ''*'' \<or> verb = ac_Verb (action_impl action)) \<and>
     (resource = ''*'' \<or> resource = gvr_Resource (ac_Resource (action_impl action)))"

fun react :: "(string \<times> string \<times> reaction) list \<Rightarrow> Action \<Rightarrow> ret \<Rightarrow> tracker \<Rightarrow> (ret \<times> go_error option) \<times> tracker" where
  "react [] action defaultReturnObj t = ((defaultReturnObj, None), t)"
| "react ((verb, resource, reaction) # chain) action defaultReturnObj t =
     (if \<not> Handles verb resource action then react chain action defaultReturnObj t
      else case reaction action t of
        ((handled, ret, err), t) \<Rightarrow>
          if \<not> handled then react chain action defaultReturnObj t else ((ret, err), t))"

definition Invokes :: "Action \<Rightarrow> ret \<Rightarrow> Fake \<Rightarrow> (ret \<times> go_error option) \<times> Fake" where
  "Invokes action defaultReturnObj c =
     (let c = c\<lparr>fk_actions := fk_actions c @ [action]\<rparr>
      in case react (fk_ReactionChain c) action defaultReturnObj (fk_tracker c) of
           (r, t) \<Rightarrow> (r, c\<lparr>fk_tracker := t\<rparr>))"

fun react_watch :: "(string \<times> watch_reaction) list \<Rightarrow> Action \<Rightarrow> tracker \<Rightarrow> (nat option \<times> go_error option) \<times> tracker" where
  "react_watch [] action t = ((None, Some (OtherError ''unhandled watch'')), t)"
| "react_watch ((resource, reaction) # chain) action t =
     (if \<not> Handles ''*'' resource action then react_watch chain action t
      else case reaction action t of
        ((handled, ret, err), t) \<Rightarrow> if \<not> handled then react_watch chain action t else ((ret, err), t))"

definition InvokesWatch :: "Action \<Rightarrow> Fake \<Rightarrow> (nat option \<times> go_error option) \<times> Fake" where
  "InvokesWatch action c =
     (let c = c\<lparr>fk_actions := fk_actions c @ [action]\<rparr>
      in case react_watch (fk_WatchReactionChain c) action (fk_tracker c) of
           (r, t) \<Rightarrow> (r, c\<lparr>fk_tracker := t\<rparr>))"

definition AddReactor :: "string \<Rightarrow> string \<Rightarrow> reaction \<Rightarrow> Fake \<Rightarrow> Fake" where
  "AddReactor verb resource reaction c = c\<lparr>fk_ReactionChain := fk_ReactionChain c @ [(verb, resource, reaction)]\<rparr>"

definition AddWatchReactor :: "string \<Rightarrow> watch_reaction \<Rightarrow> Fake \<Rightarrow> Fake" where
  "AddWatchReactor resource reaction c = c\<lparr>fk_WatchReactionChain := fk_WatchReactionChain c @ [(resource, reaction)]\<rparr>"

end
