(* ===== verification/FakeClient.thy ===== *)
theory FakeClient
  imports Tracker
begin

text \<open>
  The fake clientset of \<open>pkg/client/clientset/versioned/fake\<close> and its typed clients
  (\<open>typed/loadbalancer/v1beta1/fake\<close>): each method invokes an action on the fake and converts what it
  returns. A conversion of an object to another type panics.
\<close>

section \<open>The typed clients\<close>

text \<open>\<open>FakeDNSLoadBalancers\<close> and \<open>FakeDNSLoadBalancerEndpoints\<close> are the fake, which is the state, and a namespace.\<close>

definition dnsloadbalancersResource :: GroupVersionResource where
  "dnsloadbalancersResource =
     \<lparr>gvr_Group = ''loadbalancer.gardener.cloud'', gvr_Version = ''v1beta1'', gvr_Resource = ''dnsloadbalancers''\<rparr>"

definition dnsloadbalancersKind :: string where
  "dnsloadbalancersKind = ''DNSLoadBalancer''"

definition dnsloadbalancerendpointsResource :: GroupVersionResource where
  "dnsloadbalancerendpointsResource =
     \<lparr>gvr_Group = ''loadbalancer.gardener.cloud'', gvr_Version = ''v1beta1'', gvr_Resource = ''dnsloadbalancerendpoints''\<rparr>"

definition dnsloadbalancerendpointsKind :: string where
  "dnsloadbalancerendpointsKind = ''DNSLoadBalancerEndpoint''"

text \<open>\<open>obj.(*v1beta1.DNSLoadBalancer)\<close> after the test for nil.\<close>

definition lb_result :: "(ret \<times> go_error option) \<times> Fake \<Rightarrow> ((DNSLoadBalancer option \<times> go_error option) \<times> Fake) outcome" where
  "lb_result r =
     (case r of ((obj, err), c) \<Rightarrow>
       (case obj of
          NoObject \<Rightarrow> Ok ((None, err), c)
        | SingleObject (LoadBalancerObject lb) \<Rightarrow> Ok ((Some lb, err), c)
        | _ \<Rightarrow> Panic))"

definition ep_result :: "(ret \<times> go_error option) \<times> Fake \<Rightarrow> ((DNSLoadBalancerEndpoint option \<times> go_error option) \<times> Fake) outcome" where
  "ep_result r =
     (case r of ((obj, err), c) \<Rightarrow>
       (case obj of
          NoObject \<Rightarrow> Ok ((None, err), c)
        | SingleObject (EndpointObject ep) \<Rightarrow> Ok ((Some ep, err), c)
        | _ \<Rightarrow> Panic))"

fun lbs_of :: "api_object list \<Rightarrow> DNSLoadBalancer list option" where
  "lbs_of [] = Some []"
| "lbs_of (LoadBalancerObject lb # xs) = map_option (Cons lb) (lbs_of xs)"
| "lbs_of (EndpointObject _ # xs) = None"

fun eps_of :: "api_object list \<Rightarrow> DNSLoadBalancerEndpoint list option" where
  "eps_of [] = Some []"
| "eps_of (EndpointObject ep # xs) = map_option (Cons ep) (eps_of xs)"
| "eps_of (LoadBalancerObject _ # xs) = None"

text \<open>The labels of an object as a \<open>labels.Set\<close>; a nil map has none.\<close>

definition label_set :: "ObjectMeta \<Rightarrow> labels" where
  "label_set m = (case m_labels m of None \<Rightarrow> (\<lambda>_. None) | Some ls \<Rightarrow> ls)"

definition fake_lbs_Get where
  "fake_lbs_Get ns name c =
     lb_result (Invokes (NewGetAction dnsloadbalancersResource ns name) (SingleObject (LoadBalancerObject empty_lb)) c)"

text \<open>The selector is parsed once for the action and once for the filter.\<close>

definition fake_lbs_List ::
  "selector_parser \<Rightarrow> string \<Rightarrow> ListOptions \<Rightarrow> Fake \<Rightarrow> ((DNSLoadBalancer ObjectList option \<times> go_error option) \<times> Fake) outcome" where
  "fake_lbs_List parse ns opts c =
     bind_outcome (NewListAction parse dnsloadbalancersResource dnsloadbalancersKind ns opts) (\<lambda>action.
     case Invokes action (ObjectsList []) c of ((obj, err), c) \<Rightarrow>
       (case obj of
          NoObject \<Rightarrow> Ok ((None, err), c)
        | ObjectsList xs \<Rightarrow> (case lbs_of xs of
            None \<Rightarrow> Panic
          | Some items \<Rightarrow>
              bind_outcome (ExtractFromListOptions parse opts) (\<lambda>(re, _).
                Ok ((Some (empty_list\<lparr>ol_Items := filter (\<lambda>item. re_Labels re (label_set (lb_meta item))) items\<rparr>), err), c)))
        | SingleObject _ \<Rightarrow> Panic))"

definition fake_lbs_Watch where
  "fake_lbs_Watch parse ns opts c =
     bind_outcome (NewWatchAction parse dnsloadbalancersResource ns opts) (\<lambda>action. Ok (InvokesWatch action c))"

definition fake_lbs_Create where
  "fake_lbs_Create ns lb c =
     lb_result (Invokes (NewCreateAction dnsloadbalancersResource ns (map_option LoadBalancerObject lb))
       (SingleObject (LoadBalancerObject empty_lb)) c)"

definition fake_lbs_Update where
  "fake_lbs_Update ns lb c =
     lb_result (Invokes (NewUpdateAction dnsloadbalancersResource ns (map_option LoadBalancerObject lb))
       (SingleObject (LoadBalancerObject empty_lb)) c)"

definition fake_lbs_UpdateStatus where
  "fake_lbs_UpdateStatus ns lb c =
     lb_result (Invokes (NewUpdateSubresourceAction dnsloadbalancersResource ''status'' ns (map_option LoadBalancerObject lb))
       (SingleObject (LoadBalancerObject empty_lb)) c)"

definition fake_lbs_Delete :: "string \<Rightarrow> string \<Rightarrow> DeleteOptions option \<Rightarrow> Fake \<Rightarrow> go_error option \<times> Fake" where
  "fake_lbs_Delete ns name options c =
     (case Invokes (NewDeleteAction dnsloadbalancersResource ns name) (SingleObject (LoadBalancerObject empty_lb)) c of
        ((_, err), c) \<Rightarrow> (err, c))"

definition fake_lbs_DeleteCollection ::
  "selector_parser \<Rightarrow> string \<Rightarrow> DeleteOptions option \<Rightarrow> ListOptions \<Rightarrow> Fake \<Rightarrow> (go_error option \<times> Fake) outcome" where
  "fake_lbs_DeleteCollection parse ns options listOptions c =
     bind_outcome (NewDeleteCollectionAction parse dnsloadbalancersResource ns listOptions) (\<lambda>action.
     case Invokes action (ObjectsList []) c of ((_, err), c) \<Rightarrow> Ok (err, c))"

definition fake_lbs_Patch ::
  "string \<Rightarrow> string \<Rightarrow> string \<Rightarrow> string \<Rightarrow> string list \<Rightarrow> Fake \<Rightarrow> ((DNSLoadBalancer option \<times> go_error option) \<times> Fake) outcome" where
  "fake_lbs_Patch ns name pt data subresources c =
     lb_result (Invokes (NewPatchSubresourceAction dnsloadbalancersResource ns name data subresources)
       (SingleObject (LoadBalancerObject empty_lb)) c)"

section \<open>The same for endpoints\<close>

definition fake_eps_Get where
  "fake_eps_Get ns name c =
     ep_result (Invokes (NewGetAction dnsloadbalancerendpointsResource ns name) (SingleObject (EndpointObject empty_ep)) c)"

definition fake_eps_List ::
  "selector_parser \<Rightarrow> string \<Rightarrow> ListOptions \<Rightarrow> Fake \<Rightarrow> ((DNSLoadBalancerEndpoint ObjectList option \<times> go_error option) \<times> Fake) outcome" where
  "fake_eps_List parse ns opts c =
     bind_outcome (NewListAction parse dnsloadbalancerendpointsResource dnsloadbalancerendpointsKind ns opts) (\<lambda>action.
     case Invokes action (ObjectsList []) c of ((obj, err), c) \<Rightarrow>
       (case obj of
          NoObject \<Rightarrow> Ok ((None, err), c)
        | ObjectsList xs \<Rightarrow> (case eps_of xs of
            None \<Rightarrow> Panic
          | Some items \<Rightarrow>
              bind_outcome (ExtractFromListOptions parse opts) (\<lambda>(re, _).
                Ok ((Some (empty_list\<lparr>ol_Items := filter (\<lambda>item. re_Labels re (label_set (ep_meta item))) items\<rparr>), err), c)))
        | SingleObject _ \<Rightarrow> Panic))"

definition fake_eps_Watch where
  "fake_eps_Watch parse ns opts c =
     bind_outcome (NewWatchAction parse dnsloadbalancerendpointsResource ns opts) (\<lambda>action. Ok (InvokesWatch action c))"

definition fake_eps_Create where
  "fake_eps_Create ns ep c =
     ep_result (Invokes (NewCreateAction dnsloadbalancerendpointsResource ns (map_option EndpointObject ep))
       (SingleObject (EndpointObject empty_ep)) c)"

definition fake_eps_Update where
  "fake_eps_Update ns ep c =
     ep_result (Invokes (NewUpdateAction dnsloadbalancerendpointsResource ns (map_option EndpointObject ep))
       (SingleObject (EndpointObject empty_ep)) c)"

definition fake_eps_UpdateStatus where
  "fake_eps_UpdateStatus ns ep c =
     ep_result (Invokes (NewUpdateSubresourceAction dnsloadbalancerendpointsResource ''status'' ns (map_option EndpointObject ep))
       (SingleObject (EndpointObject empty_ep)) c)"

definition fake_eps_Delete :: "string \<Rightarrow> string \<Rightarrow> DeleteOptions option \<Rightarrow> Fake \<Rightarrow> go_error option \<times> Fake" where
  "fake_eps_Delete ns name options c =
     (case Invokes (NewDeleteAction dnsloadbalancerendpointsResource ns name) (SingleObject (EndpointObject empty_ep)) c of
        ((_, err), c) \<Rightarrow> (err, c))"

definition fake_eps_DeleteCollection ::
  "selector_parser \<Rightarrow> string \<Rightarrow> DeleteOptions option \<Rightarrow> ListOptions \<Rightarrow> Fake \<Rightarrow> (go_error option \<times> Fake) outcome" where
  "fake_eps_DeleteCollection parse ns options listOptions c =
     bind_outcome (NewDeleteCollectionAction parse dnsloadbalancerendpointsResource ns listOptions) (\<lambda>action.
     case Invokes action (ObjectsList []) c of ((_, err), c) \<Rightarrow> Ok (err, c))"

definition fake_eps_Patch ::
  "string \<Rightarrow> string \<Rightarrow> string \<Rightarrow> string \<Rightarrow> string list \<Rightarrow> Fake \<Rightarrow> ((DNSLoadBalancerEndpoint option \<times> go_error option) \<times> Fake) outcome" where
  "fake_eps_Patch ns name pt data subresources c =
     ep_result (Invokes (NewPatchSubresourceAction dnsloadbalancerendpointsResource ns name data subresources)
       (SingleObject (EndpointObject empty_ep)) c)"

section \<open>The clientset\<close>

text \<open>
  The resource a kind is stored under when the tracker is filled, \<open>UnsafeGuessKindToResource\<close> for
  the two kinds.
\<close>

fun guess_resource :: "api_object \<Rightarrow> GroupVersionResource" where
  "guess_resource (LoadBalancerObject _) = dnsloadbalancersResource"
| "guess_resource (EndpointObject _) = dnsloadbalancerendpointsResource"

definition tracker_Add :: "api_object \<Rightarrow> tracker \<Rightarrow> go_error option \<times> tracker" where
  "tracker_Add obj t = tracker_add (guess_resource obj) obj (obj_namespace obj) False t"

definition tracker_watch_reaction :: watch_reaction where
  "tracker_watch_reaction action t =
     (case tracker_Watch (ac_Resource (action_impl action)) (ac_Namespace (action_impl action)) t of
        (w, t) \<Rightarrow> ((True, Some w, None), t))"

definition new_fake :: Fake where
  "new_fake = \<lparr>fk_actions = [], fk_ReactionChain = [], fk_WatchReactionChain = [], fk_tracker = NewObjectTracker\<rparr>"

definition NewSimpleClientset :: "merger \<Rightarrow> api_object list \<Rightarrow> Fake outcome" where
  "NewSimpleClientset merge objects =
     bind_outcome
       (for_each (\<lambda>o' obj. case tracker_Add obj o' of (None, o') \<Rightarrow> Ok o' | (Some _, _) \<Rightarrow> Panic) NewObjectTracker objects)
       (\<lambda>o'. Ok (AddWatchReactor ''*'' tracker_watch_reaction
          (AddReactor ''*'' ''*'' (ObjectReaction merge) (new_fake\<lparr>fk_tracker := o'\<rparr>))))"

end
