(* ===== verification/ClientProps.thy ===== *)
theory ClientProps
  imports Client
begin

text \<open>
  The requests of the typed clients: which target their paths name. A call of a method is a value of
  \<open>call\<close>, so that statements are about all of them.
\<close>

section \<open>Calls\<close>

datatype 'o call =
    CallGet string GetOptions
  | CallList ListOptions
  | CallWatch ListOptions
  | CallCreate "'o option"
  | CallUpdate "'o option"
  | CallUpdateStatus "'o option"
  | CallDelete string "DeleteOptions option"
  | CallDeleteCollection "DeleteOptions option" ListOptions
  | CallPatch string string string "string list"

text \<open>The name and the subresource a call is about; creations and calls on collections have none.\<close>

fun call_name :: "('o \<Rightarrow> ObjectMeta) \<Rightarrow> 'o call \<Rightarrow> string" where
  "call_name meta (CallGet name _) = name"
| "call_name meta (CallUpdate (Some x)) = m_name (meta x)"
| "call_name meta (CallUpdateStatus (Some x)) = m_name (meta x)"
| "call_name meta (CallDelete name _) = name"
| "call_name meta (CallPatch name _ _ _) = name"
| "call_name meta _ = ''''"

fun call_subresource :: "'o call \<Rightarrow> string" where
  "call_subresource (CallUpdateStatus _) = ''status''"
| "call_subresource (CallPatch _ _ _ subresources) = path_Join subresources"
| "call_subresource _ = ''''"

text \<open>The calls of the two clients, of which only the state of the server is of interest here.\<close>

fun lbs_call :: "'w server \<Rightarrow> typed_client \<Rightarrow> DNSLoadBalancer call \<Rightarrow> 'w \<Rightarrow> 'w outcome" where
  "lbs_call srv c (CallGet name options) w = Ok (snd (lbs_Get srv c name options w))"
| "lbs_call srv c (CallList opts) w = Ok (snd (lbs_List srv c opts w))"
| "lbs_call srv c (CallWatch opts) w = Ok (snd (lbs_Watch srv c opts w))"
| "lbs_call srv c (CallCreate x) w = Ok (snd (lbs_Create srv c x w))"
| "lbs_call srv c (CallUpdate x) w = bind_outcome (lbs_Update srv c x w) (\<lambda>r. Ok (snd r))"
| "lbs_call srv c (CallUpdateStatus x) w = bind_outcome (lbs_UpdateStatus srv c x w) (\<lambda>r. Ok (snd r))"
| "lbs_call srv c (CallDelete name options) w = Ok (snd (lbs_Delete srv c name options w))"
| "lbs_call srv c (CallDeleteCollection options opts) w = Ok (snd (lbs_DeleteCollection srv c options opts w))"
| "lbs_call srv c (CallPatch name pt data subresources) w = Ok (snd (lbs_Patch srv c name pt data subresources w))"

fun eps_call :: "'w server \<Rightarrow> typed_client \<Rightarrow> DNSLoadBalancerEndpoint call \<Rightarrow> 'w \<Rightarrow> 'w outcome" where
  "eps_call srv c (CallGet name options) w = Ok (snd (eps_Get srv c name options w))"
| "eps_call srv c (CallList opts) w = Ok (snd (eps_List srv c opts w))"
| "eps_call srv c (CallWatch opts) w = Ok (snd (eps_Watch srv c opts w))"
| "eps_call srv c (CallCreate x) w = Ok (snd (eps_Create srv c x w))"
| "eps_call srv c (CallUpdate x) w = bind_outcome (eps_Update srv c x w) (\<lambda>r. Ok (snd r))"
| "eps_call srv c (CallUpdateStatus x) w = bind_outcome (eps_UpdateStatus srv c x w) (\<lambda>r. Ok (snd r))"
| "eps_call srv c (CallDelete name options) w = Ok (snd (eps_Delete srv c name options w))"
| "eps_call srv c (CallDeleteCollection options opts) w = Ok (snd (eps_DeleteCollection srv c options opts w))"
| "eps_call srv c (CallPatch name pt data subresources) w = Ok (snd (eps_Patch srv c name pt data subresources w))"

text \<open>The request of a call, none for an update with a nil pointer.\<close>

fun call_request :: "string \<Rightarrow> ('o \<Rightarrow> ObjectMeta) \<Rightarrow> ('o \<Rightarrow> api_object) \<Rightarrow> typed_client \<Rightarrow> 'o call \<Rightarrow> Request option" where
  "call_request resource meta wrap c (CallGet name options) = Some (get_request resource c name options)"
| "call_request resource meta wrap c (CallList opts) = Some (list_request resource c opts)"
| "call_request resource meta wrap c (CallWatch opts) = Some (watch_request resource c opts)"
| "call_request resource meta wrap c (CallCreate x) = Some (create_request resource c (map_option wrap x))"
| "call_request resource meta wrap c (CallUpdate None) = None"
| "call_request resource meta wrap c (CallUpdate (Some x)) = Some (update_request resource c (m_name (meta x)) (wrap x))"
| "call_request resource meta wrap c (CallUpdateStatus None) = None"
| "call_request resource meta wrap c (CallUpdateStatus (Some x)) =
     Some (updateStatus_request resource c (m_name (meta x)) (wrap x))"
| "call_request resource meta wrap c (CallDelete name options) = Some (delete_request resource c name options)"
| "call_request resource meta wrap c (CallDeleteCollection options opts) =
     Some (deleteCollection_request resource c options opts)"
| "call_request resource meta wrap c (CallPatch name pt data subresources) =
     Some (patch_request resource c name pt data subresources)"

text \<open>A server that keeps the requests it was sent.\<close>

definition recording :: "'w server \<Rightarrow> (Request list \<times> 'w) server" where
  "recording srv r lw = (case lw of (log, w) \<Rightarrow> case srv r w of (x, w') \<Rightarrow> (x, (log @ [r], w')))"

abbreviation is_watch :: "'o call \<Rightarrow> bool" where
  "is_watch call \<equiv> (case call of CallWatch _ \<Rightarrow> True | _ \<Rightarrow> False)"

definition sent :: "'o call \<Rightarrow> Request \<Rightarrow> Request list" where
  "sent call r = (if rq_err r \<noteq> None \<or> (\<not> is_watch call \<and> empty_namespace r \<noteq> None) then [] else [r])"

lemma snd_Into [simp]: "snd (Into z d res) = snd res"
  by (auto simp: Into_def split: prod.split sum.split reply.split option.split)

lemma snd_result_Error [simp]: "snd (result_Error res) = snd res"
  by (auto simp: result_Error_def split: prod.split sum.split reply.split)

lemma sent_Do:
  "fst (snd (Do (recording srv) r (log, w))) =
     log @ (if rq_err r \<noteq> None \<or> empty_namespace r \<noteq> None then [] else [r])"
  by (auto simp: Do_def recording_def split: option.split prod.split)

lemma sent_Watch:
  "fst (snd (rest_Watch (recording srv) r (log, w))) = log @ (if rq_err r \<noteq> None then [] else [r])"
  by (auto simp: rest_Watch_def recording_def split: option.split prod.split sum.split reply.split)

section \<open>The paths of the requests\<close>

text \<open>The setters keep the parts of the path valid, also when they report an error.\<close>

definition wf_request :: "Request \<Rightarrow> bool" where
  "wf_request r \<longleftrightarrow>
     IsValidPathSegmentName (rq_namespace r) = [] \<and> IsValidPathSegmentName (rq_resource r) = [] \<and>
     IsValidPathSegmentName (rq_resourceName r) = [] \<and> (rq_namespaceSet r \<or> rq_namespace r = '''') \<and>
     (\<exists>ss. (\<forall>s\<in>set ss. IsValidPathSegmentName s = []) \<and> rq_subresource r = path_Join ss)"

lemma valid_empty [simp]: "IsValidPathSegmentName '''' = []"
  by (simp add: IsValidPathSegmentName_def)

lemma path_Join_Nil [simp]: "path_Join [] = ''''"
  by (simp add: path_Join_def)

lemma wf_NewRequest [simp]: "wf_request (NewRequest c verb)"
  by (auto simp: wf_request_def NewRequest_def intro!: exI [of _ "[]"])

lemma wf_set_err [simp]: "wf_request (set_err m r) = wf_request r"
  by (simp add: wf_request_def set_err_def)

lemma wf_setters [intro]:
  assumes "wf_request r"
  shows "wf_request (Namespace ns r)" and "wf_request (Resource res r)" and "wf_request (Name name r)"
    and "wf_request (VersionedParams ps r)" and "wf_request (Body b r)"
    and "wf_request (r\<lparr>rq_contentType := ct\<rparr>)"
  using assms
  by (simp_all add: Namespace_def Resource_def Name_def VersionedParams_def Body_def Let_def)
    (auto simp: wf_request_def split: option.split body.split)

lemma invalid_subresource_wf:
  "wf_request r \<Longrightarrow> invalid_subresource ss r = Some r' \<Longrightarrow> wf_request r'"
  by (induction ss r rule: invalid_subresource.induct) (auto simp: Let_def split: if_splits)

lemma invalid_subresource_None:
  "invalid_subresource ss r = None \<longleftrightarrow> (\<forall>s\<in>set ss. IsValidPathSegmentName s = [])"
  by (induction ss r rule: invalid_subresource.induct) (auto simp: Let_def)

lemma wf_SubResource [intro]: "wf_request r \<Longrightarrow> wf_request (SubResource ss r)"
  by (auto simp: SubResource_def Let_def invalid_subresource_None split: option.split
      intro: invalid_subresource_wf) (auto simp: wf_request_def)

lemma filter_dropWhile_not: "filter (\<lambda>s. s \<noteq> '''') (dropWhile (\<lambda>e. e = '''') ss) = filter (\<lambda>s. s \<noteq> '''') ss"
  by (induction ss) auto

lemma Join_subresources:
  assumes "\<forall>s\<in>set ss. IsValidPathSegmentName s = []"
  shows "path_Join ss = Join ''/'' (filter (\<lambda>s. s \<noteq> '''') ss)"
proof (cases "dropWhile (\<lambda>e. e = '''') ss")
  case Nil
  then have "filter (\<lambda>s. s \<noteq> '''') ss = []" by (auto simp: dropWhile_eq_Nil_conv filter_empty_conv)
  then show ?thesis by (simp only: path_Join_def Nil list.case Join.simps)
next
  case (Cons e es)
  have "set (dropWhile (\<lambda>e. e = '''') ss) \<subseteq> set ss" by (auto dest: set_dropWhileD)
  then have sub: "set (e # es) \<subseteq> set ss" by (simp only: Cons)
  have e: "e \<noteq> ''''" using hd_dropWhile [of "\<lambda>e. e = ''''" ss] by (simp only: Cons) simp
  have d: "dotless (Join ''/'' (e # es))" using assms sub by (auto simp: dotless_Join intro: valid_dotless)
  have el: "elements x = (if x = '''' then [] else [x])" if "x \<in> set (e # es)" for x
    using that assms sub valid_segment by fastforce
  have elems: "elements (Join ''/'' (e # es)) = filter (\<lambda>s. s \<noteq> '''') (e # es)"
  proof -
    have "concat (map elements xs) = filter (\<lambda>s. s \<noteq> '''') xs" if "set xs \<subseteq> set (e # es)" for xs
      using that by (induction xs) (simp_all add: el)
    then show ?thesis by (simp only: elements_Join)
  qed
  have "segment e" using assms sub e by (auto intro: valid_segment)
  then have "take 1 (Join ''/'' (e # es)) \<noteq> ''/''"
    using e by (cases es; cases e) (auto simp: segment_def)
  moreover have "Join ''/'' (filter (\<lambda>s. s \<noteq> '''') (e # es)) \<noteq> ''''"
    using e by (cases "filter (\<lambda>s. s \<noteq> '''') es") auto
  moreover have "filter (\<lambda>s. s \<noteq> '''') (e # es) = filter (\<lambda>s. s \<noteq> '''') ss"
    using filter_dropWhile_not [of ss] by (simp only: Cons)
  ultimately show ?thesis
    using Clean_dotless [OF d] elems Cons by (simp add: path_Join_def Let_def)
qed

text \<open>A setter that reports no error has set its part.\<close>

lemma set_err_err [simp]: "rq_err (set_err m r) = Some (OtherError m)"
  by (simp add: set_err_def)

lemma setter_ok:
  "rq_err (Namespace ns r) = None \<Longrightarrow>
     rq_err r = None \<and> Namespace ns r = r\<lparr>rq_namespaceSet := True, rq_namespace := ns\<rparr>"
  "rq_err (Resource res r) = None \<Longrightarrow> rq_err r = None \<and> Resource res r = r\<lparr>rq_resource := res\<rparr>"
  "rq_err (Name name r) = None \<Longrightarrow>
     rq_err r = None \<and> name \<noteq> '''' \<and> Name name r = r\<lparr>rq_resourceName := name\<rparr>"
  "rq_err (VersionedParams ps r) = None \<Longrightarrow>
     rq_err r = None \<and> VersionedParams ps r = r\<lparr>rq_params := rq_params r @ ps\<rparr>"
  by (auto simp: Namespace_def Resource_def Name_def VersionedParams_def Let_def split: if_splits)

lemma SubResource_ok:
  assumes "rq_err (SubResource ss r) = None"
  shows "rq_err r = None \<and> SubResource ss r = r\<lparr>rq_subresource := path_Join ss\<rparr>"
proof -
  have "rq_err r' \<noteq> None" if "invalid_subresource ss r = Some r'" for r'
    using that by (induction ss r rule: invalid_subresource.induct) (auto simp: Let_def split: if_splits)
  with assms show ?thesis
    by (auto simp: SubResource_def Let_def split: if_splits option.splits)
qed

lemma Body_ok:
  assumes "rq_err (Body b r) = None"
  shows "rq_err r = None \<and> (\<exists>ct. Body b r = r\<lparr>rq_body := (if b = None then rq_body r else b), rq_contentType := ct\<rparr>)"
proof (cases b)
  case None
  with assms show ?thesis by (auto simp: Body_def intro!: exI [of _ "rq_contentType r"])
next
  case (Some x)
  with assms show ?thesis
    by (cases x) (auto simp: Body_def split: if_splits intro: exI [of _ "rq_contentType r"])
qed

lemma Join_status [simp]: "path_Join [''status''] = ''status''"
  by (simp add: path_Join_def path_Clean_def clean_step_def)

text \<open>The verb, the query and the body of the request of a call.\<close>

fun call_verb :: "'o call \<Rightarrow> string" where
  "call_verb (CallCreate _) = ''POST''"
| "call_verb (CallUpdate _) = ''PUT''"
| "call_verb (CallUpdateStatus _) = ''PUT''"
| "call_verb (CallDelete _ _) = ''DELETE''"
| "call_verb (CallDeleteCollection _ _) = ''DELETE''"
| "call_verb (CallPatch _ _ _ _) = ''PATCH''"
| "call_verb _ = ''GET''"

fun call_params :: "'o call \<Rightarrow> (string \<times> param) list" where
  "call_params (CallGet _ options) = encode_GetOptions options"
| "call_params (CallList opts) = encode_ListOptions opts"
| "call_params (CallWatch opts) = encode_ListOptions (opts\<lparr>lo_Watch := True\<rparr>)"
| "call_params (CallDeleteCollection _ opts) = encode_ListOptions opts"
| "call_params _ = []"

fun call_body :: "('o \<Rightarrow> api_object) \<Rightarrow> 'o call \<Rightarrow> body option" where
  "call_body wrap (CallCreate x) = map_option (ObjectBody \<circ> wrap) x"
| "call_body wrap (CallUpdate x) = map_option (ObjectBody \<circ> wrap) x"
| "call_body wrap (CallUpdateStatus x) = map_option (ObjectBody \<circ> wrap) x"
| "call_body wrap (CallDelete _ options) = map_option OptionsBody options"
| "call_body wrap (CallDeleteCollection options _) = map_option OptionsBody options"
| "call_body wrap (CallPatch _ _ data _) = Some (DataBody data)"
| "call_body wrap _ = None"

text \<open>Calls on one object have its name.\<close>

abbreviation on_collection :: "'o call \<Rightarrow> bool" where
  "on_collection call \<equiv> (case call of CallList _ \<Rightarrow> True | CallWatch _ \<Rightarrow> True | CallCreate _ \<Rightarrow> True
     | CallDeleteCollection _ _ \<Rightarrow> True | _ \<Rightarrow> False)"

lemma NewRequest_sel [simp]:
  "rq_err (NewRequest c v) = None" "rq_verb (NewRequest c v) = v" "rq_params (NewRequest c v) = []"
  "rq_body (NewRequest c v) = None" "rq_subresource (NewRequest c v) = ''''" "rq_resourceName (NewRequest c v) = ''''"
  "rq_pathPrefix (NewRequest c v) = path_Join [path_Join [''/'', rc_base c], rc_versionedAPIPath c]"
  by (simp_all add: NewRequest_def)

lemma call_request_wf:
  assumes "call_request resource meta wrap c call = Some r"
  shows "wf_request r"
  using assms
  by (cases "(resource, meta, wrap, c, call)" rule: call_request.cases)
    (auto simp: request_defs intro!: wf_setters wf_SubResource)

lemma call_request_parts:
  assumes "call_request resource meta wrap c call = Some r" and "rq_err r = None"
  shows "rq_verb r = call_verb call" and "rq_params r = call_params call" and "rq_body r = call_body wrap call"
    and "rq_namespaceSet r" and "rq_namespace r = tc_ns c" and "rq_resource r = resource"
    and "rq_resourceName r = call_name meta call" and "rq_subresource r = call_subresource call"
    and "rq_pathPrefix r = rq_pathPrefix (NewRequest (tc_client c) '''')"
    and "rq_resourceName r = '''' \<longleftrightarrow> on_collection call"
proof -
  have "rq_verb r = call_verb call \<and> rq_params r = call_params call \<and> rq_body r = call_body wrap call \<and>
    rq_namespaceSet r \<and> rq_namespace r = tc_ns c \<and> rq_resource r = resource \<and>
    rq_resourceName r = call_name meta call \<and> rq_subresource r = call_subresource call \<and>
    rq_pathPrefix r = rq_pathPrefix (NewRequest (tc_client c) '''') \<and> (rq_resourceName r = '''' \<longleftrightarrow> on_collection call)"
    using assms
    by (cases "(resource, meta, wrap, c, call)" rule: call_request.cases)
      (auto simp: request_defs dest!: Body_ok SubResource_ok setter_ok split: if_splits)
  then show "rq_verb r = call_verb call" "rq_params r = call_params call" "rq_body r = call_body wrap call"
    "rq_namespaceSet r" "rq_namespace r = tc_ns c" "rq_resource r = resource"
    "rq_resourceName r = call_name meta call" "rq_subresource r = call_subresource call"
    "rq_pathPrefix r = rq_pathPrefix (NewRequest (tc_client c) '''')"
    "rq_resourceName r = '''' \<longleftrightarrow> on_collection call"
    by blast+
qed

text \<open>
  What a server reads from a path: the namespace, the resource, the name and the subresource after
  the \<open>n\<close> elements of the API.
\<close>

definition read_target :: "nat \<Rightarrow> string \<Rightarrow> (string \<times> string \<times> string \<times> string) option" where
  "read_target n p =
     (let rest = (\<lambda>ns res xs. Some (ns, res, (case xs of [] \<Rightarrow> '''' | x # _ \<Rightarrow> x), Join ''/'' (tl xs)))
      in case drop n (elements p) of
           [] \<Rightarrow> None
         | x # xs \<Rightarrow>
             if x = ''namespaces'' then (case xs of ns # res # ys \<Rightarrow> rest ns res ys | _ \<Rightarrow> None)
             else rest '''' x xs)"

definition plain_resource :: "string \<Rightarrow> bool" where
  "plain_resource s \<longleftrightarrow> segment s \<and> ToLower s = s \<and> s \<noteq> ''namespaces''"

lemma URL_path_rooted:
  assumes wf: "wf_request r" and prefix: "rq_pathPrefix r = rooted_path ps" "\<forall>p\<in>set ps. segment p"
    and res: "plain_resource (rq_resource r)" and sub: "rq_resourceName r = '''' \<Longrightarrow> rq_subresource r = ''''"
  obtains ss where
    "URL_path r = rooted_path (ps @ (if rq_namespace r = '''' then [] else [''namespaces'', rq_namespace r]) @
       [rq_resource r] @ (if rq_resourceName r = '''' then [] else [rq_resourceName r]) @ ss)"
    and "\<forall>p\<in>set (ps @ (if rq_namespace r = '''' then [] else [''namespaces'', rq_namespace r]) @
       [rq_resource r] @ (if rq_resourceName r = '''' then [] else [rq_resourceName r]) @ ss). segment p"
    and "rq_subresource r = Join ''/'' ss" and "rq_resourceName r = '''' \<Longrightarrow> ss = []"
proof -
  obtain ss where ss: "\<forall>s\<in>set ss. IsValidPathSegmentName s = []" "rq_subresource r = path_Join ss"
    using wf by (auto simp: wf_request_def)
  let ?ss = "filter (\<lambda>s. s \<noteq> '''') ss"
  have segs: "\<forall>s\<in>set ?ss. segment s" using ss(1) by (auto intro: valid_segment)
  have subj: "rq_subresource r = Join ''/'' ?ss" using ss Join_subresources by simp
  have subd: "dotless (rq_subresource r)" using segs by (simp only: subj dotless_Join) simp
  have sube: "elements (rq_subresource r) = ?ss"
  proof -
    have "concat (map elements xs) = xs" if "\<forall>s\<in>set xs. segment s" for xs
      using that by (induction xs) simp_all
    with segs show ?thesis by (simp only: subj elements_Join)
  qed
  have ss0: "?ss = []" if "rq_resourceName r = ''''"
    unfolding sube [symmetric] sub [OF that] by simp
  let ?ns = "if rq_namespace r = '''' then [] else [''namespaces'', rq_namespace r]"
  let ?name = "if rq_resourceName r = '''' then [] else [rq_resourceName r]"
  have nsv: "rq_namespace r = '''' \<or> segment (rq_namespace r)" "rq_resourceName r = '''' \<or> segment (rq_resourceName r)"
    using wf valid_segment by (auto simp: wf_request_def)
  have lit: "segment ''namespaces''" by (simp add: segment_def)
  have p1: "\<forall>p\<in>set (ps @ ?ns). segment p" using prefix(2) nsv lit by auto
  have p2: "\<forall>p\<in>set (ps @ ?ns @ [rq_resource r]). segment p" using p1 res by (auto simp: plain_resource_def)
  have j1: "(if rq_namespaceSet r \<and> rq_namespace r \<noteq> '''' then path_Join [rq_pathPrefix r, ''namespaces'', rq_namespace r]
      else rq_pathPrefix r) = rooted_path (ps @ ?ns)"
    using wf nsv lit Join_rooted [OF prefix(2), of "[''namespaces'', rq_namespace r]"]
    by (auto simp: prefix(1) wf_request_def)
  have j2: "path_Join [rooted_path (ps @ ?ns), ToLower (rq_resource r)] = rooted_path (ps @ ?ns @ [rq_resource r])"
    using Join_rooted [OF p1, of "[ToLower (rq_resource r)]"] res by (simp add: plain_resource_def)
  have j3: "path_Join [rooted_path (ps @ ?ns @ [rq_resource r]), rq_resourceName r, rq_subresource r, ''''] =
      rooted_path (ps @ ?ns @ [rq_resource r] @ ?name @ ?ss)"
  proof -
    have d: "\<forall>e\<in>set [rq_resourceName r, rq_subresource r, '''']. dotless e" using nsv(2) subd by auto
    have "elements (rq_resourceName r) = ?name" using nsv(2) by auto
    with Join_rooted [OF p2 d] sube show ?thesis by simp
  qed
  have url: "URL_path r = rooted_path (ps @ ?ns @ [rq_resource r] @ ?name @ ?ss)"
  proof (cases "rq_resourceName r = ''''")
    case True
    with ss0 have "?ss = []" by blast
    with True j1 j2 res sub show ?thesis
      by (simp add: URL_path_def Let_def plain_resource_def segment_def)
  next
    case False
    with j1 j2 j3 res show ?thesis
      by (simp add: URL_path_def Let_def plain_resource_def segment_def)
  qed
  have all: "\<forall>p\<in>set (ps @ ?ns @ [rq_resource r] @ ?name @ ?ss). segment p"
    using p2 nsv segs by auto
  from that [OF url all subj ss0] show thesis .
qed

lemma URL_path_target:
  assumes "wf_request r" and "rq_pathPrefix r = rooted_path ps" "\<forall>p\<in>set ps. segment p"
    and "plain_resource (rq_resource r)" and "rq_resourceName r = '''' \<Longrightarrow> rq_subresource r = ''''"
  shows "read_target (length ps) (URL_path r) =
      Some (rq_namespace r, rq_resource r, rq_resourceName r, rq_subresource r) \<and>
    take (length ps) (elements (URL_path r)) = ps"
proof -
  from URL_path_rooted [OF assms] obtain ss where url: "URL_path r = rooted_path (ps @
      (if rq_namespace r = '''' then [] else [''namespaces'', rq_namespace r]) @
      [rq_resource r] @ (if rq_resourceName r = '''' then [] else [rq_resourceName r]) @ ss)"
    and all: "\<forall>p\<in>set (ps @ (if rq_namespace r = '''' then [] else [''namespaces'', rq_namespace r]) @
      [rq_resource r] @ (if rq_resourceName r = '''' then [] else [rq_resourceName r]) @ ss). segment p"
    and ss: "rq_subresource r = Join ''/'' ss" "rq_resourceName r = '''' \<Longrightarrow> ss = []" by metis
  show ?thesis unfolding read_target_def url elements_rooted [OF all]
    using assms(4) ss by (auto simp: plain_resource_def)
qed

section \<open>The contract of a typed client\<close>

text \<open>
  A client for a resource runs every call by sending the call's request, unless the request is
  faulty; a nil object to update panics.
\<close>

locale typed_interface =
  fixes run :: "(Request list \<times> 'w) server \<Rightarrow> typed_client \<Rightarrow> 'o call \<Rightarrow> Request list \<times> 'w \<Rightarrow> (Request list \<times> 'w) outcome"
    and resource :: string and meta :: "'o \<Rightarrow> ObjectMeta" and wrap :: "'o \<Rightarrow> api_object"
  assumes sends: "map_outcome fst (run (recording srv) c call (log, w)) =
      (case call_request resource meta wrap c call of None \<Rightarrow> Panic | Some r \<Rightarrow> Ok (log @ sent call r))"
    and plain: "plain_resource resource"
begin

lemma sends_one:
  assumes "run (recording srv) c call (log, w) = Ok (log @ [r], w')"
  shows "call_request resource meta wrap c call = Some r" and "rq_err r = None"
    and "\<not> is_watch call \<Longrightarrow> empty_namespace r = None"
proof -
  have "(case call_request resource meta wrap c call of None \<Rightarrow> Panic | Some r \<Rightarrow> Ok (log @ sent call r)) = Ok (log @ [r])"
    using sends [of srv c call log w] assms by simp
  then have "call_request resource meta wrap c call = Some r \<and> rq_err r = None \<and>
      (\<not> is_watch call \<longrightarrow> empty_namespace r = None)"
    by (auto simp: sent_def split: option.splits if_splits)
  then show "call_request resource meta wrap c call = Some r" "rq_err r = None"
    "\<not> is_watch call \<Longrightarrow> empty_namespace r = None" by blast+
qed

lemma path_roundtrip:
  assumes "run (recording srv) c call (log, w) = Ok (log @ [r], w')"
    and "rq_pathPrefix (NewRequest (tc_client c) '''') = rooted_path ps" and "\<forall>p\<in>set ps. segment p"
  shows "read_target (length ps) (URL_path r) = Some (tc_ns c, resource, call_name meta call, call_subresource call)"
    and "take (length ps) (elements (URL_path r)) = ps"
proof -
  note r = sends_one(1,2) [OF assms(1)]
  note p = call_request_parts [OF r]
  have "rq_subresource r = ''''" if "rq_resourceName r = ''''"
    using that p(8,10) by (auto split: call.splits)
  with URL_path_target [OF call_request_wf [OF r(1)], of ps] assms(2,3) plain p
  show "read_target (length ps) (URL_path r) = Some (tc_ns c, resource, call_name meta call, call_subresource call)"
    and "take (length ps) (elements (URL_path r)) = ps" by simp_all
qed

end

interpretation lb_client: typed_interface lbs_call dnsloadbalancers lb_meta LoadBalancerObject
proof (unfold_locales, goal_cases)
  case (1 srv c call log w)
  show ?case
  proof (cases call)
    case (CallUpdate x)
    then show ?thesis by (cases x) (simp_all add: lbs_Update_def sent_def sent_Do)
  next
    case (CallUpdateStatus x)
    then show ?thesis by (cases x) (simp_all add: lbs_UpdateStatus_def sent_def sent_Do)
  qed (simp_all add: lbs_Get_def lbs_List_def lbs_Watch_def lbs_Create_def
      lbs_Delete_def lbs_DeleteCollection_def lbs_Patch_def sent_def sent_Do sent_Watch)
next
  case 2
  show ?case by (simp add: plain_resource_def segment_def ToLower_def lower_char_def)
qed

interpretation ep_client: typed_interface eps_call dnsloadbalancerendpoints ep_meta EndpointObject
proof (unfold_locales, goal_cases)
  case (1 srv c call log w)
  show ?case
  proof (cases call)
    case (CallUpdate x)
    then show ?thesis by (cases x) (simp_all add: eps_Update_def sent_def sent_Do)
  next
    case (CallUpdateStatus x)
    then show ?thesis by (cases x) (simp_all add: eps_UpdateStatus_def sent_def sent_Do)
  qed (simp_all add: eps_Get_def eps_List_def eps_Watch_def eps_Create_def
      eps_Delete_def eps_DeleteCollection_def eps_Patch_def sent_def sent_Do sent_Watch)
next
  case 2
  show ?case by (simp add: plain_resource_def segment_def ToLower_def lower_char_def)
qed

section \<open>The property\<close>

text \<open>
  What is known of \<open>rest.RESTClientFor\<close>: the client has the path of the host's URL, here the elements
  \<open>base\<close>, and the versioned path of the configuration's API.
\<close>

definition rest_client_for :: "string list \<Rightarrow> Config \<Rightarrow> go_error + RESTClient" where
  "rest_client_for base cf =
     (case cf_GroupVersion cf of
        None \<Rightarrow> Inl (OtherError ''GroupVersion is required when initializing a RESTClient'')
      | Some gv \<Rightarrow> Inr \<lparr>rc_base = rooted_path base, rc_versionedAPIPath = DefaultVersionedAPIPath (cf_APIPath cf) gv\<rparr>)"

definition api_elements :: "string list" where
  "api_elements = [''apis'', ''loadbalancer.gardener.cloud'', ''v1beta1'']"

lemma api_segments: "\<forall>p\<in>set api_elements. segment p"
  by (simp add: api_elements_def segment_def)

lemma rooted_Nil: "rooted_path [] = ''/''"
  by (simp add: rooted_path_def)

lemma Join_root: "\<forall>p\<in>set ps. segment p \<Longrightarrow> path_Join [''/'', rooted_path ps] = rooted_path ps"
  using Join_rooted [of "[]" "[rooted_path ps]"] by (simp add: rooted_Nil)

lemma api_path: "DefaultVersionedAPIPath ''/apis'' SchemeGroupVersion = rooted_path api_elements"
proof -
  have s: "segment ''apis''" "segment ''loadbalancer.gardener.cloud''" "segment ''v1beta1''"
    by (simp_all add: segment_def)
  have "path_Join [''/'', ''/apis''] = rooted_path [''apis'']"
    using Join_root [of "[''apis'']"] s by (simp add: rooted_path_def)
  moreover have "path_Join [rooted_path [''apis''], ''loadbalancer.gardener.cloud'', ''v1beta1''] = rooted_path api_elements"
    using Join_rooted [of "[''apis'']" "[''loadbalancer.gardener.cloud'', ''v1beta1'']"] s
    by (simp add: api_elements_def)
  ultimately show ?thesis
    by (simp add: DefaultVersionedAPIPath_def SchemeGroupVersion_def GroupName_def)
qed

lemma clientset_prefix:
  assumes "cs_NewForConfig env cf = Inr cs" and "\<forall>cf. en_RESTClientFor env cf = rest_client_for base cf"
    and "\<forall>p\<in>set base. segment p"
  shows "rq_pathPrefix (NewRequest (cs_Loadbalancer cs) v) = rooted_path (base @ api_elements)"
proof -
  have "cs_Loadbalancer cs = \<lparr>rc_base = rooted_path base, rc_versionedAPIPath = rooted_path api_elements\<rparr>"
    using assms(1,2) api_path
    by (auto simp: cs_NewForConfig_def group_NewForConfig_def setConfigDefaults_def rest_client_for_def
        cs_Loadbalancer_def Let_def split: if_splits sum.splits)
  then show ?thesis
    using Join_rooted [of base "[rooted_path api_elements]"] Join_root [of base] assms(3) api_segments by simp
qed

text \<open>
  C37. The clientset made from a configuration addresses its requests right: when a call of the client
  for load balancers of a namespace sends a request, reading its path after the base path of the
  host and the elements of the API gives back the namespace, the resource, the name and the
  subresource of the call, and verb, query and body are those of the call. Names cannot smuggle
  further elements into the path.
\<close>

theorem request_path_roundtrip:
  assumes "cs_NewForConfig env cf = Inr cs" and "\<forall>cf. en_RESTClientFor env cf = rest_client_for base cf"
    and "\<forall>p\<in>set base. segment p"
    and "lbs_call (recording srv) (group_DNSLoadBalancers (cs_Loadbalancer cs) ns) call (log, w) = Ok (log @ [r], w')"
  shows "read_target (length base + 3) (URL_path r) =
      Some (ns, ''dnsloadbalancers'', call_name lb_meta call, call_subresource call) \<and>
    rq_verb r = call_verb call \<and> rq_params r = call_params call \<and> rq_body r = call_body LoadBalancerObject call"
proof -
  have segs: "\<forall>p\<in>set (base @ api_elements). segment p" using assms(3) api_segments by auto
  have c: "group_DNSLoadBalancers (cs_Loadbalancer cs) ns = \<lparr>tc_client = cs_Loadbalancer cs, tc_ns = ns\<rparr>"
    by (simp add: group_DNSLoadBalancers_def newDNSLoadBalancers_def)
  have "read_target (length (base @ api_elements)) (URL_path r) =
      Some (ns, ''dnsloadbalancers'', call_name lb_meta call, call_subresource call)"
    using lb_client.path_roundtrip(1) [OF assms(4), of "base @ api_elements"] segs
      clientset_prefix [OF assms(1,2,3)] by (simp add: c)
  moreover have "rq_verb r = call_verb call" "rq_params r = call_params call" "rq_body r = call_body LoadBalancerObject call"
    using call_request_parts [OF lb_client.sends_one(1,2) [OF assms(4)]] by simp_all
  ultimately show ?thesis by (simp add: api_elements_def numeral_3_eq_3)
qed

definition sample_env :: "unit client_env" where
  "sample_env = \<lparr>en_userAgent = ''agent'', en_RESTClientFor = rest_client_for [''k8s''],
     en_DiscoveryFor = (\<lambda>_. Inr ()), en_Discovery = (\<lambda>_. ())\<rparr>"

definition sample_cf :: Config where
  "sample_cf = \<lparr>cf_Host = ''https://host/k8s'', cf_APIPath = '''', cf_GroupVersion = None, cf_UserAgent = '''',
     cf_QPS = 5, cf_Burst = 10, cf_RateLimiter = None\<rparr>"

definition sample_rest :: RESTClient where
  "sample_rest = \<lparr>rc_base = rooted_path [''k8s''], rc_versionedAPIPath = rooted_path api_elements\<rparr>"

definition sample_sent :: Request where
  "sample_sent = delete_request dnsloadbalancers \<lparr>tc_client = sample_rest, tc_ns = ''ns''\<rparr> ''lb'' None"

lemma sample_clientset:
  "cs_NewForConfig sample_env sample_cf = Inr \<lparr>cs_DiscoveryClient = (), cs_loadbalancerV1beta1 = sample_rest\<rparr>"
  by (simp add: cs_NewForConfig_def group_NewForConfig_def sample_env_def sample_cf_def setConfigDefaults_def
      rest_client_for_def sample_rest_def api_path Let_def)

lemma sample_sent_ok: "rq_err sample_sent = None" "empty_namespace sample_sent = None"
  by (simp_all add: sample_sent_def delete_request_def Body_def Name_def Resource_def Namespace_def
      IsValidPathSegmentName_def empty_namespace_def NewRequest_def)

theorem request_path_roundtrip_witness:
  "read_target 4 (URL_path sample_sent) = Some (''ns'', ''dnsloadbalancers'', ''lb'', '''') \<and> rq_verb sample_sent = ''DELETE''"
proof -
  let ?cs = "\<lparr>cs_DiscoveryClient = (), cs_loadbalancerV1beta1 = sample_rest\<rparr>"
  have "lbs_call (recording (\<lambda>_ w. (Inr (ReplyStatus None), w))) (group_DNSLoadBalancers (cs_Loadbalancer ?cs) ''ns'')
      (CallDelete ''lb'' None) ([], ()) = Ok ([] @ [sample_sent], ())"
    using sample_sent_ok
    by (simp add: lbs_Delete_def group_DNSLoadBalancers_def newDNSLoadBalancers_def cs_Loadbalancer_def
        sample_sent_def [symmetric] Do_def recording_def)
  from request_path_roundtrip [OF sample_clientset _ _ this, of "[''k8s'']"] show ?thesis
    by (simp add: sample_env_def segment_def)
qed

end
