(* ===== verification/FakeProps.thy ===== *)
theory FakeProps
  imports FakeClient ClientProps
begin

text \<open>
  The fake clientset: its objects behave like a map from namespaces and names, and its actions are
  those the requests of the real client ask the server for.
\<close>

section \<open>Lists of objects with keys\<close>

definition keyed :: "('a \<Rightarrow> 'k) \<Rightarrow> 'a list \<Rightarrow> 'k \<rightharpoonup> 'a" where
  "keyed k xs = map_of (map (\<lambda>x. (k x, x)) xs)"

lemma keyed_Nil [simp]: "keyed k [] = (\<lambda>_. None)"
  by (simp add: keyed_def)

lemma keyed_Cons [simp]: "keyed k (x # xs) = (keyed k xs)(k x \<mapsto> x)"
  by (simp add: keyed_def)

lemma keyed_None: "keyed k xs a = None \<longleftrightarrow> a \<notin> k ` set xs"
  by (induction xs) auto

lemma keyed_append: "keyed k (xs @ ys) = keyed k ys ++ keyed k xs"
  by (simp add: keyed_def)

lemma keyed_nth: "distinct (map k xs) \<Longrightarrow> i < length xs \<Longrightarrow> keyed k xs (k (xs ! i)) = Some (xs ! i)"
proof (induction xs arbitrary: i)
  case (Cons x xs)
  then show ?case by (cases i) (auto simp: image_iff, metis nth_mem)
qed simp

lemma keyed_update:
  "distinct (map k xs) \<Longrightarrow> i < length xs \<Longrightarrow> k (xs ! i) = k x \<Longrightarrow> keyed k (xs[i := x]) = (keyed k xs)(k x \<mapsto> x)"
proof (induction xs arbitrary: i)
  case (Cons y ys)
  show ?case
  proof (cases i)
    case 0
    with Cons.prems show ?thesis by (simp add: fun_eq_iff)
  next
    case (Suc j)
    have "k y \<notin> k ` set ys" using Cons.prems(1) by simp
    moreover have "k x \<in> k ` set ys" using Suc Cons.prems(2,3) by (auto intro!: image_eqI [of _ _ "ys ! j"])
    ultimately have "k y \<noteq> k x" by auto
    with Suc Cons show ?thesis by (auto simp: fun_eq_iff)
  qed
qed simp

lemma keys_update: "i < length xs \<Longrightarrow> k (xs ! i) = k x \<Longrightarrow> map k (xs[i := x]) = map k xs"
  by (metis list_update_id map_update)

lemma keyed_new: "k x \<notin> k ` set xs \<Longrightarrow> keyed k (xs @ [x]) = (keyed k xs)(k x \<mapsto> x)"
  by (induction xs) (auto simp: fun_upd_twist)

lemma keyed_remove:
  assumes "distinct (map k (xs @ x # ys))"
  shows "keyed k (xs @ ys) = (keyed k (xs @ x # ys))(k x := None)"
proof -
  have "keyed k xs (k x) = None" "keyed k ys (k x) = None"
    using assms by (auto simp: keyed_None)
  then show ?thesis by (auto simp: keyed_append map_add_def fun_eq_iff split: option.split)
qed

lemma keyed_set: "distinct (map k xs) \<Longrightarrow> keyed k xs a = Some x \<longleftrightarrow> x \<in> set xs \<and> k x = a"
  by (induction xs) (auto simp: image_iff)

section \<open>The tracker as a map\<close>

definition key_of :: "api_object \<Rightarrow> string \<times> string" where
  "key_of x = (obj_namespace x, obj_name x)"

lemma is_object_key: "is_object ns name x \<longleftrightarrow> key_of x = (ns, name)"
  by (simp add: key_of_def)

definition tracker_map :: "GroupVersionResource \<Rightarrow> tracker \<Rightarrow> string \<times> string \<rightharpoonup> api_object" where
  "tracker_map gvr t = keyed key_of (objects_of gvr t)"

definition distinct_keys :: "GroupVersionResource \<Rightarrow> tracker \<Rightarrow> bool" where
  "distinct_keys gvr t \<longleftrightarrow> distinct (map key_of (objects_of gvr t))"

lemma objects_of_simps [simp]:
  "objects_of gvr (notify gvr' ns e t) = objects_of gvr t"
  "objects_of gvr (t\<lparr>tr_objects := (tr_objects t)(gvr \<mapsto> xs)\<rparr>) = xs"
  "gvr' \<noteq> gvr \<Longrightarrow> objects_of gvr (t\<lparr>tr_objects := (tr_objects t)(gvr' \<mapsto> xs)\<rparr>) = objects_of gvr t"
  "objects_of gvr (t\<lparr>tr_watchers := ws\<rparr>) = objects_of gvr t"
  "objects_of gvr ((notify gvr' ns e t)\<lparr>tr_objects := (tr_objects t)(gvr \<mapsto> xs)\<rparr>) = xs"
  by (simp_all add: objects_of_def notify_def)

lemma find_index_None: "find_index P xs = None \<longleftrightarrow> (\<forall>x\<in>set xs. \<not> P x)"
  by (induction xs) auto

lemma find_index_Some: "find_index P xs = Some i \<Longrightarrow> i < length xs \<and> P (xs ! i)"
  by (induction xs arbitrary: i) (auto split: if_splits)

lemma filter_name:
  assumes "distinct (map key_of xs)" and "ns \<noteq> ''''" and "name \<noteq> ''''"
  shows "filterByNamespaceAndName xs ns name = (case keyed key_of xs (ns, name) of None \<Rightarrow> [] | Some x \<Rightarrow> [x])"
proof -
  have f: "filterByNamespaceAndName xs ns name = filter (\<lambda>x. key_of x = (ns, name)) xs" for xs
    using assms(2,3) by (simp add: filterByNamespaceAndName_def key_of_def)
  show ?thesis unfolding f using assms(1)
  proof (induction xs)
    case (Cons x xs)
    then show ?case
      by (cases "key_of x = (ns, name)")
        (auto simp: filter_empty_conv image_iff keyed_None split: option.split dest: keyed_set [THEN iffD1, rotated])
  qed simp
qed

lemma Get_map:
  assumes "distinct_keys gvr t" and "ns \<noteq> ''''" and "name \<noteq> ''''"
  shows "tracker_Get gvr ns name t =
    (case tracker_map gvr t (ns, name) of None \<Rightarrow> Inl (NewNotFound gvr name) | Some x \<Rightarrow> Inr x)"
proof (cases "tr_objects t gvr")
  case None
  then show ?thesis by (simp add: tracker_Get_def tracker_map_def objects_of_def)
next
  case (Some xs)
  then have xs: "objects_of gvr t = xs" by (simp add: objects_of_def)
  show ?thesis
    using filter_name [of xs ns name] assms Some
    by (simp add: tracker_Get_def tracker_map_def xs distinct_keys_def split: option.split)
qed

lemma set_obj_namespace_keys [simp]:
  "obj_namespace (set_obj_namespace ns x) = ns" "obj_name (set_obj_namespace ns x) = obj_name x"
  by (cases x; simp)+

text \<open>What a store would do: the object takes the namespace of the call, which must not differ from its own.\<close>

definition in_namespace :: "string \<Rightarrow> api_object \<Rightarrow> api_object" where
  "in_namespace ns x = (if obj_namespace x = '''' then set_obj_namespace ns x else x)"

definition put_error :: "GroupVersionResource \<Rightarrow> bool \<Rightarrow> string \<Rightarrow> api_object \<Rightarrow> (string \<times> string \<rightharpoonup> api_object) \<Rightarrow> go_error option" where
  "put_error gvr replace ns x m =
     (let x = in_namespace ns x
      in if ns \<noteq> obj_namespace x then
           Some (OtherError (''request namespace does not match object namespace, request: '' @ quoted ns @
              '' object: '' @ quoted (obj_namespace x)))
         else if replace \<and> m (key_of x) = None then Some (NewNotFound gvr (obj_name x))
         else if \<not> replace \<and> m (key_of x) \<noteq> None then Some (NewAlreadyExists gvr (obj_name x))
         else None)"

definition put_map :: "GroupVersionResource \<Rightarrow> bool \<Rightarrow> string \<Rightarrow> api_object \<Rightarrow> (string \<times> string \<rightharpoonup> api_object) \<Rightarrow>
    (string \<times> string \<rightharpoonup> api_object)" where
  "put_map gvr replace ns x m =
     (if put_error gvr replace ns x m = None then m(key_of (in_namespace ns x) \<mapsto> in_namespace ns x) else m)"

lemma add_map_all:
  assumes "distinct_keys gvr t"
  shows "fst (tracker_add gvr x ns replace t) = put_error gvr replace ns x (tracker_map gvr t) \<and>
    tracker_map gvr (snd (tracker_add gvr x ns replace t)) = put_map gvr replace ns x (tracker_map gvr t) \<and>
    distinct_keys gvr (snd (tracker_add gvr x ns replace t))"
proof -
  define x' where "x' = in_namespace ns x"
  let ?xs = "objects_of gvr t"
  note defs = tracker_add_def Let_def in_namespace_def [symmetric] x'_def [symmetric]
  note specs = put_error_def put_map_def Let_def x'_def [symmetric]
  show ?thesis
  proof (cases "ns = obj_namespace x'")
    case False
    then show ?thesis using assms unfolding defs specs by simp
  next
    case True
    then have key: "is_object ns (obj_name x') y \<longleftrightarrow> key_of y = key_of x'" for y by (simp add: key_of_def)
    show ?thesis
    proof (cases "find_index (is_object ns (obj_name x')) ?xs")
      case None
      then have n: "key_of x' \<notin> key_of ` set ?xs" by (auto simp: find_index_None key)
      then have m: "tracker_map gvr t (key_of x') = None" by (simp add: tracker_map_def keyed_None)
      from n assms have "distinct (map key_of (?xs @ [x']))" by (simp add: distinct_keys_def)
      with True None m assms keyed_new [OF n] show ?thesis
        unfolding defs specs by (simp add: tracker_map_def distinct_keys_def)
    next
      case (Some i)
      then have i: "i < length ?xs" "key_of (?xs ! i) = key_of x'" using find_index_Some key by blast+
      have d: "distinct (map key_of ?xs)" using assms by (simp add: distinct_keys_def)
      have m: "tracker_map gvr t (key_of x') = Some (?xs ! i)"
        using keyed_nth [OF d i(1)] i(2) by (simp add: tracker_map_def)
      show ?thesis
        using True Some m d keyed_update [OF d i] keys_update [OF i]
        unfolding defs specs by (simp add: tracker_map_def distinct_keys_def)
    qed
  qed
qed

lemmas add_map = add_map_all [THEN conjunct1] add_map_all [THEN conjunct2, THEN conjunct1]
  add_map_all [THEN conjunct2, THEN conjunct2]

lemma Delete_map_all:
  assumes "distinct_keys gvr t"
  shows "fst (tracker_Delete gvr ns name t) =
      (if tracker_map gvr t (ns, name) = None then Some (NewNotFound gvr name) else None) \<and>
    tracker_map gvr (snd (tracker_Delete gvr ns name t)) = (tracker_map gvr t)((ns, name) := None) \<and>
    distinct_keys gvr (snd (tracker_Delete gvr ns name t))"
proof (cases "find_index (is_object ns name) (objects_of gvr t)")
  case None
  then have "tracker_map gvr t (ns, name) = None"
    by (auto simp: tracker_map_def keyed_None find_index_None is_object_key)
  with None assms show ?thesis by (simp add: tracker_Delete_def fun_upd_idem)
next
  case (Some i)
  let ?xs = "objects_of gvr t"
  have i: "i < length ?xs" "key_of (?xs ! i) = (ns, name)"
    using find_index_Some [OF Some] by (simp_all add: key_of_def)
  have split: "?xs = take i ?xs @ ?xs ! i # drop (Suc i) ?xs" using i(1) by (rule id_take_nth_drop)
  have d: "distinct (map key_of ?xs)" using assms by (simp add: distinct_keys_def)
  then have d': "distinct (map key_of (take i ?xs @ ?xs ! i # drop (Suc i) ?xs))" using split by simp
  have "tracker_map gvr t (ns, name) \<noteq> None"
    using keyed_nth [OF d i(1)] i(2) by (simp add: tracker_map_def)
  moreover have "keyed key_of (take i ?xs @ drop (Suc i) ?xs) = (tracker_map gvr t)((ns, name) := None)"
    using keyed_remove [OF d'] i(2) split by (simp add: tracker_map_def)
  moreover have "distinct (map key_of (take i ?xs @ drop (Suc i) ?xs))" using d' by auto
  ultimately show ?thesis
    using Some by (simp add: tracker_Delete_def Let_def tracker_map_def distinct_keys_def)
qed

lemmas Delete_map = Delete_map_all [THEN conjunct1] Delete_map_all [THEN conjunct2, THEN conjunct1]
  Delete_map_all [THEN conjunct2, THEN conjunct2]

section \<open>The invariant of the fake\<close>

text \<open>No two objects of a resource share namespace and name, and all are of the resource's kind.\<close>

definition res_ok :: "string \<Rightarrow> GroupVersionResource \<Rightarrow> tracker \<Rightarrow> bool" where
  "res_ok kind gvr t \<longleftrightarrow> distinct_keys gvr t \<and> (\<forall>x\<in>set (objects_of gvr t). object_kind x = kind)"

lemma object_kind_in_namespace [simp]: "object_kind (in_namespace ns x) = object_kind x"
  by (cases x) (simp_all add: in_namespace_def)

lemma add_objects:
  "set (objects_of gvr (snd (tracker_add gvr x ns replace t))) \<subseteq> insert (in_namespace ns x) (set (objects_of gvr t))"
  unfolding tracker_add_def Let_def in_namespace_def [symmetric]
  by (auto split: option.split dest: set_update_subset_insert [THEN subsetD])

lemma Delete_objects: "set (objects_of gvr (snd (tracker_Delete gvr ns name t))) \<subseteq> set (objects_of gvr t)"
  by (auto simp: tracker_Delete_def Let_def split: option.split dest: in_set_takeD in_set_dropD)

lemma res_ok_add: "res_ok kind gvr t \<Longrightarrow> object_kind x = kind \<Longrightarrow> res_ok kind gvr (snd (tracker_add gvr x ns replace t))"
  using add_objects [of gvr x ns replace t] by (auto simp: res_ok_def add_map)

lemma res_ok_Delete: "res_ok kind gvr t \<Longrightarrow> res_ok kind gvr (snd (tracker_Delete gvr ns name t))"
  using Delete_objects [of gvr ns name t] by (auto simp: res_ok_def Delete_map)

lemma notify_objects [simp]: "tr_objects (notify gvr ns e t) = tr_objects t"
  by (simp add: notify_def)

lemma other_resource:
  assumes "gvr' \<noteq> gvr"
  shows "objects_of gvr' (snd (tracker_add gvr x ns replace t)) = objects_of gvr' t"
    and "objects_of gvr' (snd (tracker_Delete gvr ns name t)) = objects_of gvr' t"
  using assms by (auto simp: tracker_add_def tracker_Delete_def objects_of_def Let_def split: option.split)

lemma res_ok_other:
  "gvr' \<noteq> gvr \<Longrightarrow> res_ok kind gvr' (snd (tracker_add gvr x ns replace t)) = res_ok kind gvr' t"
  "gvr' \<noteq> gvr \<Longrightarrow> res_ok kind gvr' (snd (tracker_Delete gvr ns name t)) = res_ok kind gvr' t"
  by (simp_all add: res_ok_def distinct_keys_def other_resource)

abbreviation "lb_gvr \<equiv> dnsloadbalancersResource"
abbreviation "ep_gvr \<equiv> dnsloadbalancerendpointsResource"

lemma gvr_neq [simp]: "lb_gvr \<noteq> ep_gvr" "ep_gvr \<noteq> lb_gvr"
  by (simp_all add: dnsloadbalancersResource_def dnsloadbalancerendpointsResource_def)

definition fake_ok :: "merger \<Rightarrow> Fake \<Rightarrow> bool" where
  "fake_ok merge fk \<longleftrightarrow>
     fk_ReactionChain fk = [(''*'', ''*'', ObjectReaction merge)] \<and>
     fk_WatchReactionChain fk = [(''*'', tracker_watch_reaction)] \<and>
     res_ok dnsloadbalancersKind lb_gvr (fk_tracker fk) \<and>
     res_ok dnsloadbalancerendpointsKind ep_gvr (fk_tracker fk)"

lemma Invokes_ok:
  assumes "fake_ok merge fk"
  shows "Invokes action d fk =
    (case ObjectReaction merge action (fk_tracker fk) of
       ((handled, ret, err), t) \<Rightarrow>
         ((if handled then (ret, err) else (d, None)), fk\<lparr>fk_actions := fk_actions fk @ [action], fk_tracker := t\<rparr>))"
  using assms by (simp add: fake_ok_def Invokes_def Handles_def split: prod.split)

lemma stored_unfold:
  assumes "distinct_keys gvr t" and "ns \<noteq> ''''" and "obj_name x \<noteq> ''''"
  shows "stored gvr ns x (tracker_add gvr x ns replace t) =
    (case put_error gvr replace ns x (tracker_map gvr t) of
       Some e \<Rightarrow> ((True, NoObject, Some e), snd (tracker_add gvr x ns replace t))
     | None \<Rightarrow> ((True, SingleObject (in_namespace ns x), None), snd (tracker_add gvr x ns replace t)))"
proof -
  obtain e t' where r: "tracker_add gvr x ns replace t = (e, t')" by (cases "tracker_add gvr x ns replace t")
  have e: "e = put_error gvr replace ns x (tracker_map gvr t)" and d: "distinct_keys gvr t'"
    and m: "tracker_map gvr t' = put_map gvr replace ns x (tracker_map gvr t)"
    using add_map [OF assms(1), of x ns replace] by (simp_all add: r)
  show ?thesis
  proof (cases e)
    case None
    then have "obj_namespace (in_namespace ns x) = ns" "put_error gvr replace ns x (tracker_map gvr t) = None"
      using e by (auto simp: put_error_def Let_def split: if_splits)
    then have "tracker_map gvr t' (ns, obj_name x) = Some (in_namespace ns x)"
      using m by (simp add: put_map_def key_of_def in_namespace_def)
    then show ?thesis
      using None e Get_map [OF d assms(2,3)] by (simp add: stored_def r)
  qed (use e in \<open>simp add: stored_def r\<close>)
qed

section \<open>The client for load balancers as a map\<close>

definition lb_map :: "Fake \<Rightarrow> string \<times> string \<rightharpoonup> DNSLoadBalancer" where
  "lb_map fk k = (case tracker_map lb_gvr (fk_tracker fk) k of Some (LoadBalancerObject lb) \<Rightarrow> Some lb | _ \<Rightarrow> None)"

text \<open>
  The abstract client: a map from namespaces and names to load balancers. A stored object takes the
  namespace of the client.
\<close>

definition spec_lb :: "string \<Rightarrow> DNSLoadBalancer \<Rightarrow> DNSLoadBalancer" where
  "spec_lb ns lb = (if m_namespace (lb_meta lb) = '''' then lb\<lparr>lb_meta := (lb_meta lb)\<lparr>m_namespace := ns\<rparr>\<rparr> else lb)"

definition spec_Put ::
  "bool \<Rightarrow> string \<Rightarrow> DNSLoadBalancer \<Rightarrow> (string \<times> string \<rightharpoonup> DNSLoadBalancer) \<Rightarrow>
   (DNSLoadBalancer option \<times> go_error option) \<times> (string \<times> string \<rightharpoonup> DNSLoadBalancer)" where
  "spec_Put replace ns lb m =
     (let lb = spec_lb ns lb; name = m_name (lb_meta lb)
      in if m_namespace (lb_meta lb) \<noteq> ns then
           ((None, Some (OtherError (''request namespace does not match object namespace, request: '' @ quoted ns @
              '' object: '' @ quoted (m_namespace (lb_meta lb))))), m)
         else if replace \<and> m (ns, name) = None then ((None, Some (NewNotFound lb_gvr name)), m)
         else if \<not> replace \<and> m (ns, name) \<noteq> None then ((None, Some (NewAlreadyExists lb_gvr name)), m)
         else ((Some lb, None), m((ns, name) \<mapsto> lb)))"

definition spec_Get ::
  "string \<Rightarrow> string \<Rightarrow> (string \<times> string \<rightharpoonup> DNSLoadBalancer) \<Rightarrow> DNSLoadBalancer option \<times> go_error option" where
  "spec_Get ns name m =
     (case m (ns, name) of None \<Rightarrow> (None, Some (NewNotFound lb_gvr name)) | Some lb \<Rightarrow> (Some lb, None))"

definition spec_Delete ::
  "string \<Rightarrow> string \<Rightarrow> (string \<times> string \<rightharpoonup> DNSLoadBalancer) \<Rightarrow>
   go_error option \<times> (string \<times> string \<rightharpoonup> DNSLoadBalancer)" where
  "spec_Delete ns name m =
     (if m (ns, name) = None then (Some (NewNotFound lb_gvr name), m) else (None, m((ns, name) := None)))"

text \<open>A run of the fake client that gives the result of the abstract one, and its map.\<close>

definition refines :: "merger \<Rightarrow> ('r \<times> Fake) outcome \<Rightarrow> 'r \<times> (string \<times> string \<rightharpoonup> DNSLoadBalancer) \<Rightarrow> bool" where
  "refines merge run spec \<longleftrightarrow>
     (case run of Panic \<Rightarrow> False | Ok (r, fk) \<Rightarrow> r = fst spec \<and> lb_map fk = snd spec \<and> fake_ok merge fk)"

lemma lb_object:
  assumes "res_ok dnsloadbalancersKind lb_gvr t" and "tracker_map lb_gvr t k = Some x"
  obtains lb where "x = LoadBalancerObject lb"
  using assms keyed_set [of key_of "objects_of lb_gvr t" k x]
  by (cases x) (auto simp: res_ok_def tracker_map_def distinct_keys_def dnsloadbalancersKind_def)

lemma lb_map_None:
  "fake_ok merge fk \<Longrightarrow> lb_map fk k = None \<longleftrightarrow> tracker_map lb_gvr (fk_tracker fk) k = None"
  by (auto simp: lb_map_def fake_ok_def elim: lb_object split: option.split api_object.split)

lemma in_namespace_lb: "in_namespace ns (LoadBalancerObject lb) = LoadBalancerObject (spec_lb ns lb)"
  by (simp add: in_namespace_def spec_lb_def)

lemma fake_ok_update:
  assumes "fake_ok merge fk" and "res_ok dnsloadbalancersKind lb_gvr t" and "res_ok dnsloadbalancerendpointsKind ep_gvr t"
  shows "fake_ok merge (fk\<lparr>fk_actions := as, fk_tracker := t\<rparr>)"
  using assms by (simp add: fake_ok_def)

lemma put_refines:
  assumes ok: "fake_ok merge fk" and ns: "ns \<noteq> ''''" and name: "m_name (lb_meta lb) \<noteq> ''''"
    and run: "run = lb_result (case stored lb_gvr ns (LoadBalancerObject lb)
        (tracker_add lb_gvr (LoadBalancerObject lb) ns replace (fk_tracker fk)) of
      ((handled, ret, err), t) \<Rightarrow> ((if handled then (ret, err) else d),
        fk\<lparr>fk_actions := as, fk_tracker := t\<rparr>))"
  shows "refines merge run (spec_Put replace ns lb (lb_map fk))"
proof -
  let ?x = "LoadBalancerObject lb" and ?t = "fk_tracker fk"
  let ?t' = "snd (tracker_add lb_gvr ?x ns replace ?t)"
  have res: "res_ok dnsloadbalancersKind lb_gvr ?t" "res_ok dnsloadbalancerendpointsKind ep_gvr ?t"
    using ok by (simp_all add: fake_ok_def)
  then have d: "distinct_keys lb_gvr ?t" by (simp add: res_ok_def)
  have ok': "fake_ok merge (fk\<lparr>fk_actions := as, fk_tracker := ?t'\<rparr>)"
    using res by (intro fake_ok_update [OF ok]) (simp_all add: res_ok_add res_ok_other dnsloadbalancersKind_def)
  have key: "key_of (LoadBalancerObject l) = (m_namespace (lb_meta l), m_name (lb_meta l))" for l
    by (simp add: key_of_def)
  have map: "lb_map (fk\<lparr>fk_actions := as, fk_tracker := ?t'\<rparr>) =
      (if put_error lb_gvr replace ns ?x (tracker_map lb_gvr ?t) = None
       then (lb_map fk)(key_of (in_namespace ns ?x) \<mapsto> spec_lb ns lb) else lb_map fk)"
    using add_map(2) [OF d, of ?x ns replace]
    by (auto simp: lb_map_def put_map_def in_namespace_lb fun_eq_iff)
  have err: "put_error lb_gvr replace ns ?x (tracker_map lb_gvr ?t) = snd (fst (spec_Put replace ns lb (lb_map fk)))"
    by (simp add: put_error_def spec_Put_def Let_def in_namespace_lb key lb_map_None [OF ok])
  have "obj_name ?x \<noteq> ''''" using name by simp
  from stored_unfold [OF d ns this, of replace] ok' map err show ?thesis
    unfolding run refines_def
    by (auto simp: lb_result_def spec_Put_def Let_def in_namespace_lb key split: option.splits if_splits)
qed

lemma put_calls:
  assumes "fake_ok merge fk" and "ns \<noteq> ''''" and "m_name (lb_meta lb) \<noteq> ''''"
  shows "refines merge (fake_lbs_Create ns (Some lb) fk) (spec_Put False ns lb (lb_map fk))"
    and "refines merge (fake_lbs_Update ns (Some lb) fk) (spec_Put True ns lb (lb_map fk))"
    and "refines merge (fake_lbs_UpdateStatus ns (Some lb) fk) (spec_Put True ns lb (lb_map fk))"
  by (rule put_refines [OF assms], simp add: fake_lbs_Create_def fake_lbs_Update_def fake_lbs_UpdateStatus_def
      Invokes_ok [OF assms(1)] NewCreateAction_def NewUpdateAction_def NewUpdateSubresourceAction_def impl_def
      tracker_Create_def tracker_Update_def)+

lemma get_call:
  assumes "fake_ok merge fk" and "ns \<noteq> ''''" and "name \<noteq> ''''"
  shows "refines merge (fake_lbs_Get ns name fk) (spec_Get ns name (lb_map fk), lb_map fk)"
proof -
  have res: "res_ok dnsloadbalancersKind lb_gvr (fk_tracker fk)" "distinct_keys lb_gvr (fk_tracker fk)"
    using assms(1) by (simp_all add: fake_ok_def res_ok_def)
  have ok: "fake_ok merge (fk\<lparr>fk_actions := as, fk_tracker := fk_tracker fk\<rparr>)" for as
    using assms(1) by (simp add: fake_ok_def)
  have map: "lb_map (fk\<lparr>fk_actions := as, fk_tracker := fk_tracker fk\<rparr>) = lb_map fk" for as
    by (simp add: lb_map_def fun_eq_iff)
  show ?thesis
  proof (cases "tracker_map lb_gvr (fk_tracker fk) (ns, name)")
    case None
    with ok map show ?thesis
      by (simp add: refines_def fake_lbs_Get_def Invokes_ok [OF assms(1)] NewGetAction_def impl_def
          Get_map [OF res(2) assms(2,3)] lb_result_def spec_Get_def lb_map_None [OF assms(1)]
          split: option.split)
  next
    case (Some x)
    with lb_object [OF res(1)] obtain lb where "x = LoadBalancerObject lb" by blast
    with Some ok map show ?thesis
      by (simp add: refines_def fake_lbs_Get_def Invokes_ok [OF assms(1)] NewGetAction_def impl_def
          Get_map [OF res(2) assms(2,3)] lb_result_def spec_Get_def) (simp add: lb_map_def)
  qed
qed

lemma delete_call:
  assumes "fake_ok merge fk"
  shows "refines merge (Ok (fake_lbs_Delete ns name options fk)) (spec_Delete ns name (lb_map fk))"
proof -
  let ?t = "fk_tracker fk"
  have res: "res_ok dnsloadbalancersKind lb_gvr ?t" "res_ok dnsloadbalancerendpointsKind ep_gvr ?t" "distinct_keys lb_gvr ?t"
    using assms by (simp_all add: fake_ok_def res_ok_def)
  let ?fk = "fk\<lparr>fk_actions := fk_actions fk @ [NewDeleteAction lb_gvr ns name], fk_tracker := snd (tracker_Delete lb_gvr ns name ?t)\<rparr>"
  have ok: "fake_ok merge ?fk"
    using res by (intro fake_ok_update [OF assms]) (simp_all add: res_ok_Delete res_ok_other)
  have map: "lb_map ?fk = (lb_map fk)((ns, name) := None)"
    using Delete_map(2) [OF res(3), of ns name] by (simp add: lb_map_def fun_eq_iff)
  have call: "fake_lbs_Delete ns name options fk = (fst (tracker_Delete lb_gvr ns name ?t), ?fk)"
    by (simp add: fake_lbs_Delete_def Invokes_ok [OF assms] NewDeleteAction_def impl_def split: prod.split)
  have "(lb_map fk)((ns, name) := None) = lb_map fk" if "lb_map fk (ns, name) = None"
    using that by (simp add: fun_upd_idem)
  then show ?thesis
    using ok map Delete_map(1) [OF res(3), of ns name]
    by (simp add: refines_def call spec_Delete_def lb_map_None [OF assms])
qed


text \<open>A new clientset has the invariant; objects that occur twice make it panic.\<close>

lemma NewSimpleClientset_ok:
  assumes "NewSimpleClientset merge objects = Ok fk"
  shows "fake_ok merge fk"
proof -
  let ?f = "\<lambda>o' obj. case tracker_Add obj o' of (None, o') \<Rightarrow> Ok o' | (Some _, _) \<Rightarrow> Panic"
  let ?I = "\<lambda>t. res_ok dnsloadbalancersKind lb_gvr t \<and> res_ok dnsloadbalancerendpointsKind ep_gvr t"
  have step: "?I t'" if "?I t" "?f t obj = Ok t'" for t t' obj
  proof -
    have t': "t' = snd (tracker_Add obj t)" using that(2) by (auto split: prod.splits option.splits)
    show ?thesis
      using that(1) unfolding t' tracker_Add_def
      by (cases obj) (simp_all add: res_ok_add res_ok_other dnsloadbalancersKind_def dnsloadbalancerendpointsKind_def)
  qed
  have loop: "?I t'" if "?I t" "for_each ?f t xs = Ok t'" for t t' xs
    using that
  proof (induction xs arbitrary: t)
    case (Cons x xs)
    then obtain t1 where "?f t x = Ok t1" "for_each ?f t1 xs = Ok t'" by (auto simp only: for_each.simps bind_outcome_Ok)
    then show ?case using Cons.IH step [OF Cons.prems(1)] by blast
  qed simp
  have "?I NewObjectTracker"
    by (simp add: NewObjectTracker_def res_ok_def distinct_keys_def objects_of_def)
  from assms loop [OF this] show ?thesis
    by (auto simp: NewSimpleClientset_def AddReactor_def AddWatchReactor_def new_fake_def fake_ok_def)
qed

section \<open>Samples\<close>

definition sample_named :: DNSLoadBalancer where
  "sample_named = empty_lb\<lparr>lb_meta := no_meta\<lparr>m_name := ''lb''\<rparr>\<rparr>"

definition no_merge :: merger where
  "no_merge x d = Inr x"

definition sample_fake :: Fake where
  "sample_fake = AddWatchReactor ''*'' tracker_watch_reaction (AddReactor ''*'' ''*'' (ObjectReaction no_merge) new_fake)"

lemma sample_fake_ok: "fake_ok no_merge sample_fake"
  by (rule NewSimpleClientset_ok [of _ "[]"]) (simp add: NewSimpleClientset_def sample_fake_def new_fake_def)


end
