(* ===== verification/FakeCalls.thy ===== *)
theory FakeCalls
  imports FakeProps
begin

text \<open>
  Every call of the fake client for load balancers returns, keeps the invariant of the fake and
  records one action: the one the request of the real client asks for.
\<close>

section \<open>Calls of the fake client\<close>

fun fake_lbs_call :: "selector_parser \<Rightarrow> string \<Rightarrow> DNSLoadBalancer call \<Rightarrow> Fake \<Rightarrow> Fake outcome" where
  "fake_lbs_call parse ns (CallGet name options) fk = map_outcome snd (fake_lbs_Get ns name fk)"
| "fake_lbs_call parse ns (CallList opts) fk = map_outcome snd (fake_lbs_List parse ns opts fk)"
| "fake_lbs_call parse ns (CallWatch opts) fk = map_outcome snd (fake_lbs_Watch parse ns opts fk)"
| "fake_lbs_call parse ns (CallCreate x) fk = map_outcome snd (fake_lbs_Create ns x fk)"
| "fake_lbs_call parse ns (CallUpdate x) fk = map_outcome snd (fake_lbs_Update ns x fk)"
| "fake_lbs_call parse ns (CallUpdateStatus x) fk = map_outcome snd (fake_lbs_UpdateStatus ns x fk)"
| "fake_lbs_call parse ns (CallDelete name options) fk = Ok (snd (fake_lbs_Delete ns name options fk))"
| "fake_lbs_call parse ns (CallDeleteCollection options opts) fk =
     map_outcome snd (fake_lbs_DeleteCollection parse ns options opts fk)"
| "fake_lbs_call parse ns (CallPatch name pt data subresources) fk =
     map_outcome snd (fake_lbs_Patch ns name pt data subresources fk)"

text \<open>The action of a call, given what its label selector stands for.\<close>

fun call_action :: "selector_parser \<Rightarrow> string \<Rightarrow> DNSLoadBalancer call \<Rightarrow> Action outcome" where
  "call_action parse ns (CallGet name options) = Ok (NewGetAction lb_gvr ns name)"
| "call_action parse ns (CallList opts) = NewListAction parse lb_gvr dnsloadbalancersKind ns opts"
| "call_action parse ns (CallWatch opts) = NewWatchAction parse lb_gvr ns opts"
| "call_action parse ns (CallCreate x) = Ok (NewCreateAction lb_gvr ns (map_option LoadBalancerObject x))"
| "call_action parse ns (CallUpdate x) = Ok (NewUpdateAction lb_gvr ns (map_option LoadBalancerObject x))"
| "call_action parse ns (CallUpdateStatus x) =
     Ok (NewUpdateSubresourceAction lb_gvr ''status'' ns (map_option LoadBalancerObject x))"
| "call_action parse ns (CallDelete name options) = Ok (NewDeleteAction lb_gvr ns name)"
| "call_action parse ns (CallDeleteCollection options opts) = NewDeleteCollectionAction parse lb_gvr ns opts"
| "call_action parse ns (CallPatch name pt data subresources) = Ok (NewPatchSubresourceAction lb_gvr ns name data subresources)"

fun call_options :: "'o call \<Rightarrow> ListOptions option" where
  "call_options (CallList opts) = Some opts"
| "call_options (CallWatch opts) = Some opts"
| "call_options (CallDeleteCollection _ opts) = Some opts"
| "call_options _ = None"

definition selectors_parse :: "selector_parser \<Rightarrow> 'o call \<Rightarrow> bool" where
  "selectors_parse parse call \<longleftrightarrow>
     (case call_options call of None \<Rightarrow> True | Some opts \<Rightarrow> parse (lo_LabelSelector opts) \<noteq> None)"

definition merge_keeps_kind :: "merger \<Rightarrow> bool" where
  "merge_keeps_kind merge \<longleftrightarrow> (\<forall>x d y. merge x d = Inr y \<longrightarrow> object_kind y = object_kind x)"

section \<open>Reactions keep the invariant\<close>

fun ret_kind :: "string \<Rightarrow> ret \<Rightarrow> bool" where
  "ret_kind kind NoObject = True"
| "ret_kind kind (SingleObject x) = (object_kind x = kind)"
| "ret_kind kind (ObjectsList xs) = list_all (\<lambda>x. object_kind x = kind) xs"

fun action_kind :: "string \<Rightarrow> Action \<Rightarrow> bool" where
  "action_kind kind (CreateActionImpl _ obj) = (case obj of None \<Rightarrow> True | Some x \<Rightarrow> object_kind x = kind)"
| "action_kind kind (UpdateActionImpl _ obj) = (case obj of None \<Rightarrow> True | Some x \<Rightarrow> object_kind x = kind)"
| "action_kind kind (ListActionImpl _ k _) = (k = kind)"
| "action_kind kind _ = True"

lemma Get_kind: "res_ok kind gvr t \<Longrightarrow> tracker_Get gvr ns name t = Inr x \<Longrightarrow> object_kind x = kind"
  by (auto simp: tracker_Get_def res_ok_def objects_of_def filterByNamespaceAndName_def
      filter_eq_Cons_iff split: option.splits list.splits)

definition both_ok :: "tracker \<Rightarrow> bool" where
  "both_ok t \<longleftrightarrow> res_ok dnsloadbalancersKind lb_gvr t \<and> res_ok dnsloadbalancerendpointsKind ep_gvr t"

lemma both_ok_add: "both_ok t \<Longrightarrow> object_kind x = dnsloadbalancersKind \<Longrightarrow> both_ok (snd (tracker_add lb_gvr x ns replace t))"
  by (simp add: both_ok_def res_ok_add res_ok_other)

lemma both_ok_Delete: "both_ok t \<Longrightarrow> both_ok (snd (tracker_Delete lb_gvr ns name t))"
  by (simp add: both_ok_def res_ok_Delete res_ok_other)

text \<open>What a reaction on load balancers leaves: an object of the kind and a tracker with the invariant.\<close>

definition reaction_ok :: "(bool \<times> ret \<times> go_error option) \<times> tracker \<Rightarrow> bool" where
  "reaction_ok r \<longleftrightarrow> ret_kind dnsloadbalancersKind (fst (snd (fst r))) \<and> both_ok (snd r)"

lemma stored_ok:
  assumes "both_ok t" and "object_kind x = dnsloadbalancersKind"
  shows "reaction_ok (stored lb_gvr ns x (tracker_add lb_gvr x ns replace t))"
proof -
  obtain e t' where r: "tracker_add lb_gvr x ns replace t = (e, t')" by (cases "tracker_add lb_gvr x ns replace t")
  have "both_ok t'" using both_ok_add [OF assms, of ns replace] by (simp add: r)
  then show ?thesis
    using Get_kind by (auto simp: r stored_def reaction_ok_def both_ok_def split: option.split sum.split)
qed

lemma update_ok:
  assumes "both_ok t" and "object_kind x = dnsloadbalancersKind"
  shows "reaction_ok (case tracker_add lb_gvr x ns replace t of
      (Some e, t) \<Rightarrow> ((True, NoObject, Some e), t) | (None, t) \<Rightarrow> ((True, SingleObject x, None), t))"
  using both_ok_add [OF assms, of ns replace] assms(2)
  by (auto simp: reaction_ok_def split: prod.split option.split)

lemma ObjectReaction_ok:
  assumes "both_ok t" and "merge_keeps_kind merge" and "ac_Resource (action_impl action) = lb_gvr"
    and "action_kind dnsloadbalancersKind action"
  shows "reaction_ok (ObjectReaction merge action t)"
proof (cases action)
  case (ListActionImpl a k re)
  then show ?thesis
    using assms by (auto simp: reaction_ok_def tracker_List_def Let_def split: option.split)
next
  case (GetActionImpl a name)
  then show ?thesis
    using assms Get_kind by (auto simp: reaction_ok_def both_ok_def split: sum.split)
next
  case (CreateActionImpl a obj)
  then show ?thesis
    using assms stored_ok [OF assms(1)]
    by (auto simp: tracker_Create_def tracker_Update_def split: option.split)
      (simp add: reaction_ok_def)
next
  case (UpdateActionImpl a obj)
  then show ?thesis
    using assms stored_ok [OF assms(1)]
    by (auto simp: tracker_Update_def split: option.split) (simp add: reaction_ok_def)
next
  case (DeleteActionImpl a name)
  then show ?thesis
    using assms both_ok_Delete [OF assms(1), of "ac_Namespace a" name] by (auto simp: reaction_ok_def split: prod.split)
next
  case (PatchActionImpl a name patch)
  show ?thesis
  proof (cases "tracker_Get lb_gvr (ac_Namespace a) name t")
    case (Inl e)
    then show ?thesis using assms PatchActionImpl by (simp add: reaction_ok_def)
  next
    case x: (Inr x)
    then have k: "object_kind x = dnsloadbalancersKind" using assms(1) Get_kind by (auto simp: both_ok_def)
    show ?thesis
    proof (cases "merge x patch")
      case (Inl e)
      then show ?thesis using assms PatchActionImpl x by (simp add: reaction_ok_def)
    next
      case (Inr y)
      then have "object_kind y = dnsloadbalancersKind" using assms(2) k by (simp add: merge_keeps_kind_def)
      from update_ok [OF assms(1) this] show ?thesis
        using assms(3) PatchActionImpl x Inr by (simp add: tracker_Update_def)
    qed
  qed
qed (use assms in \<open>simp_all add: reaction_ok_def\<close>)

text \<open>Lists are returned for list actions only.\<close>

abbreviation is_list_action :: "Action \<Rightarrow> bool" where
  "is_list_action action \<equiv> (case action of ListActionImpl _ _ _ \<Rightarrow> True | _ \<Rightarrow> False)"

fun is_list_ret :: "ret \<Rightarrow> bool" where
  "is_list_ret (ObjectsList _) = True" | "is_list_ret _ = False"

fun is_single_ret :: "ret \<Rightarrow> bool" where
  "is_single_ret (SingleObject _) = True" | "is_single_ret _ = False"

lemma stored_shape: "\<not> is_list_ret (fst (snd (fst (stored gvr ns x r))))"
  by (simp add: stored_def split: prod.split option.split sum.split)

lemma ObjectReaction_shape:
  "if is_list_action action then \<not> is_single_ret (fst (snd (fst (ObjectReaction merge action t))))
   else \<not> is_list_ret (fst (snd (fst (ObjectReaction merge action t))))"
  by (cases action) (simp_all add: stored_shape split: prod.split option.split sum.split)

lemma Invokes_runs:
  assumes ok: "fake_ok merge fk" and merge: "merge_keeps_kind merge"
    and action: "ac_Resource (action_impl action) = lb_gvr" "action_kind dnsloadbalancersKind action"
    and d: "ret_kind dnsloadbalancersKind d" "if is_list_action action then \<not> is_single_ret d else \<not> is_list_ret d"
  obtains ret err fk' where "Invokes action d fk = ((ret, err), fk')"
    and "ret_kind dnsloadbalancersKind ret" and "if is_list_action action then \<not> is_single_ret ret else \<not> is_list_ret ret"
    and "fk_actions fk' = fk_actions fk @ [action]" and "fake_ok merge fk'"
proof -
  obtain handled ret err t where r: "ObjectReaction merge action (fk_tracker fk) = ((handled, ret, err), t)"
    by (metis prod_cases4 surj_pair)
  have "both_ok (fk_tracker fk)" using ok by (simp add: fake_ok_def both_ok_def)
  from ObjectReaction_ok [OF this merge action] have k: "ret_kind dnsloadbalancersKind ret" "both_ok t"
    by (simp_all add: r reaction_ok_def)
  have ok': "fake_ok merge (fk\<lparr>fk_actions := fk_actions fk @ [action], fk_tracker := t\<rparr>)"
    using k(2) by (intro fake_ok_update [OF ok]) (simp_all add: both_ok_def)
  show ?thesis
    using Invokes_ok [OF ok, of action d] ObjectReaction_shape [of action merge "fk_tracker fk"] k ok' d
    by (intro that [of "if handled then ret else d" "if handled then err else None"
          "fk\<lparr>fk_actions := fk_actions fk @ [action], fk_tracker := t\<rparr>"]) (auto simp: r)
qed

section \<open>Every call returns\<close>

lemma lb_kind: "object_kind x = dnsloadbalancersKind \<longleftrightarrow> (\<exists>lb. x = LoadBalancerObject lb)"
  by (cases x) (simp_all add: dnsloadbalancersKind_def)

lemma lbs_of_kind: "list_all (\<lambda>x. object_kind x = dnsloadbalancersKind) xs \<Longrightarrow> lbs_of xs \<noteq> None"
  by (induction xs rule: lbs_of.induct) (auto simp: dnsloadbalancersKind_def)

lemma lb_result_returns:
  assumes "ret_kind dnsloadbalancersKind ret" and "\<not> is_list_ret ret"
  shows "map_outcome snd (lb_result ((ret, err), fk)) = Ok fk"
  using assms by (cases ret) (auto simp: lb_result_def lb_kind)

lemma action_parts [simp]:
  "action_impl (NewGetAction g ns n) = impl ''get'' g '''' ns" "action_kind k (NewGetAction g ns n)"
  "action_impl (NewCreateAction g ns x) = impl ''create'' g '''' ns"
  "action_impl (NewUpdateAction g ns x) = impl ''update'' g '''' ns"
  "action_impl (NewUpdateSubresourceAction g sub ns x) = impl ''update'' g sub ns"
  "action_impl (NewDeleteAction g ns n) = impl ''delete'' g '''' ns" "action_kind k (NewDeleteAction g ns n)"
  "action_impl (NewPatchSubresourceAction g ns n p ss) = impl ''patch'' g (path_Join ss) ns"
  "action_kind k (NewPatchSubresourceAction g ns n p ss)"
  "\<not> is_list_action (NewGetAction g ns n)" "\<not> is_list_action (NewCreateAction g ns x)"
  "\<not> is_list_action (NewUpdateAction g ns x)" "\<not> is_list_action (NewUpdateSubresourceAction g sub ns x)"
  "\<not> is_list_action (NewDeleteAction g ns n)" "\<not> is_list_action (NewPatchSubresourceAction g ns n p ss)"
  "ac_Resource (impl v g s ns) = g" "ac_Verb (impl v g s ns) = v" "ac_Namespace (impl v g s ns) = ns"
  "ac_Subresource (impl v g s ns) = s"
  by (simp_all add: NewGetAction_def NewCreateAction_def NewUpdateAction_def NewUpdateSubresourceAction_def
      NewDeleteAction_def NewPatchSubresourceAction_def impl_def)

lemma action_kinds [simp]:
  "action_kind dnsloadbalancersKind (NewCreateAction g ns (map_option LoadBalancerObject x))"
  "action_kind dnsloadbalancersKind (NewUpdateAction g ns (map_option LoadBalancerObject x))"
  "action_kind dnsloadbalancersKind (NewUpdateSubresourceAction g sub ns (map_option LoadBalancerObject x))"
  by (cases x; simp add: NewCreateAction_def NewUpdateAction_def NewUpdateSubresourceAction_def dnsloadbalancersKind_def)+

definition call_returns :: "merger \<Rightarrow> Fake \<Rightarrow> Action \<Rightarrow> Fake outcome \<Rightarrow> bool" where
  "call_returns merge fk a run \<longleftrightarrow> (\<exists>fk'. run = Ok fk' \<and> fk_actions fk' = fk_actions fk @ [a] \<and> fake_ok merge fk')"

lemma single_returns:
  assumes "fake_ok merge fk" and "merge_keeps_kind merge"
    and "ac_Resource (action_impl a) = lb_gvr" and "action_kind dnsloadbalancersKind a" and "\<not> is_list_action a"
  shows "call_returns merge fk a (map_outcome snd (lb_result (Invokes a (SingleObject (LoadBalancerObject empty_lb)) fk)))"
proof -
  obtain ret err fk' where "Invokes a (SingleObject (LoadBalancerObject empty_lb)) fk = ((ret, err), fk')"
    "ret_kind dnsloadbalancersKind ret" "\<not> is_list_ret ret" "fk_actions fk' = fk_actions fk @ [a]" "fake_ok merge fk'"
    by (rule Invokes_runs [OF assms(1-4), of "SingleObject (LoadBalancerObject empty_lb)"])
      (use assms(5) in \<open>auto simp: dnsloadbalancersKind_def\<close>)
  then show ?thesis by (simp add: call_returns_def lb_result_returns)
qed

lemma fake_call_returns:
  assumes ok: "fake_ok merge fk" and merge: "merge_keeps_kind merge" and parse: "selectors_parse parse call"
  shows "\<exists>a. call_action parse ns call = Ok a \<and> call_returns merge fk a (fake_lbs_call parse ns call fk)"
proof (cases call)
  case (CallList opts)
  then obtain sel where sel: "parse (lo_LabelSelector opts) = Some sel" using parse by (auto simp: selectors_parse_def)
  let ?a = "ListActionImpl (impl ''list'' lb_gvr '''' ns) dnsloadbalancersKind
    \<lparr>re_Labels = sel, re_Fields = lo_FieldSelector opts\<rparr>"
  obtain ret err fk' where r: "Invokes ?a (ObjectsList []) fk = ((ret, err), fk')"
    "ret_kind dnsloadbalancersKind ret" "\<not> is_single_ret ret" "fk_actions fk' = fk_actions fk @ [?a]" "fake_ok merge fk'"
    by (rule Invokes_runs [OF ok merge, of ?a "ObjectsList []"]) auto
  then show ?thesis
    using CallList sel lbs_of_kind
    by (cases ret) (auto simp: call_returns_def fake_lbs_List_def NewListAction_def ExtractFromListOptions_def
        split: option.split)
next
  case (CallWatch opts)
  then obtain sel where "parse (lo_LabelSelector opts) = Some sel" using parse by (auto simp: selectors_parse_def)
  with CallWatch ok show ?thesis
    by (auto simp: call_returns_def fake_lbs_Watch_def NewWatchAction_def ExtractFromListOptions_def InvokesWatch_def
        fake_ok_def Handles_def tracker_watch_reaction_def tracker_Watch_def res_ok_def distinct_keys_def)
next
  case (CallDeleteCollection options opts)
  then obtain sel where sel: "parse (lo_LabelSelector opts) = Some sel" using parse by (auto simp: selectors_parse_def)
  let ?a = "DeleteCollectionActionImpl (impl ''delete-collection'' lb_gvr '''' ns)
    \<lparr>re_Labels = sel, re_Fields = lo_FieldSelector opts\<rparr>"
  have "Invokes ?a (ObjectsList []) fk = ((ObjectsList [], None), fk\<lparr>fk_actions := fk_actions fk @ [?a]\<rparr>)"
    by (simp add: Invokes_ok [OF ok])
  with CallDeleteCollection sel ok show ?thesis
    by (simp add: call_returns_def fake_lbs_DeleteCollection_def NewDeleteCollectionAction_def
        ExtractFromListOptions_def fake_ok_def)
next
  case (CallDelete name options)
  have "call_returns merge fk (NewDeleteAction lb_gvr ns name)
      (map_outcome snd (lb_result (Invokes (NewDeleteAction lb_gvr ns name) (SingleObject (LoadBalancerObject empty_lb)) fk)))"
    by (rule single_returns [OF ok merge]) simp_all
  with CallDelete show ?thesis
    by (auto simp: call_returns_def fake_lbs_Delete_def lb_result_def split: prod.splits ret.splits api_object.splits)
qed (auto simp: fake_lbs_Get_def fake_lbs_Create_def fake_lbs_Update_def fake_lbs_UpdateStatus_def fake_lbs_Patch_def
    intro!: single_returns [OF ok merge])

section \<open>The same actions as the real client\<close>

text \<open>
  What the API server takes a request for: the operation follows from the verb, from whether the
  path has a name and from the parameter \<open>watch\<close>.
\<close>

record attributes =
  at_verb :: string
  at_namespace :: string
  at_resource :: string
  at_subresource :: string
  at_name :: string

definition api_verb :: "string \<Rightarrow> (string \<times> param) list \<Rightarrow> string \<Rightarrow> string" where
  "api_verb verb params name =
     (if verb = ''POST'' then ''create''
      else if verb = ''PUT'' then ''update''
      else if verb = ''PATCH'' then ''patch''
      else if verb = ''DELETE'' then (if name = '''' then ''delete-collection'' else ''delete'')
      else if (''watch'', PBool True) \<in> set params then ''watch''
      else if name = '''' then ''list'' else ''get'')"

definition request_attributes :: "nat \<Rightarrow> Request \<Rightarrow> attributes option" where
  "request_attributes n r =
     map_option (\<lambda>(ns, resource, name, sub).
       \<lparr>at_verb = api_verb (rq_verb r) (rq_params r) name, at_namespace = ns, at_resource = resource,
        at_subresource = sub, at_name = name\<rparr>) (read_target n (URL_path r))"

text \<open>The name an action is about: that of the object for updates.\<close>

fun action_name :: "Action \<Rightarrow> string" where
  "action_name (GetActionImpl _ name) = name"
| "action_name (UpdateActionImpl _ (Some x)) = obj_name x"
| "action_name (DeleteActionImpl _ name) = name"
| "action_name (PatchActionImpl _ name _) = name"
| "action_name _ = ''''"

definition action_attributes :: "Action \<Rightarrow> attributes" where
  "action_attributes a =
     \<lparr>at_verb = ac_Verb (action_impl a), at_namespace = ac_Namespace (action_impl a),
      at_resource = gvr_Resource (ac_Resource (action_impl a)), at_subresource = ac_Subresource (action_impl a),
      at_name = action_name a\<rparr>"

text \<open>A list whose options ask for a watch is a watch for the server and a list for the fake.\<close>

definition not_a_disguised_watch :: "'o call \<Rightarrow> bool" where
  "not_a_disguised_watch call \<longleftrightarrow> (case call of CallList opts \<Rightarrow> \<not> lo_Watch opts | _ \<Rightarrow> True)"

lemma watch_param:
  "(''watch'', PBool True) \<in> set (encode_ListOptions opts) \<longleftrightarrow> lo_Watch opts"
  "(''watch'', PBool True) \<notin> set (encode_GetOptions options)"
  by (auto simp: encode_ListOptions_def encode_GetOptions_def split: option.split)

lemma call_attributes:
  assumes "call_request dnsloadbalancers lb_meta LoadBalancerObject c call = Some r" and "rq_err r = None"
    and "call_action parse ns call = Ok a" and "not_a_disguised_watch call"
  shows "action_attributes a =
    \<lparr>at_verb = api_verb (call_verb call) (call_params call) (call_name lb_meta call), at_namespace = ns,
     at_resource = dnsloadbalancers, at_subresource = call_subresource call, at_name = call_name lb_meta call\<rparr>"
proof -
  note p = call_request_parts [OF assms(1,2)]
  have name: "call_name lb_meta call = '''' \<longleftrightarrow> on_collection call" using p(7,10) by simp
  have nil: "call \<noteq> CallUpdate None" "call \<noteq> CallUpdateStatus None" using assms(1) by auto
  have gvr: "gvr_Resource lb_gvr = dnsloadbalancers" by (simp add: dnsloadbalancersResource_def)
  show ?thesis
  proof (cases call)
    case (CallUpdate x)
    with nil assms(3) gvr show ?thesis
      by (cases x) (auto simp: action_attributes_def api_verb_def NewUpdateAction_def impl_def)
  next
    case (CallUpdateStatus x)
    with nil assms(3) gvr show ?thesis
      by (cases x) (auto simp: action_attributes_def api_verb_def NewUpdateSubresourceAction_def impl_def)
  qed (use assms(3,4) gvr name in \<open>auto simp: action_attributes_def api_verb_def watch_param not_a_disguised_watch_def
      NewGetAction_def NewListAction_def NewWatchAction_def NewCreateAction_def NewDeleteAction_def
      NewDeleteCollectionAction_def NewPatchSubresourceAction_def ExtractFromListOptions_def impl_def
      split: option.splits\<close>)
qed



end
