(* ===== verification/Informers.thy ===== *)
theory Informers
  imports FakeClient
begin

text \<open>
  The shared informer factory of \<open>pkg/client/informers/externalversions\<close> (\<open>factory.go\<close>,
  \<open>generic.go\<close> and the typed informers under \<open>loadbalancer\<close>) and the listers of \<open>pkg/client/listers\<close>.
  The informers themselves are objects of \<open>client-go\<close>: what is known of one is its identity and what
  it was made of.
\<close>

section \<open>Informers\<close>

text \<open>A \<open>reflect.Type\<close> is its name; a \<open>TweakListOptionsFunc\<close> changes the list options.\<close>

type_synonym tweak = "ListOptions \<Rightarrow> ListOptions"

record informer =
  in_id :: nat
  in_type :: string
  in_namespace :: string
  in_tweak :: "tweak option"
  in_resync :: duration
  in_indexers :: "string list"

definition lb_type :: string where "lb_type = ''v1beta1.DNSLoadBalancer''"
definition ep_type :: string where "ep_type = ''v1beta1.DNSLoadBalancerEndpoint''"
definition NamespaceIndex :: string where "NamespaceIndex = ''namespace''"

text \<open>\<open>cache.NewSharedIndexInformer\<close>: a new one, whose identity comes from a counter.\<close>

type_synonym new_informer = "duration \<Rightarrow> nat \<Rightarrow> informer"

definition NewFilteredDNSLoadBalancerInformer :: "string \<Rightarrow> duration \<Rightarrow> string list \<Rightarrow> tweak option \<Rightarrow> nat \<Rightarrow> informer" where
  "NewFilteredDNSLoadBalancerInformer namespace resyncPeriod indexers tweakListOptions n =
     \<lparr>in_id = n, in_type = lb_type, in_namespace = namespace, in_tweak = tweakListOptions, in_resync = resyncPeriod,
      in_indexers = indexers\<rparr>"

definition NewFilteredDNSLoadBalancerEndpointInformer ::
  "string \<Rightarrow> duration \<Rightarrow> string list \<Rightarrow> tweak option \<Rightarrow> nat \<Rightarrow> informer" where
  "NewFilteredDNSLoadBalancerEndpointInformer namespace resyncPeriod indexers tweakListOptions n =
     \<lparr>in_id = n, in_type = ep_type, in_namespace = namespace, in_tweak = tweakListOptions, in_resync = resyncPeriod,
      in_indexers = indexers\<rparr>"

definition NewDNSLoadBalancerInformer where
  "NewDNSLoadBalancerInformer namespace resyncPeriod indexers =
     NewFilteredDNSLoadBalancerInformer namespace resyncPeriod indexers None"

definition NewDNSLoadBalancerEndpointInformer where
  "NewDNSLoadBalancerEndpointInformer namespace resyncPeriod indexers =
     NewFilteredDNSLoadBalancerEndpointInformer namespace resyncPeriod indexers None"

text \<open>The list and watch functions the informers are made with.\<close>

definition tweaked :: "informer \<Rightarrow> ListOptions \<Rightarrow> ListOptions" where
  "tweaked i options = (case in_tweak i of None \<Rightarrow> options | Some tweak \<Rightarrow> tweak options)"

definition lb_ListFunc where
  "lb_ListFunc srv cs i options w =
     lbs_List srv (group_DNSLoadBalancers (cs_LoadbalancerV1beta1 cs) (in_namespace i)) (tweaked i options) w"

definition lb_WatchFunc where
  "lb_WatchFunc srv cs i options w =
     lbs_Watch srv (group_DNSLoadBalancers (cs_LoadbalancerV1beta1 cs) (in_namespace i)) (tweaked i options) w"

definition ep_ListFunc where
  "ep_ListFunc srv cs i options w =
     eps_List srv (group_DNSLoadBalancerEndpoints (cs_LoadbalancerV1beta1 cs) (in_namespace i)) (tweaked i options) w"

definition ep_WatchFunc where
  "ep_WatchFunc srv cs i options w =
     eps_Watch srv (group_DNSLoadBalancerEndpoints (cs_LoadbalancerV1beta1 cs) (in_namespace i)) (tweaked i options) w"

section \<open>The factory\<close>

text \<open>
  The maps of the factory are lists of pairs in the order \<open>range\<close> visits them. \<open>fa_running\<close> lists the
  informers a goroutine was started for, in order, and \<open>fa_next\<close> is the next free identity.
\<close>

record factory =
  fa_namespace :: string
  fa_tweak :: "tweak option"
  fa_defaultResync :: duration
  fa_customResync :: "string \<rightharpoonup> duration"
  fa_informers :: "(string \<times> informer) list"
  fa_started :: "string list"
  fa_running :: "informer list"
  fa_next :: nat

datatype SharedInformerOption =
    WithCustomResyncConfig "(string \<times> duration) list"
  | WithTweakListOptions "tweak option"
  | WithNamespace string

fun apply_option :: "SharedInformerOption \<Rightarrow> factory \<Rightarrow> factory" where
  "apply_option (WithCustomResyncConfig resyncConfig) f =
     foldl (\<lambda>f (k, v). f\<lparr>fa_customResync := (fa_customResync f)(k \<mapsto> v)\<rparr>) f resyncConfig"
| "apply_option (WithTweakListOptions tweakListOptions) f = f\<lparr>fa_tweak := tweakListOptions\<rparr>"
| "apply_option (WithNamespace namespace) f = f\<lparr>fa_namespace := namespace\<rparr>"

definition NewSharedInformerFactoryWithOptions :: "duration \<Rightarrow> SharedInformerOption list \<Rightarrow> factory" where
  "NewSharedInformerFactoryWithOptions defaultResync options =
     foldl (\<lambda>f opt. apply_option opt f)
       \<lparr>fa_namespace = '''', fa_tweak = None, fa_defaultResync = defaultResync, fa_customResync = (\<lambda>_. None),
        fa_informers = [], fa_started = [], fa_running = [], fa_next = 0\<rparr> options"

definition NewSharedInformerFactory :: "duration \<Rightarrow> factory" where
  "NewSharedInformerFactory defaultResync = NewSharedInformerFactoryWithOptions defaultResync []"

definition NewFilteredSharedInformerFactory :: "duration \<Rightarrow> string \<Rightarrow> tweak option \<Rightarrow> factory" where
  "NewFilteredSharedInformerFactory defaultResync namespace tweakListOptions =
     NewSharedInformerFactoryWithOptions defaultResync [WithNamespace namespace, WithTweakListOptions tweakListOptions]"

definition start_step :: "factory \<Rightarrow> string \<times> informer \<Rightarrow> factory" where
  "start_step f = (\<lambda>(informerType, informer).
     if informerType \<notin> set (fa_started f)
     then f\<lparr>fa_running := fa_running f @ [informer], fa_started := keyset_add informerType (fa_started f)\<rparr>
     else f)"

definition Start :: "factory \<Rightarrow> factory" where
  "Start f = foldl start_step f (fa_informers f)"

definition InformerFor :: "string \<Rightarrow> new_informer \<Rightarrow> factory \<Rightarrow> informer \<times> factory" where
  "InformerFor informerType newFunc f =
     (case map_of (fa_informers f) informerType of
        Some informer \<Rightarrow> (informer, f)
      | None \<Rightarrow>
          let resyncPeriod = (case fa_customResync f informerType of None \<Rightarrow> fa_defaultResync f | Some d \<Rightarrow> d);
              informer = newFunc resyncPeriod (fa_next f)
          in (informer, f\<lparr>fa_informers := fa_informers f @ [(informerType, informer)], fa_next := Suc (fa_next f)\<rparr>))"

text \<open>
  The typed informers: \<open>Loadbalancer().V1beta1().DNSLoadBalancers()\<close> hands the namespace and the tweak
  function of the factory down to a \<open>dNSLoadBalancerInformer\<close>.
\<close>

record typed_informer =
  ti_namespace :: string
  ti_tweak :: "tweak option"

definition group_of :: "factory \<Rightarrow> typed_informer" where
  "group_of f = \<lparr>ti_namespace = fa_namespace f, ti_tweak = fa_tweak f\<rparr>"

definition version_of :: "typed_informer \<Rightarrow> typed_informer" where
  "version_of g = \<lparr>ti_namespace = ti_namespace g, ti_tweak = ti_tweak g\<rparr>"

definition v_DNSLoadBalancers :: "typed_informer \<Rightarrow> typed_informer" where
  "v_DNSLoadBalancers v = \<lparr>ti_namespace = ti_namespace v, ti_tweak = ti_tweak v\<rparr>"

definition v_DNSLoadBalancerEndpoints :: "typed_informer \<Rightarrow> typed_informer" where
  "v_DNSLoadBalancerEndpoints v = \<lparr>ti_namespace = ti_namespace v, ti_tweak = ti_tweak v\<rparr>"

definition lb_defaultInformer :: "typed_informer \<Rightarrow> new_informer" where
  "lb_defaultInformer t resyncPeriod =
     NewFilteredDNSLoadBalancerInformer (ti_namespace t) resyncPeriod [NamespaceIndex] (ti_tweak t)"

definition ep_defaultInformer :: "typed_informer \<Rightarrow> new_informer" where
  "ep_defaultInformer t resyncPeriod =
     NewFilteredDNSLoadBalancerEndpointInformer (ti_namespace t) resyncPeriod [NamespaceIndex] (ti_tweak t)"

definition lb_Informer :: "factory \<Rightarrow> informer \<times> factory" where
  "lb_Informer f = InformerFor lb_type (lb_defaultInformer (v_DNSLoadBalancers (version_of (group_of f)))) f"

definition ep_Informer :: "factory \<Rightarrow> informer \<times> factory" where
  "ep_Informer f = InformerFor ep_type (ep_defaultInformer (v_DNSLoadBalancerEndpoints (version_of (group_of f)))) f"

record genericInformer =
  gi_informer :: informer
  gi_resource :: "string \<times> string"

definition ForResource :: "GroupVersionResource \<Rightarrow> factory \<Rightarrow> (go_error + genericInformer) \<times> factory" where
  "ForResource resource f =
     (if resource = \<lparr>gvr_Group = fst SchemeGroupVersion, gvr_Version = snd SchemeGroupVersion, gvr_Resource = ''dnsloadbalancers''\<rparr>
      then (case lb_Informer f of (i, f) \<Rightarrow>
        (Inr \<lparr>gi_informer = i, gi_resource = (gvr_Group resource, gvr_Resource resource)\<rparr>, f))
      else if resource = \<lparr>gvr_Group = fst SchemeGroupVersion, gvr_Version = snd SchemeGroupVersion, gvr_Resource = ''dnsloadbalancerendpoints''\<rparr>
      then (case ep_Informer f of (i, f) \<Rightarrow>
        (Inr \<lparr>gi_informer = i, gi_resource = (gvr_Group resource, gvr_Resource resource)\<rparr>, f))
      else (Inl (OtherError (''no informer found for '' @ gvr_Group resource @ ''/'' @ gvr_Version resource @
        '', Resource='' @ gvr_Resource resource)), f))"

section \<open>Waiting for the caches\<close>

text \<open>
  \<open>wait.WaitFor\<close>: each turn takes a tick, tests the condition and ends when the stop channel is
  closed. \<open>stopped n\<close> and \<open>cond n\<close> are what turn \<open>n\<close> finds; the loop may run forever.
\<close>

partial_function (option) WaitFor :: "(nat \<Rightarrow> bool) \<Rightarrow> (nat \<Rightarrow> bool) \<Rightarrow> nat \<Rightarrow> (bool \<times> nat) option" where
  "WaitFor stopped cond n =
     (if cond n then Some (True, Suc n)
      else if stopped n then Some (False, Suc n)
      else WaitFor stopped cond (Suc n))"

fun wait_all :: "(nat \<Rightarrow> bool) \<Rightarrow> (informer \<Rightarrow> nat \<Rightarrow> bool) \<Rightarrow> nat \<Rightarrow> (string \<times> informer) list \<Rightarrow> (string \<times> bool) list option" where
  "wait_all stopped synced n [] = Some []"
| "wait_all stopped synced n ((ty, i) # is) =
     (case WaitFor stopped (synced i) n of
        None \<Rightarrow> None
      | Some (ok, n) \<Rightarrow> map_option (Cons (ty, ok)) (wait_all stopped synced n is))"

definition started_informers :: "factory \<Rightarrow> (string \<times> informer) list" where
  "started_informers f = filter (\<lambda>(ty, i). ty \<in> set (fa_started f)) (fa_informers f)"

definition WaitForCacheSync :: "(nat \<Rightarrow> bool) \<Rightarrow> (informer \<Rightarrow> nat \<Rightarrow> bool) \<Rightarrow> nat \<Rightarrow> factory \<Rightarrow> (string \<times> bool) list option" where
  "WaitForCacheSync stopped synced n f = wait_all stopped synced n (started_informers f)"

section \<open>Listers\<close>

text \<open>
  An indexer holds objects under keys (\<open>MetaNamespaceKeyFunc\<close>) and may have an index by namespace.
\<close>

record indexer =
  ix_items :: "(string \<times> api_object) list"
  ix_indexers :: "string list"

definition MetaNamespaceKeyFunc :: "api_object \<Rightarrow> string" where
  "MetaNamespaceKeyFunc x = (if obj_namespace x \<noteq> '''' then obj_namespace x @ ''/'' @ obj_name x else obj_name x)"

definition indexer_Add :: "api_object \<Rightarrow> indexer \<Rightarrow> indexer" where
  "indexer_Add x ix = ix\<lparr>ix_items := AList.update (MetaNamespaceKeyFunc x) x (ix_items ix)\<rparr>"

definition indexer_List :: "indexer \<Rightarrow> api_object list" where
  "indexer_List ix = map snd (ix_items ix)"

definition indexer_Index :: "string \<Rightarrow> string \<Rightarrow> indexer \<Rightarrow> api_object list option" where
  "indexer_Index name namespace ix =
     (if name \<in> set (ix_indexers ix) then Some (filter (\<lambda>x. obj_namespace x = namespace) (indexer_List ix)) else None)"

definition matches :: "(labels \<Rightarrow> bool) \<Rightarrow> api_object \<Rightarrow> bool" where
  "matches selector x = selector (label_set (obj_meta x))"

definition ListAll :: "indexer \<Rightarrow> (labels \<Rightarrow> bool) \<Rightarrow> api_object list" where
  "ListAll ix selector = filter (matches selector) (indexer_List ix)"

definition ListAllByNamespace :: "indexer \<Rightarrow> string \<Rightarrow> (labels \<Rightarrow> bool) \<Rightarrow> api_object list" where
  "ListAllByNamespace ix namespace selector =
     (if namespace = '''' then filter (matches selector) (indexer_List ix)
      else case indexer_Index NamespaceIndex namespace ix of
        None \<Rightarrow> filter (\<lambda>x. obj_namespace x = namespace \<and> matches selector x) (indexer_List ix)
      | Some items \<Rightarrow> filter (matches selector) items)"

text \<open>A lister of all objects in an indexer, and one of the objects of a namespace; for both types of objects.\<close>

record lister =
  li_indexer :: indexer

record namespace_lister =
  nl_indexer :: indexer
  nl_namespace :: string

definition NewDNSLoadBalancerLister :: "indexer \<Rightarrow> lister" where
  "NewDNSLoadBalancerLister ix = \<lparr>li_indexer = ix\<rparr>"

definition NewDNSLoadBalancerEndpointLister :: "indexer \<Rightarrow> lister" where
  "NewDNSLoadBalancerEndpointLister ix = \<lparr>li_indexer = ix\<rparr>"

definition lister_DNSLoadBalancers :: "lister \<Rightarrow> string \<Rightarrow> namespace_lister" where
  "lister_DNSLoadBalancers s namespace = \<lparr>nl_indexer = li_indexer s, nl_namespace = namespace\<rparr>"

definition lister_DNSLoadBalancerEndpoints :: "lister \<Rightarrow> string \<Rightarrow> namespace_lister" where
  "lister_DNSLoadBalancerEndpoints s namespace = \<lparr>nl_indexer = li_indexer s, nl_namespace = namespace\<rparr>"

text \<open>The lister of a typed informer reads the indexer of the informer, which is created when it is missing.\<close>

definition lb_Lister :: "(informer \<Rightarrow> indexer) \<Rightarrow> factory \<Rightarrow> lister \<times> factory" where
  "lb_Lister GetIndexer f = (case lb_Informer f of (i, f) \<Rightarrow> (NewDNSLoadBalancerLister (GetIndexer i), f))"

definition ep_Lister :: "(informer \<Rightarrow> indexer) \<Rightarrow> factory \<Rightarrow> lister \<times> factory" where
  "ep_Lister GetIndexer f = (case ep_Informer f of (i, f) \<Rightarrow> (NewDNSLoadBalancerEndpointLister (GetIndexer i), f))"

text \<open>The conversion of every object listed panics when one has another type.\<close>

definition lb_lister_List :: "lister \<Rightarrow> (labels \<Rightarrow> bool) \<Rightarrow> DNSLoadBalancer list outcome" where
  "lb_lister_List s selector = (case lbs_of (ListAll (li_indexer s) selector) of None \<Rightarrow> Panic | Some xs \<Rightarrow> Ok xs)"

definition lb_ns_lister_List :: "namespace_lister \<Rightarrow> (labels \<Rightarrow> bool) \<Rightarrow> DNSLoadBalancer list outcome" where
  "lb_ns_lister_List s selector =
     (case lbs_of (ListAllByNamespace (nl_indexer s) (nl_namespace s) selector) of None \<Rightarrow> Panic | Some xs \<Rightarrow> Ok xs)"

definition lb_ns_lister_Get :: "namespace_lister \<Rightarrow> string \<Rightarrow> (go_error + DNSLoadBalancer) outcome" where
  "lb_ns_lister_Get s name =
     (case map_of (ix_items (nl_indexer s)) (nl_namespace s @ ''/'' @ name) of
        None \<Rightarrow> Ok (Inl (NewNotFound \<lparr>gvr_Group = GroupName, gvr_Version = '''', gvr_Resource = ''dnsloadbalancer''\<rparr> name))
      | Some (LoadBalancerObject lb) \<Rightarrow> Ok (Inr lb)
      | Some _ \<Rightarrow> Panic)"

definition ep_lister_List :: "lister \<Rightarrow> (labels \<Rightarrow> bool) \<Rightarrow> DNSLoadBalancerEndpoint list outcome" where
  "ep_lister_List s selector = (case eps_of (ListAll (li_indexer s) selector) of None \<Rightarrow> Panic | Some xs \<Rightarrow> Ok xs)"

definition ep_ns_lister_List :: "namespace_lister \<Rightarrow> (labels \<Rightarrow> bool) \<Rightarrow> DNSLoadBalancerEndpoint list outcome" where
  "ep_ns_lister_List s selector =
     (case eps_of (ListAllByNamespace (nl_indexer s) (nl_namespace s) selector) of None \<Rightarrow> Panic | Some xs \<Rightarrow> Ok xs)"

definition ep_ns_lister_Get :: "namespace_lister \<Rightarrow> string \<Rightarrow> (go_error + DNSLoadBalancerEndpoint) outcome" where
  "ep_ns_lister_Get s name =
     (case map_of (ix_items (nl_indexer s)) (nl_namespace s @ ''/'' @ name) of
        None \<Rightarrow> Ok (Inl (NewNotFound \<lparr>gvr_Group = GroupName, gvr_Version = '''', gvr_Resource = ''dnsloadbalancerendpoint''\<rparr> name))
      | Some (EndpointObject ep) \<Rightarrow> Ok (Inr ep)
      | Some _ \<Rightarrow> Panic)"

end
