(* ===== verification/InformerProps.thy ===== *)
theory InformerProps
  imports Informers
begin

text \<open>
  The factory as a state machine: whatever sequence of \<open>InformerFor\<close>, \<open>ForResource\<close> and \<open>Start\<close> a
  program makes, there is one informer per type, it never changes, and it is run at most once. Waiting
  for the caches ends exactly when it can.
\<close>

section \<open>The steps of a factory\<close>

text \<open>A constructor allocates a new informer.\<close>

definition allocates :: "new_informer \<Rightarrow> bool" where
  "allocates newFunc \<longleftrightarrow> (\<forall>d n. in_id (newFunc d n) = n)"

inductive factory_step :: "factory \<Rightarrow> factory \<Rightarrow> bool" where
  Start: "factory_step f (Start f)"
| InformerFor: "allocates newFunc \<Longrightarrow> factory_step f (snd (InformerFor ty newFunc f))"
| ForResource: "factory_step f (snd (ForResource resource f))"

inductive reachable :: "factory \<Rightarrow> bool" where
  New: "reachable (NewSharedInformerFactoryWithOptions d options)"
| Step: "reachable f \<Longrightarrow> factory_step f f' \<Longrightarrow> reachable f'"

inductive_cases factory_stepE: "factory_step f f'"

definition factory_inv :: "factory \<Rightarrow> bool" where
  "factory_inv f \<longleftrightarrow>
     distinct (map fst (fa_informers f)) \<and> distinct (map (in_id \<circ> snd) (fa_informers f)) \<and>
     (\<forall>x\<in>set (fa_informers f). in_id (snd x) < fa_next f) \<and>
     distinct (fa_started f) \<and> set (fa_started f) \<subseteq> fst ` set (fa_informers f) \<and>
     fa_running f = map (the \<circ> map_of (fa_informers f)) (fa_started f)"

lemma options_fields:
  "fa_informers (foldl (\<lambda>f opt. apply_option opt f) f options) = fa_informers f \<and>
   fa_started (foldl (\<lambda>f opt. apply_option opt f) f options) = fa_started f \<and>
   fa_running (foldl (\<lambda>f opt. apply_option opt f) f options) = fa_running f"
proof (induction options arbitrary: f)
  case (Cons opt options)
  have custom: "fa_informers (foldl (\<lambda>f (k, v). f\<lparr>fa_customResync := (fa_customResync f)(k \<mapsto> v)\<rparr>) f kvs) = fa_informers f \<and>
      fa_started (foldl (\<lambda>f (k, v). f\<lparr>fa_customResync := (fa_customResync f)(k \<mapsto> v)\<rparr>) f kvs) = fa_started f \<and>
      fa_running (foldl (\<lambda>f (k, v). f\<lparr>fa_customResync := (fa_customResync f)(k \<mapsto> v)\<rparr>) f kvs) = fa_running f" for kvs
    by (induction kvs arbitrary: f) auto
  have "fa_informers (apply_option opt f) = fa_informers f \<and> fa_started (apply_option opt f) = fa_started f \<and>
      fa_running (apply_option opt f) = fa_running f"
    by (cases opt) (simp_all add: custom)
  with Cons.IH [of "apply_option opt f"] show ?case by simp
qed simp

lemma inv_New: "factory_inv (NewSharedInformerFactoryWithOptions d options)"
  by (simp add: NewSharedInformerFactoryWithOptions_def factory_inv_def options_fields)

text \<open>\<open>Start\<close> changes nothing but what is started and running.\<close>

lemma start_fields [simp]:
  "fa_informers (foldl start_step f xs) = fa_informers f" "fa_next (foldl start_step f xs) = fa_next f"
  by (induction xs arbitrary: f) (simp_all add: start_step_def split: prod.split)

lemma start_loop:
  assumes "distinct (map fst xs)"
  shows "fa_started (foldl start_step f xs) = fa_started f @ map fst (filter (\<lambda>x. fst x \<notin> set (fa_started f)) xs) \<and>
    fa_running (foldl start_step f xs) = fa_running f @ map snd (filter (\<lambda>x. fst x \<notin> set (fa_started f)) xs)"
  using assms
proof (induction xs arbitrary: f)
  case (Cons x xs)
  have other: "filter (\<lambda>y. fst y \<noteq> fst x \<and> fst y \<notin> A) xs = filter (\<lambda>y. fst y \<notin> A) xs" for A
    using Cons.prems by (intro filter_cong) (auto simp: image_iff)
  show ?case
  proof (cases "fst x \<in> set (fa_started f)")
    case True
    then have "start_step f x = f" by (cases x) (simp add: start_step_def)
    with True Cons show ?thesis by simp
  next
    case False
    then have "start_step f x = f\<lparr>fa_running := fa_running f @ [snd x], fa_started := fa_started f @ [fst x]\<rparr>"
      by (cases x) (simp add: start_step_def keyset_add_def)
    with False Cons other show ?thesis by simp
  qed
qed simp

lemma Start_fields:
  assumes "factory_inv f"
  shows "fa_informers (Start f) = fa_informers f" and "fa_next (Start f) = fa_next f"
    and "fa_started (Start f) = fa_started f @ map fst (filter (\<lambda>x. fst x \<notin> set (fa_started f)) (fa_informers f))"
    and "fa_running (Start f) = fa_running f @ map snd (filter (\<lambda>x. fst x \<notin> set (fa_started f)) (fa_informers f))"
  using assms start_loop [of "fa_informers f" f] by (simp_all add: Start_def factory_inv_def)

lemma inv_Start: 
  assumes "factory_inv f"
  shows "factory_inv (Start f)"
proof -
  let ?xs = "filter (\<lambda>x. fst x \<notin> set (fa_started f)) (fa_informers f)"
  have d: "distinct (map fst (fa_informers f))" using assms by (simp add: factory_inv_def)
  then have "map snd ?xs = map (the \<circ> map_of (fa_informers f)) (map fst ?xs)"
    by (auto simp: map_of_eq_Some_iff)
  moreover have "distinct (map fst ?xs)" using d by (rule distinct_map_filter)
  ultimately show ?thesis
    using assms by (auto simp: factory_inv_def Start_fields [OF assms])
qed

lemma inv_InformerFor:
  assumes "factory_inv f" and "allocates newFunc"
  shows "factory_inv (snd (InformerFor ty newFunc f))"
proof (cases "map_of (fa_informers f) ty")
  case None
  then have ty: "ty \<notin> fst ` set (fa_informers f)" by (simp add: map_of_eq_None_iff)
  define i where "i = newFunc (case fa_customResync f ty of None \<Rightarrow> fa_defaultResync f | Some d \<Rightarrow> d) (fa_next f)"
  have f': "snd (InformerFor ty newFunc f) = f\<lparr>fa_informers := fa_informers f @ [(ty, i)], fa_next := Suc (fa_next f)\<rparr>"
    using None by (simp add: InformerFor_def Let_def i_def)
  have "in_id i = fa_next f" using assms(2) by (simp add: i_def allocates_def)
  moreover have "map (the \<circ> map_of (fa_informers f @ [(ty, i)])) (fa_started f) = map (the \<circ> map_of (fa_informers f)) (fa_started f)"
    using assms(1) ty by (auto simp: factory_inv_def map_add_def split: option.split)
  ultimately show ?thesis
    using assms(1) ty unfolding f'
    by (auto simp: factory_inv_def comp_def less_Suc_eq)
qed (use assms in \<open>simp add: InformerFor_def\<close>)

lemma default_allocates [simp]: "allocates (lb_defaultInformer t)" "allocates (ep_defaultInformer t)"
  by (simp_all add: allocates_def lb_defaultInformer_def ep_defaultInformer_def
      NewFilteredDNSLoadBalancerInformer_def NewFilteredDNSLoadBalancerEndpointInformer_def)

lemma ForResource_cases:
  "snd (ForResource resource f) \<in> {snd (lb_Informer f), snd (ep_Informer f), f}"
  by (auto simp: ForResource_def split: prod.split)

lemma inv_step: "factory_step f f' \<Longrightarrow> factory_inv f \<Longrightarrow> factory_inv f'"
proof (induction rule: factory_step.induct)
  case (ForResource f resource)
  then show ?case
    using ForResource_cases [of resource f] inv_InformerFor default_allocates
    by (auto simp: lb_Informer_def ep_Informer_def)
qed (simp_all add: inv_Start inv_InformerFor)

lemma reachable_inv: "reachable f \<Longrightarrow> factory_inv f"
  by (induction rule: reachable.induct) (auto intro: inv_New inv_step)

text \<open>An informer that was handed out stays.\<close>

lemma InformerFor_keeps:
  "map_of (fa_informers f) t = Some i \<Longrightarrow> map_of (fa_informers (snd (InformerFor ty newFunc f))) t = Some i"
  by (auto simp: InformerFor_def Let_def map_add_def split: option.split)

lemma step_keeps:
  "factory_step f f' \<Longrightarrow> map_of (fa_informers f) t = Some i \<Longrightarrow> map_of (fa_informers f') t = Some i"
proof (induction rule: factory_step.induct)
  case (ForResource f resource)
  then show ?case
    using ForResource_cases [of resource f] InformerFor_keeps
    by (auto simp: lb_Informer_def ep_Informer_def)
qed (simp_all add: Start_def InformerFor_keeps)

lemma steps_keep:
  "factory_step\<^sup>*\<^sup>* f f' \<Longrightarrow> map_of (fa_informers f) t = Some i \<Longrightarrow> map_of (fa_informers f') t = Some i"
  by (induction rule: rtranclp_induct) (auto intro: step_keeps)

lemma InformerFor_registers: "map_of (fa_informers (snd (InformerFor t newFunc f))) t = Some (fst (InformerFor t newFunc f))"
  by (auto simp: InformerFor_def Let_def map_add_def split: option.split)

lemma InformerFor_same: "map_of (fa_informers f) t = Some i \<Longrightarrow> fst (InformerFor t newFunc f) = i"
  by (simp add: InformerFor_def)

lemma running_distinct:
  assumes "factory_inv f"
  shows "distinct (map in_id (fa_running f))"
proof -
  have inj: "inj_on (\<lambda>t. in_id (the (map_of (fa_informers f) t))) (set (fa_started f))"
  proof (rule inj_onI)
    fix t u assume tu: "t \<in> set (fa_started f)" "u \<in> set (fa_started f)"
      and eq: "in_id (the (map_of (fa_informers f) t)) = in_id (the (map_of (fa_informers f) u))"
    from tu assms obtain i j where "(t, i) \<in> set (fa_informers f)" "(u, j) \<in> set (fa_informers f)"
      by (fastforce simp: factory_inv_def)
    with eq assms have "in_id i = in_id j" "(t, i) \<in> set (fa_informers f)" "(u, j) \<in> set (fa_informers f)"
      by (simp_all add: factory_inv_def)
    moreover have "inj_on (in_id \<circ> snd) (set (fa_informers f))"
      using assms by (simp add: factory_inv_def distinct_map)
    ultimately have "(t, i) = (u, j)" by (intro inj_onD [of "in_id \<circ> snd"]) simp_all
    then show "t = u" by simp
  qed
  have "map in_id (fa_running f) = map (\<lambda>t. in_id (the (map_of (fa_informers f) t))) (fa_started f)"
    using assms by (simp add: factory_inv_def)
  then show ?thesis using inj assms by (simp only:) (simp add: distinct_map factory_inv_def comp_def)
qed

lemma running_registered:
  assumes "factory_inv f" and "i \<in> set (fa_running f)"
  shows "i \<in> snd ` set (fa_informers f)"
proof -
  from assms obtain t where t: "t \<in> set (fa_started f)" "i = the (map_of (fa_informers f) t)"
    by (auto simp: factory_inv_def)
  with assms(1) obtain j where "(t, j) \<in> set (fa_informers f)" by (fastforce simp: factory_inv_def)
  with t assms(1) show ?thesis by (force simp: factory_inv_def)
qed

lemma Start_runs_all:
  assumes "factory_inv f"
  shows "set (fa_running (Start f)) = snd ` set (fa_informers f)"
proof
  show "set (fa_running (Start f)) \<subseteq> snd ` set (fa_informers f)"
    using running_registered [OF inv_Start [OF assms]] by (auto simp: Start_fields [OF assms])
next
  show "snd ` set (fa_informers f) \<subseteq> set (fa_running (Start f))"
  proof (rule subsetI)
    fix i assume "i \<in> snd ` set (fa_informers f)"
    then obtain t where t: "(t, i) \<in> set (fa_informers f)" by auto
    then have "map_of (fa_informers f) t = Some i" using assms by (simp add: factory_inv_def)
    then show "i \<in> set (fa_running (Start f))"
      using t assms by (cases "t \<in> set (fa_started f)") (force simp: Start_fields [OF assms] factory_inv_def)+
  qed
qed

text \<open>
  C40. Whatever sequence of \<open>InformerFor\<close>, \<open>ForResource\<close> and \<open>Start\<close> led to a factory, no informer has
  been run twice, only informers of the factory have been run, a further \<open>Start\<close> makes that all of
  them; and the informer \<open>InformerFor\<close> answers for a type is the one it answers for this type ever
  after, whatever constructor it is given.
\<close>

theorem informers_run_once:
  assumes "reachable f" and "allocates newFunc" and "factory_step\<^sup>*\<^sup>* (snd (InformerFor t newFunc f)) f'"
  shows "distinct (map in_id (fa_running f)) \<and> set (fa_running f) \<subseteq> snd ` set (fa_informers f) \<and>
    set (fa_running (Start f)) = snd ` set (fa_informers f) \<and> distinct (map in_id (fa_running (Start f))) \<and>
    fst (InformerFor t newFunc' f') = fst (InformerFor t newFunc f)"
proof -
  note inv = reachable_inv [OF assms(1)]
  have "fst (InformerFor t newFunc' f') = fst (InformerFor t newFunc f)"
    using steps_keep [OF assms(3) InformerFor_registers] by (rule InformerFor_same)
  then show ?thesis
    using running_distinct [OF inv] running_distinct [OF inv_Start [OF inv]] running_registered [OF inv]
      Start_runs_all [OF inv] by blast
qed

theorem informers_run_once_witness:
  "let f = Start (snd (lb_Informer (NewSharedInformerFactory 30)));
       t = \<lparr>ti_namespace = ''ns'', ti_tweak = None\<rparr>
   in distinct (map in_id (fa_running f)) \<and> set (fa_running (Start f)) = snd ` set (fa_informers f) \<and>
     fst (InformerFor ep_type (ep_defaultInformer t) (Start (snd (InformerFor ep_type (ep_defaultInformer t) f)))) =
       fst (InformerFor ep_type (ep_defaultInformer t) f)"
proof -
  let ?f = "Start (snd (lb_Informer (NewSharedInformerFactory 30)))"
  let ?t = "\<lparr>ti_namespace = ''ns'', ti_tweak = None\<rparr> :: typed_informer"
  have "reachable ?f"
    unfolding lb_Informer_def NewSharedInformerFactory_def
    by (rule reachable.Step [OF reachable.Step [OF reachable.New factory_step.InformerFor [OF default_allocates(1)]]
          factory_step.Start])
  moreover have "factory_step\<^sup>*\<^sup>* g (Start g)" for g by (rule r_into_rtranclp) (rule factory_step.Start)
  ultimately show ?thesis
    using informers_run_once [of ?f "ep_defaultInformer ?t" ep_type
        "Start (snd (InformerFor ep_type (ep_defaultInformer ?t) ?f))"] by (simp add: Let_def)
qed

section \<open>Waiting ends\<close>

text \<open>The turn that decides: the first one at which the condition holds or the channel is closed.\<close>

definition decides :: "(nat \<Rightarrow> bool) \<Rightarrow> (nat \<Rightarrow> bool) \<Rightarrow> nat \<Rightarrow> nat \<Rightarrow> bool" where
  "decides stopped cond n k \<longleftrightarrow>
     n \<le> k \<and> (cond k \<or> stopped k) \<and> (\<forall>j\<in>{n..<k}. \<not> cond j \<and> \<not> stopped j)"

lemma decides_later: "\<not> cond n \<Longrightarrow> \<not> stopped n \<Longrightarrow> decides stopped cond (Suc n) k \<Longrightarrow> decides stopped cond n k"
  unfolding decides_def by (metis Suc_leD Suc_leI atLeastLessThan_iff le_neq_implies_less)

lemma WaitFor_result:
  assumes "WaitFor stopped cond n = Some r"
  shows "\<exists>k. decides stopped cond n k \<and> r = (cond k, Suc k)"
proof (rule WaitFor.raw_induct [OF _ assms, where P = "\<lambda>stopped cond n r. \<exists>k. decides stopped cond n k \<and> r = (cond k, Suc k)"])
  fix rec and stopped cond :: "nat \<Rightarrow> bool" and n :: nat and r :: "bool \<times> nat"
  assume IH: "\<And>stopped cond n r. rec stopped cond n = Some r \<Longrightarrow> \<exists>k. decides stopped cond n k \<and> r = (cond k, Suc k)"
    and body: "(if cond n then Some (True, Suc n) else if stopped n then Some (False, Suc n)
      else rec stopped cond (Suc n)) = Some r"
  show "\<exists>k. decides stopped cond n k \<and> r = (cond k, Suc k)"
  proof (cases "cond n \<or> stopped n")
    case True
    then have "decides stopped cond n n" by (simp add: decides_def)
    with True body show ?thesis by (auto split: if_splits)
  next
    case False
    with body have "rec stopped cond (Suc n) = Some r" by simp
    from IH [OF this] False show ?thesis by (auto intro: decides_later)
  qed
qed

lemma WaitFor_returns: "n \<le> k \<Longrightarrow> cond k \<or> stopped k \<Longrightarrow> \<exists>r. WaitFor stopped cond n = Some r"
proof (induction "k - n" arbitrary: n)
  case 0
  then show ?case by (subst WaitFor.simps) auto
next
  case (Suc d)
  then have "\<exists>r. WaitFor stopped cond (Suc n) = Some r" by simp
  then show ?case by (subst WaitFor.simps) auto
qed

text \<open>A closed channel stays closed, and a cache that has synced stays so.\<close>

definition persistent :: "(nat \<Rightarrow> bool) \<Rightarrow> bool" where
  "persistent p \<longleftrightarrow> (\<forall>n m. n \<le> m \<longrightarrow> p n \<longrightarrow> p m)"

lemma WaitFor_iff:
  assumes "persistent stopped" and "persistent cond"
  shows "(\<exists>r. WaitFor stopped cond n = Some r) \<longleftrightarrow> (\<exists>k. stopped k \<or> cond k)"
proof
  assume "\<exists>r. WaitFor stopped cond n = Some r"
  then show "\<exists>k. stopped k \<or> cond k" using WaitFor_result by (fastforce simp: decides_def)
next
  assume "\<exists>k. stopped k \<or> cond k"
  then obtain k where "stopped k \<or> cond k" ..
  then have "cond (max n k) \<or> stopped (max n k)" using assms by (metis max.cobounded2 persistent_def)
  then show "\<exists>r. WaitFor stopped cond n = Some r" by (intro WaitFor_returns [of n "max n k"]) auto
qed

lemma wait_all_iff:
  assumes "persistent stopped" and "\<forall>i\<in>snd ` set is. persistent (synced i)"
  shows "(\<exists>r. wait_all stopped synced n is = Some r) \<longleftrightarrow> (\<forall>i\<in>snd ` set is. \<exists>k. stopped k \<or> synced i k)"
  using assms(2)
proof (induction "is" arbitrary: n)
  case (Cons x xs)
  obtain ty i where x: "x = (ty, i)" by (cases x)
  have i: "persistent (synced i)" using Cons.prems x by simp
  show ?case
  proof (cases "WaitFor stopped (synced i) n")
    case None
    then have "\<not> (\<exists>k. stopped k \<or> synced i k)" using WaitFor_iff [OF assms(1) i, of n] by simp
    moreover have "wait_all stopped synced n (x # xs) = None" using None x by simp
    moreover have "i \<in> snd ` set (x # xs)" using x by simp
    ultimately show ?thesis by (metis option.distinct(1))
  next
    case (Some r)
    then have "\<exists>k. stopped k \<or> synced i k" using WaitFor_iff [OF assms(1) i, of n] by blast
    with Some x Cons.IH [of "snd r"] Cons.prems show ?thesis by (cases r) auto
  qed
qed simp

lemma wait_all_result:
  "wait_all stopped synced n is = Some r \<Longrightarrow>
   map fst r = map fst is \<and>
   (\<forall>j<length is. (snd (r ! j) \<longrightarrow> (\<exists>k\<ge>n. synced (snd (is ! j)) k)) \<and> (\<not> snd (r ! j) \<longrightarrow> (\<exists>k\<ge>n. stopped k)))"
proof (induction "is" arbitrary: n r)
  case (Cons x xs)
  obtain ty i where x: "x = (ty, i)" by (cases x)
  from Cons.prems x obtain ok m rs where w: "WaitFor stopped (synced i) n = Some (ok, m)"
    "wait_all stopped synced m xs = Some rs" "r = (ty, ok) # rs"
    by (auto split: option.splits prod.splits)
  from WaitFor_result [OF w(1)] obtain k where k: "n \<le> k" "ok = synced i k" "m = Suc k" "synced i k \<or> stopped k"
    by (auto simp: decides_def)
  note IH = Cons.IH [OF w(2)]
  have "(snd (r ! j) \<longrightarrow> (\<exists>k\<ge>n. synced (snd ((x # xs) ! j)) k)) \<and> (\<not> snd (r ! j) \<longrightarrow> (\<exists>k\<ge>n. stopped k))"
    if "j < length (x # xs)" for j
  proof (cases j)
    case 0
    then show ?thesis using k w(3) x by auto
  next
    case (Suc j')
    then have "(snd (rs ! j') \<longrightarrow> (\<exists>k\<ge>m. synced (snd (xs ! j')) k)) \<and> (\<not> snd (rs ! j') \<longrightarrow> (\<exists>k\<ge>m. stopped k))"
      using IH that by simp
    moreover have "n \<le> m" using k by simp
    ultimately show ?thesis using Suc w(3) by (auto intro: le_trans)
  qed
  then show ?case using IH w(3) x by simp
qed simp

text \<open>
  Waiting for the caches of a factory ends exactly when it can: it returns if and only if the stop
  channel gets closed at some time or the cache of every started informer gets synced (a channel that
  was closed stays closed, a cache that was synced stays synced); then it answers exactly the started
  types, true only for a synced cache, and, when the channel is never closed, for all of them.
\<close>

theorem WaitForCacheSync_terminates:
  assumes "persistent stopped" and "\<forall>i. persistent (synced i)"
  shows "((\<exists>r. WaitForCacheSync stopped synced n f = Some r) \<longleftrightarrow>
      (\<exists>k. stopped k) \<or>
      (\<forall>(t, i)\<in>set (fa_informers f). t \<in> set (fa_started f) \<longrightarrow> (\<exists>k. synced i k))) \<and>
    (\<forall>r. WaitForCacheSync stopped synced n f = Some r \<longrightarrow>
      map fst r = filter (\<lambda>t. t \<in> set (fa_started f)) (map fst (fa_informers f)) \<and>
      (\<forall>(t, ok)\<in>set r. ok \<longrightarrow> (\<exists>i k. (t, i) \<in> set (fa_informers f) \<and> synced i k)) \<and>
      ((\<forall>k. \<not> stopped k) \<longrightarrow> (\<forall>(t, ok)\<in>set r. ok)))"
proof (intro conjI allI impI)
  show "(\<exists>r. WaitForCacheSync stopped synced n f = Some r) \<longleftrightarrow> (\<exists>k. stopped k) \<or>
      (\<forall>(t, i)\<in>set (fa_informers f). t \<in> set (fa_started f) \<longrightarrow> (\<exists>k. synced i k))"
    using wait_all_iff [OF assms(1), of "started_informers f" synced n] assms(2)
    unfolding WaitForCacheSync_def started_informers_def by fastforce
next
  fix r assume "WaitForCacheSync stopped synced n f = Some r"
  then have r: "wait_all stopped synced n (started_informers f) = Some r" by (simp add: WaitForCacheSync_def)
  note res = wait_all_result [OF r]
  then have len: "length r = length (started_informers f)" by (metis length_map)
  have started: "(fst (r ! j), snd (started_informers f ! j)) \<in> set (fa_informers f)" if "j < length r" for j
  proof -
    have "map fst r ! j = map fst (started_informers f) ! j" using res by simp
    then have "fst (r ! j) = fst (started_informers f ! j)" using that len by simp
    moreover have "started_informers f ! j \<in> set (started_informers f)" using that len by simp
    ultimately show ?thesis by (simp add: started_informers_def)
  qed
  show "map fst r = filter (\<lambda>t. t \<in> set (fa_started f)) (map fst (fa_informers f))"
    using res by (simp add: started_informers_def filter_map comp_def split_def)
  have entry: "(ok \<longrightarrow> (\<exists>i k. (t, i) \<in> set (fa_informers f) \<and> synced i k)) \<and> ((\<forall>k. \<not> stopped k) \<longrightarrow> ok)"
    if "(t, ok) \<in> set r" for t ok
  proof -
    from that obtain j where j: "j < length r" "r ! j = (t, ok)" by (auto simp: in_set_conv_nth)
    then have "ok \<longrightarrow> (\<exists>k. synced (snd (started_informers f ! j)) k)" "\<not> ok \<longrightarrow> (\<exists>k. stopped k)"
      using res len by auto
    with started [OF j(1)] j(2) show ?thesis by auto
  qed
  show "\<forall>(t, ok)\<in>set r. ok \<longrightarrow> (\<exists>i k. (t, i) \<in> set (fa_informers f) \<and> synced i k)"
    using entry by blast
  show "\<forall>(t, ok)\<in>set r. ok" if "\<forall>k. \<not> stopped k"
    using entry that by blast
qed

theorem WaitForCacheSync_terminates_witness:
  "\<exists>r. WaitForCacheSync (\<lambda>_. False) (\<lambda>_ k. 3 \<le> k) 0 (Start (snd (lb_Informer (NewSharedInformerFactory 30)))) = Some r"
  using WaitForCacheSync_terminates [of "\<lambda>_. False" "\<lambda>_ k. 3 \<le> k" 0
      "Start (snd (lb_Informer (NewSharedInformerFactory 30)))"]
  by (auto simp: persistent_def)

section \<open>Listers\<close>

text \<open>The list of a namespace does not depend on whether the indexer has the index.\<close>

lemma ListAllByNamespace_filter:
  "namespace \<noteq> '''' \<Longrightarrow>
   ListAllByNamespace ix namespace selector = filter (\<lambda>x. obj_namespace x = namespace \<and> matches selector x) (indexer_List ix)"
  by (auto simp: ListAllByNamespace_def indexer_Index_def intro!: filter_cong split: option.split)

text \<open>An object of a namespace that was added to the indexer is what the lister answers for its name.\<close>

lemma lister_Get_Add:
  assumes "m_namespace (lb_meta lb) \<noteq> ''''"
  shows "lb_ns_lister_Get (lister_DNSLoadBalancers (NewDNSLoadBalancerLister (indexer_Add (LoadBalancerObject lb) ix))
      (m_namespace (lb_meta lb))) (m_name (lb_meta lb)) = Ok (Inr lb)"
  using assms by (simp add: lb_ns_lister_Get_def lister_DNSLoadBalancers_def NewDNSLoadBalancerLister_def indexer_Add_def MetaNamespaceKeyFunc_def update_conv')

end
