(* ===== verification/SubCache.thy ===== *)
theory SubCache
  imports Keys
begin

text \<open>
  The cache of sub objects and their owners, after \<open>resources/subcache.go\<close> of the controller
  manager library. The DNS controller keeps its endpoints in one (owner: the load balancer),
  the endpoint controller keeps its slave endpoints in another (owner: the service or ingress).

  An object is known to the cache by the key \<open>ClusterKey\<close> gives it; \<open>owners\<close> extracts its
  owners. \<open>byOwner\<close> is the index from an owner to its sub objects, \<open>nested\<close> holds every sub
  object with the number of owners it is indexed under. The operations hold the cache's lock
  from start to end, so each is one atomic step.
\<close>

section \<open>State and operations\<close>

record 'o entry =
  e_object :: 'o
  e_count :: int

record 'o SubObjectCache =
  byOwner :: "ClusterObjectKey \<rightharpoonup> ClusterObjectKeySet"
  nested :: "ClusterObjectKey \<rightharpoonup> 'o entry"
  filters :: "(ClusterObjectKey \<Rightarrow> bool) list"
  owners :: "'o \<Rightarrow> ClusterObjectKeySet"

definition NewSubObjectCache :: "('o \<Rightarrow> ClusterObjectKeySet) \<Rightarrow> 'o SubObjectCache" where
  "NewSubObjectCache own =
     \<lparr>byOwner = Map.empty, nested = Map.empty, filters = [], owners = own\<rparr>"

definition filterKey :: "'o SubObjectCache \<Rightarrow> ClusterObjectKey \<Rightarrow> bool" where
  "filterKey this key \<longleftrightarrow> filters this = [] \<or> list_ex (\<lambda>f. f key) (filters this)"

definition AddOwnerFilter ::
  "'o SubObjectCache \<Rightarrow> (ClusterObjectKey \<Rightarrow> bool) list \<Rightarrow> 'o SubObjectCache" where
  "AddOwnerFilter this fs = this\<lparr>filters := filters this @ fs\<rparr>"

text \<open>
  \<open>add\<close>: the entry is created when the index did not hold the pair yet. When it did, the code
  writes through the entry without a nil check.
\<close>

definition add ::
  "('o \<Rightarrow> ClusterObjectKey) \<Rightarrow> 'o SubObjectCache \<Rightarrow> ClusterObjectKey \<Rightarrow> 'o \<Rightarrow> 'o SubObjectCache outcome" where
  "add ClusterKey this owner sub =
     (if \<not> filterKey this owner then Ok this
      else let key = ClusterKey sub;
               keys = (case byOwner this owner of None \<Rightarrow> [] | Some s \<Rightarrow> s);
               this' = this\<lparr>byOwner := (byOwner this)(owner \<mapsto> keyset_add key keys)\<rparr>
           in if key \<notin> set keys
              then let n = (case nested this key of None \<Rightarrow> 0 | Some e \<Rightarrow> e_count e)
                   in Ok (this'\<lparr>nested := (nested this)(key \<mapsto> \<lparr>e_object = sub, e_count = n + 1\<rparr>)\<rparr>)
              else (case nested this key of
                      None \<Rightarrow> Panic
                    | Some e \<Rightarrow> Ok (this'\<lparr>nested := (nested this)(key \<mapsto> e\<lparr>e_object := sub\<rparr>)\<rparr>)))"

text \<open>
  \<open>removeByKey\<close> answers the entry the pair was found with; the entry is out of the map when its
  count has dropped to zero.
\<close>

definition removeByKey ::
  "'o SubObjectCache \<Rightarrow> ClusterObjectKey \<Rightarrow> ClusterObjectKey \<Rightarrow> 'o SubObjectCache \<times> 'o entry option" where
  "removeByKey this owner sub =
     (case byOwner this owner of
        None \<Rightarrow> (this, None)
      | Some keys \<Rightarrow>
          if sub \<notin> set keys then (this, None)
          else let keys' = keyset_remove sub keys;
                   this' = this\<lparr>byOwner := (byOwner this)(owner := (if keys' = [] then None else Some keys'))\<rparr>
               in case nested this sub of
                    None \<Rightarrow> (this', None)
                  | Some e \<Rightarrow>
                      let e' = e\<lparr>e_count := e_count e - 1\<rparr>
                      in (this'\<lparr>nested := (nested this)(sub := (if e_count e' \<le> 0 then None else Some e'))\<rparr>,
                          Some e'))"

text \<open>
  Writing the object of an entry through its pointer: it shows in the cache as long as the entry
  has not left the map. Within one operation an entry that left the map is never put back.
\<close>

definition set_object :: "ClusterObjectKey \<Rightarrow> 'o \<Rightarrow> 'o SubObjectCache \<Rightarrow> 'o SubObjectCache" where
  "set_object key obj this =
     (case nested this key of
        None \<Rightarrow> this
      | Some e \<Rightarrow> this\<lparr>nested := (nested this)(key \<mapsto> e\<lparr>e_object := obj\<rparr>)\<rparr>)"

definition remove ::
  "('o \<Rightarrow> ClusterObjectKey) \<Rightarrow> 'o SubObjectCache \<Rightarrow> ClusterObjectKey \<Rightarrow> 'o \<Rightarrow> 'o SubObjectCache" where
  "remove ClusterKey this owner sub =
     (case removeByKey this owner (ClusterKey sub) of
        (this', None) \<Rightarrow> this'
      | (this', Some _) \<Rightarrow> set_object (ClusterKey sub) sub this')"

definition renewSubObject ::
  "('o \<Rightarrow> ClusterObjectKey) \<Rightarrow> 'o SubObjectCache \<Rightarrow> 'o \<Rightarrow> ('o SubObjectCache \<times> bool) outcome" where
  "renewSubObject ClusterKey this obj =
     (let key = ClusterKey obj; newowners = owners this obj
      in case nested this key of
           None \<Rightarrow>
             if newowners = [] then Ok (this, False)
             else bind_outcome (for_each (\<lambda>c e. add ClusterKey c e obj) this newowners)
                    (\<lambda>c. Ok (c, True))
         | Some en \<Rightarrow>
             let (ad, del) = DiffFrom newowners (owners this (e_object en))
             in bind_outcome (for_each (\<lambda>c e. add ClusterKey c e obj) this ad)
                  (\<lambda>c. let c' = foldl (\<lambda>c e. remove ClusterKey c e obj) c del
                       in Ok (set_object key obj c', 0 < length ad + length del)))"

definition Setup ::
  "('o \<Rightarrow> ClusterObjectKey) \<Rightarrow> 'o SubObjectCache \<Rightarrow> 'o list \<Rightarrow> 'o SubObjectCache outcome" where
  "Setup ClusterKey this subObjects =
     for_each (\<lambda>c s. for_each (\<lambda>c o'. add ClusterKey c o' s) c (owners this s)) this subObjects"

definition GetSubObject :: "'o SubObjectCache \<Rightarrow> ClusterObjectKey \<Rightarrow> 'o option" where
  "GetSubObject this key = map_option e_object (nested this key)"

definition GetOwners :: "'o SubObjectCache \<Rightarrow> ClusterObjectKey \<Rightarrow> GroupKind list \<Rightarrow> ClusterObjectKeySet" where
  "GetOwners this key kinds =
     (case GetSubObject this key of
        None \<Rightarrow> []
      | Some obj \<Rightarrow> FilterKeysByGroupKinds (owners this obj) kinds)"

text \<open>All owners in the index; \<open>visited\<close> is the order in which its keys are visited.\<close>

definition GetAllOwners :: "ClusterObjectKey list \<Rightarrow> 'o SubObjectCache \<Rightarrow> GroupKind list \<Rightarrow> ClusterObjectKeySet" where
  "GetAllOwners visited this kinds =
     Add [] (filter (\<lambda>k. byOwner this k \<noteq> None \<and> (kinds = [] \<or> ck_groupKind k \<in> set kinds)) visited)"

definition DeleteSubObject :: "'o SubObjectCache \<Rightarrow> ClusterObjectKey \<Rightarrow> 'o SubObjectCache" where
  "DeleteSubObject this key =
     (case nested this key of
        None \<Rightarrow> this
      | Some en \<Rightarrow> foldl (\<lambda>c o'. fst (removeByKey c o' key)) this (owners this (e_object en)))"

definition DeleteOwner :: "'o SubObjectCache \<Rightarrow> ClusterObjectKey \<Rightarrow> 'o SubObjectCache" where
  "DeleteOwner this key =
     (case byOwner this key of
        None \<Rightarrow> this
      | Some slaves \<Rightarrow>
          let c = foldl (\<lambda>c s. fst (removeByKey c key s)) this slaves
          in c\<lparr>byOwner := (byOwner c)(key := None)\<rparr>)"

text \<open>
  \<open>GetByKey\<close> visits the index set in an order the language leaves open; \<open>rng\<close> is that order. A
  key without an entry is a nil dereference.
\<close>

fun objects_of :: "'o SubObjectCache \<Rightarrow> ClusterObjectKey list \<Rightarrow> 'o list outcome" where
  "objects_of this [] = Ok []"
| "objects_of this (k # ks) =
     (case nested this k of
        None \<Rightarrow> Panic
      | Some e \<Rightarrow> bind_outcome (objects_of this ks) (\<lambda>os. Ok (e_object e # os)))"

definition GetByKey ::
  "(ClusterObjectKey list \<Rightarrow> ClusterObjectKey list) \<Rightarrow> 'o SubObjectCache \<Rightarrow> ClusterObjectKey \<Rightarrow> 'o list outcome" where
  "GetByKey rng this key =
     objects_of this (case byOwner this key of None \<Rightarrow> [] | Some keys \<Rightarrow> rng keys)"

text \<open>
  \<open>UpdateSubObject\<close> and \<open>CreateSubObject\<close> first send the object to the API server; \<open>answer\<close> is
  what comes back. The cache follows only on success.
\<close>

definition renewAnswered ::
  "('o \<Rightarrow> ClusterObjectKey) \<Rightarrow> 'o SubObjectCache \<Rightarrow> go_error + 'o \<Rightarrow> ('o SubObjectCache \<times> go_error option) outcome" where
  "renewAnswered ClusterKey this answer =
     (case answer of
        Inl err \<Rightarrow> Ok (this, Some err)
      | Inr obj \<Rightarrow> bind_outcome (renewSubObject ClusterKey this obj) (\<lambda>(c, _). Ok (c, None)))"

end
