(* ===== verification/SubCacheInv.thy ===== *)
theory SubCacheInv
  imports SubCache
begin

text \<open>
  What the sub object cache keeps true. The cache is abstracted to the relation between owners
  and sub objects its index holds and the map from keys to objects. The invariant says that the
  count of an entry is the number of owners it is indexed under, and that exactly the keys of
  the index have an entry; under it no operation panics and each has a simple effect on the
  abstraction.
\<close>

section \<open>Abstraction and invariant\<close>

definition rel :: "'o SubObjectCache \<Rightarrow> (ClusterObjectKey \<times> ClusterObjectKey) set" where
  "rel c = {(ow, k). \<exists>s. byOwner c ow = Some s \<and> k \<in> set s}"

definition objs :: "'o SubObjectCache \<Rightarrow> ClusterObjectKey \<rightharpoonup> 'o" where
  "objs c = (\<lambda>k. map_option e_object (nested c k))"

definition owners_of :: "'o SubObjectCache \<Rightarrow> ClusterObjectKey \<Rightarrow> ClusterObjectKey set" where
  "owners_of c k = {ow. (ow, k) \<in> rel c}"

definition index_ok :: "'o SubObjectCache \<Rightarrow> bool" where
  "index_ok c \<longleftrightarrow> finite (dom (byOwner c)) \<and>
     (\<forall>ow s. byOwner c ow = Some s \<longrightarrow> s \<noteq> [] \<and> distinct s \<and> filterKey c ow)"

definition counts_ok :: "('o \<Rightarrow> ClusterObjectKey) \<Rightarrow> 'o SubObjectCache \<Rightarrow> bool" where
  "counts_ok ClusterKey c \<longleftrightarrow>
     (\<forall>k. case nested c k of
            None \<Rightarrow> owners_of c k = {}
          | Some e \<Rightarrow> e_count e = int (card (owners_of c k)) \<and> owners_of c k \<noteq> {} \<and>
                      ClusterKey (e_object e) = k)"

definition cache_inv :: "('o \<Rightarrow> ClusterObjectKey) \<Rightarrow> 'o SubObjectCache \<Rightarrow> bool" where
  "cache_inv ClusterKey c \<longleftrightarrow> index_ok c \<and> counts_ok ClusterKey c"

text \<open>The configuration of a cache, which no operation on its contents changes.\<close>

definition same_config :: "'o SubObjectCache \<Rightarrow> 'o SubObjectCache \<Rightarrow> bool" where
  "same_config c d \<longleftrightarrow> filters d = filters c \<and> owners d = owners c"

lemma filterKey_config: "same_config c d \<Longrightarrow> filterKey d = filterKey c"
  by (simp add: same_config_def filterKey_def fun_eq_iff)

lemma same_config_refl [simp]: "same_config c c"
  by (simp add: same_config_def)

lemma same_config_trans: "same_config c d \<Longrightarrow> same_config d e \<Longrightarrow> same_config c e"
  by (simp add: same_config_def)

lemma finite_owners_of:
  assumes "index_ok c"
  shows "finite (owners_of c k)"
proof -
  have "owners_of c k \<subseteq> dom (byOwner c)"
    by (auto simp: owners_of_def rel_def)
  with assms show ?thesis
    by (auto simp: index_ok_def intro: finite_subset)
qed

lemma dom_objs: "cache_inv ck c \<Longrightarrow> dom (objs c) = Range (rel c)"
  by (auto simp: cache_inv_def counts_ok_def objs_def owners_of_def dom_def Range_iff
           split: option.splits)

lemma byOwner_None:
  assumes "cache_inv ck c" and "\<And>k. (ow, k) \<notin> rel c"
  shows "byOwner c ow = None"
proof (rule ccontr)
  assume "byOwner c ow \<noteq> None"
  then obtain s where s: "byOwner c ow = Some s" by auto
  with assms(1) have "s \<noteq> []" by (auto simp: cache_inv_def index_ok_def)
  then have "(ow, hd s) \<in> rel c" using s by (auto simp: rel_def)
  with assms(2) show False by blast
qed

lemma objs_key: "cache_inv ck c \<Longrightarrow> objs c k = Some ob \<Longrightarrow> ck ob = k"
  by (auto simp: cache_inv_def counts_ok_def objs_def split: option.splits)

lemma cache_inv_new: "cache_inv ck (NewSubObjectCache own)"
  by (simp add: cache_inv_def index_ok_def counts_ok_def NewSubObjectCache_def owners_of_def rel_def)

lemma rel_new [simp]: "rel (NewSubObjectCache own) = {}"
  by (simp add: NewSubObjectCache_def rel_def)

lemma objs_new [simp]: "objs (NewSubObjectCache own) = Map.empty"
  by (simp add: NewSubObjectCache_def objs_def)

section \<open>Adding one pair\<close>

lemma rel_byOwner_upd:
  "rel (c\<lparr>byOwner := (byOwner c)(ow := v)\<rparr>) =
     {p \<in> rel c. fst p \<noteq> ow} \<union> {ow} \<times> (case v of None \<Rightarrow> {} | Some s \<Rightarrow> set s)"
  by (auto simp: rel_def split: option.splits if_splits)

lemma rel_nested_upd [simp]: "rel (c\<lparr>nested := n\<rparr>) = rel c"
  by (simp add: rel_def)

lemma objs_byOwner_upd [simp]: "objs (c\<lparr>byOwner := b\<rparr>) = objs c"
  by (simp add: objs_def)

lemma filterKey_upd [simp]:
  "filterKey (c\<lparr>nested := n\<rparr>) = filterKey c" "filterKey (c\<lparr>byOwner := b\<rparr>) = filterKey c"
  by (simp_all add: filterKey_def fun_eq_iff)

lemma in_rel_iff: "(ow, k) \<in> rel c \<longleftrightarrow> (case byOwner c ow of None \<Rightarrow> False | Some s \<Rightarrow> k \<in> set s)"
  by (auto simp: rel_def split: option.splits)

lemma owners_of_insert:
  "rel d = insert (ow, k) (rel c) \<Longrightarrow>
     owners_of d j = (if j = k then insert ow (owners_of c j) else owners_of c j)"
  by (auto simp: owners_of_def)

lemma owners_of_delete:
  "rel d = rel c - {(ow, k)} \<Longrightarrow>
     owners_of d j = (if j = k then owners_of c j - {ow} else owners_of c j)"
  by (auto simp: owners_of_def)

lemma add_filtered: "\<not> filterKey c ow \<Longrightarrow> add ck c ow sub = Ok c"
  by (simp add: add_def)

lemma add_spec:
  assumes inv: "cache_inv ck c" and flt: "filterKey c ow"
  shows "\<exists>d. add ck c ow sub = Ok d \<and> cache_inv ck d \<and> same_config c d \<and>
     rel d = insert (ow, ck sub) (rel c) \<and> objs d = (objs c)(ck sub \<mapsto> sub)"
proof -
  let ?k = "ck sub"
  obtain keys where keys: "(case byOwner c ow of None \<Rightarrow> [] | Some s \<Rightarrow> s) = keys" by blast
  let ?c' = "c\<lparr>byOwner := (byOwner c)(ow \<mapsto> keyset_add ?k keys)\<rparr>"
  have mem: "?k \<in> set keys \<longleftrightarrow> (ow, ?k) \<in> rel c"
    using keys by (auto simp: in_rel_iff split: option.splits)
  have rel': "rel ?c' = insert (ow, ?k) (rel c)"
    using keys by (auto simp: rel_byOwner_upd in_rel_iff split: option.splits)
  have index': "index_ok (?c'\<lparr>nested := n\<rparr>)" for n
    using inv flt keys by (auto simp: cache_inv_def index_ok_def filterKey_def split: option.splits)
  note owners' = owners_of_insert [OF rel']
  have own_nested: "owners_of (?c'\<lparr>nested := n\<rparr>) = owners_of ?c'" for n
    by (simp add: owners_of_def fun_eq_iff)
  have fin: "finite (owners_of c ?k)"
    using inv finite_owners_of by (auto simp: cache_inv_def)
  show ?thesis
  proof (cases "?k \<in> set keys")
    case False
    let ?n = "case nested c ?k of None \<Rightarrow> 0 | Some e \<Rightarrow> e_count e"
    let ?d = "?c'\<lparr>nested := (nested c)(?k \<mapsto> \<lparr>e_object = sub, e_count = ?n + 1\<rparr>)\<rparr>"
    have new: "ow \<notin> owners_of c ?k"
      using False mem unfolding owners_of_def by blast
    have n: "?n = int (card (owners_of c ?k))"
      using inv by (auto simp: cache_inv_def counts_ok_def split: option.splits dest!: spec [of _ ?k])
    have "counts_ok ck ?d"
      using inv n new fin unfolding counts_ok_def own_nested owners'
      by (auto simp: cache_inv_def counts_ok_def)
    moreover have "add ck c ow sub = Ok ?d"
      using False flt by (simp add: add_def Let_def keys)
    moreover have "objs ?d = (objs c)(?k \<mapsto> sub)"
      by (auto simp: objs_def)
    ultimately show ?thesis
      using index' rel' by (auto simp: cache_inv_def same_config_def)
  next
    case True
    with mem have "owners_of c ?k \<noteq> {}" by (auto simp: owners_of_def)
    with inv obtain e where e: "nested c ?k = Some e" "e_count e = int (card (owners_of c ?k))"
      by (auto simp: cache_inv_def counts_ok_def split: option.splits dest!: spec [of _ ?k])
    let ?d = "?c'\<lparr>nested := (nested c)(?k \<mapsto> e\<lparr>e_object := sub\<rparr>)\<rparr>"
    have own: "insert ow (owners_of c ?k) = owners_of c ?k"
      using True mem by (auto simp: owners_of_def)
    have "counts_ok ck ?d"
      using inv e own unfolding counts_ok_def own_nested owners'
      by (auto simp: cache_inv_def counts_ok_def)
    moreover have "add ck c ow sub = Ok ?d"
      using True flt e by (simp add: add_def Let_def keys)
    moreover have "objs ?d = (objs c)(?k \<mapsto> sub)"
      by (auto simp: objs_def)
    ultimately show ?thesis
      using index' rel' by (auto simp: cache_inv_def same_config_def)
  qed
qed

section \<open>Removing one pair\<close>

lemma restrict_objs_id:
  assumes "cache_inv ck c"
  shows "objs c |` Range (rel c) = objs c"
proof
  fix k
  show "(objs c |` Range (rel c)) k = objs c k"
    by (cases "objs c k") (auto simp: restrict_map_def dom_objs [OF assms, symmetric])
qed

lemma removeByKey_absent: "(ow, k) \<notin> rel c \<Longrightarrow> removeByKey c ow k = (c, None)"
  by (auto simp: removeByKey_def in_rel_iff split: option.splits)

lemma removeByKey_spec:
  assumes inv: "cache_inv ck c" and pair: "(ow, k) \<in> rel c"
  shows "\<exists>d e. removeByKey c ow k = (d, Some e) \<and> cache_inv ck d \<and> same_config c d \<and>
     rel d = rel c - {(ow, k)} \<and> objs d = objs c |` Range (rel d)"
proof -
  from pair obtain keys where keys: "byOwner c ow = Some keys" "k \<in> set keys"
    by (auto simp: in_rel_iff split: option.splits)
  from pair have own: "ow \<in> owners_of c k" by (simp add: owners_of_def)
  with inv obtain e where e: "nested c k = Some e" "e_count e = int (card (owners_of c k))" "ck (e_object e) = k"
    by (auto simp: cache_inv_def counts_ok_def split: option.splits dest!: spec [of _ k])
  let ?keys = "keyset_remove k keys"
  let ?c' = "c\<lparr>byOwner := (byOwner c)(ow := (if ?keys = [] then None else Some ?keys))\<rparr>"
  let ?e = "e\<lparr>e_count := e_count e - 1\<rparr>"
  let ?d = "?c'\<lparr>nested := (nested c)(k := (if e_count ?e \<le> 0 then None else Some ?e))\<rparr>"
  have eq: "removeByKey c ow k = (?d, Some ?e)"
    using keys e by (simp add: removeByKey_def Let_def)
  have rel': "rel ?c' = rel c - {(ow, k)}"
    using keys by (auto simp: rel_byOwner_upd in_rel_iff keyset_remove_Nil_iff split: option.splits)
  have index': "index_ok ?d"
    using inv keys by (auto simp: cache_inv_def index_ok_def filterKey_def)
  have own_d: "owners_of ?d j = (if j = k then owners_of c j - {ow} else owners_of c j)" for j
    using owners_of_delete [OF rel'] by (simp add: owners_of_def)
  have fin: "finite (owners_of c k)"
    using inv finite_owners_of by (auto simp: cache_inv_def)
  have card: "card (owners_of c k - {ow}) = card (owners_of c k) - 1"
    using own fin by simp
  have pos: "0 < card (owners_of c k)"
    using own fin by (auto simp: card_gt_0_iff)
  have gone: "e_count ?e \<le> 0 \<longleftrightarrow> owners_of c k - {ow} = {}"
  proof -
    have "owners_of c k - {ow} = {} \<longleftrightarrow> card (owners_of c k - {ow}) = 0"
      using fin by simp
    then show ?thesis using e(2) pos card by (simp; linarith)
  qed
  have counts': "counts_ok ck ?d"
    unfolding counts_ok_def own_d
  proof
    fix j
    show "case nested ?d j of None \<Rightarrow> (if j = k then owners_of c j - {ow} else owners_of c j) = {}
      | Some e \<Rightarrow> e_count e = int (card (if j = k then owners_of c j - {ow} else owners_of c j)) \<and>
          (if j = k then owners_of c j - {ow} else owners_of c j) \<noteq> {} \<and> ck (e_object e) = j"
    proof (cases "j = k")
      case True
      with gone e card pos show ?thesis by (auto simp: of_nat_diff)
    next
      case False
      with inv show ?thesis
        by (auto simp: cache_inv_def counts_ok_def)
    qed
  qed
  have relevant: "j \<in> Range (rel ?d) \<longleftrightarrow> owners_of ?d j \<noteq> {}" for j
    by (auto simp: owners_of_def)
  have "objs ?d j = (objs c |` Range (rel ?d)) j" for j
  proof (cases "j = k")
    case True
    then have "j \<in> Range (rel ?d) \<longleftrightarrow> \<not> e_count ?e \<le> 0"
      using relevant [of j] own_d [of j] gone by simp
    with True e show ?thesis by (auto simp: objs_def restrict_map_def)
  next
    case False
    then have "j \<in> Range (rel ?d) \<longleftrightarrow> j \<in> dom (objs c)"
      using relevant [of j] own_d [of j] dom_objs [OF inv] by (auto simp: owners_of_def)
    with False show ?thesis by (auto simp: objs_def restrict_map_def)
  qed
  then have "objs ?d = objs c |` Range (rel ?d)" ..
  with eq rel' index' counts' show ?thesis
    by (auto simp: cache_inv_def same_config_def)
qed

text \<open>Both cases at once.\<close>

lemma removeByKey_step:
  assumes "cache_inv ck c"
  shows "cache_inv ck (fst (removeByKey c ow k)) \<and> same_config c (fst (removeByKey c ow k)) \<and>
    rel (fst (removeByKey c ow k)) = rel c - {(ow, k)} \<and>
    objs (fst (removeByKey c ow k)) = objs c |` Range (rel (fst (removeByKey c ow k)))"
proof (cases "(ow, k) \<in> rel c")
  case True
  from removeByKey_spec [OF assms this] obtain d e
    where d: "removeByKey c ow k = (d, Some e)" and "cache_inv ck d \<and> same_config c d \<and>
      rel d = rel c - {(ow, k)} \<and> objs d = objs c |` Range (rel d)" by blast
  then show ?thesis unfolding d fst_conv by blast
next
  case False
  with assms show ?thesis by (simp add: removeByKey_absent restrict_objs_id)
qed

lemma set_object_step:
  assumes "cache_inv ck c" and "ck ob = k"
  shows "cache_inv ck (set_object k ob c) \<and> same_config c (set_object k ob c) \<and>
    rel (set_object k ob c) = rel c \<and>
    objs (set_object k ob c) = (if k \<in> Range (rel c) then (objs c)(k \<mapsto> ob) else objs c)"
proof (cases "nested c k")
  case None
  then have "k \<notin> dom (objs c)" by (auto simp: objs_def)
  with assms None show ?thesis by (simp add: set_object_def dom_objs)
next
  case (Some e)
  then have k: "k \<in> dom (objs c)" by (auto simp: objs_def)
  let ?d = "c\<lparr>nested := (nested c)(k \<mapsto> e\<lparr>e_object := ob\<rparr>)\<rparr>"
  have d: "set_object k ob c = ?d" using Some by (simp add: set_object_def)
  have own: "owners_of ?d = owners_of c" by (simp add: owners_of_def fun_eq_iff)
  have "counts_ok ck ?d"
    using assms Some unfolding counts_ok_def own
    by (auto simp: cache_inv_def counts_ok_def split: option.splits dest!: spec [of _ k])
  moreover have "index_ok ?d"
    using assms(1) by (simp add: cache_inv_def index_ok_def)
  moreover have "objs ?d = (objs c)(k \<mapsto> ob)"
    by (auto simp: objs_def)
  ultimately show ?thesis
    using k d assms(1) by (simp add: cache_inv_def same_config_def dom_objs [OF assms(1), symmetric])
qed

lemma remove_absent: "(ow, ck sub) \<notin> rel c \<Longrightarrow> remove ck c ow sub = c"
  by (simp add: remove_def removeByKey_absent)

lemma remove_step:
  assumes inv: "cache_inv ck c"
  shows "cache_inv ck (remove ck c ow sub) \<and> same_config c (remove ck c ow sub) \<and>
    rel (remove ck c ow sub) = rel c - {(ow, ck sub)} \<and>
    objs (remove ck c ow sub) =
      (if (ow, ck sub) \<in> rel c \<and> owners_of c (ck sub) \<noteq> {ow} then (objs c)(ck sub \<mapsto> sub)
       else objs c |` Range (rel c - {(ow, ck sub)}))"
proof (cases "(ow, ck sub) \<in> rel c")
  case False
  with inv show ?thesis by (simp add: remove_absent restrict_objs_id)
next
  case True
  from removeByKey_spec [OF inv True] obtain d e
    where d: "removeByKey c ow (ck sub) = (d, Some e)" "cache_inv ck d" "same_config c d"
      "rel d = rel c - {(ow, ck sub)}" "objs d = objs c |` Range (rel d)" by auto
  have left: "ck sub \<in> Range (rel d) \<longleftrightarrow> owners_of c (ck sub) \<noteq> {ow}"
    using True d(4) by (auto simp: owners_of_def)
  have "objs d = objs c" if "ck sub \<in> Range (rel d)"
  proof -
    from that d(4) have "Range (rel d) = Range (rel c)" using True by auto
    with d(5) inv show ?thesis by (simp add: restrict_objs_id)
  qed
  with set_object_step [OF d(2) refl, of sub] d True left show ?thesis
    by (auto simp: remove_def intro: same_config_trans)
qed

end
