(* ===== verification/SubCacheOps.thy ===== *)
theory SubCacheOps
  imports SubCacheInv
begin

text \<open>
  The effect of every operation of the sub object cache on its abstraction, the lookup, and the
  runs of the cache: any sequence of operations on a fresh cache keeps the invariant and never
  panics.
\<close>

section \<open>Loops over owners\<close>

text \<open>The owners of a list the filters let pass.\<close>

definition passing :: "'o SubObjectCache \<Rightarrow> ClusterObjectKeySet \<Rightarrow> ClusterObjectKey set" where
  "passing c xs = {ow \<in> set xs. filterKey c ow}"

lemma passing_config: "same_config c d \<Longrightarrow> passing d = passing c"
  by (simp add: passing_def filterKey_config fun_eq_iff)

lemma passing_snoc:
  "passing c (xs @ [x]) = (if filterKey c x then insert x (passing c xs) else passing c xs)"
  by (auto simp: passing_def)

lemma passing_Nil [simp]: "passing c [] = {}"
  by (simp add: passing_def)

lemma for_each_add:
  assumes inv: "cache_inv ck c"
  shows "\<exists>d. for_each (\<lambda>c e. add ck c e ob) c xs = Ok d \<and> cache_inv ck d \<and> same_config c d \<and>
    rel d = rel c \<union> passing c xs \<times> {ck ob} \<and>
    objs d = (if passing c xs = {} then objs c else (objs c)(ck ob \<mapsto> ob))"
proof (rule for_each_rule [where I = "\<lambda>d ys. cache_inv ck d \<and> same_config c d \<and>
    rel d = rel c \<union> passing c ys \<times> {ck ob} \<and>
    objs d = (if passing c ys = {} then objs c else (objs c)(ck ob \<mapsto> ob))"])
  show "cache_inv ck c \<and> same_config c c \<and> rel c = rel c \<union> passing c [] \<times> {ck ob} \<and>
    objs c = (if passing c [] = {} then objs c else (objs c)(ck ob \<mapsto> ob))"
    using inv by simp
next
  fix d ys x
  assume I: "cache_inv ck d \<and> same_config c d \<and> rel d = rel c \<union> passing c ys \<times> {ck ob} \<and>
    objs d = (if passing c ys = {} then objs c else (objs c)(ck ob \<mapsto> ob))"
  show "\<exists>d'. add ck d x ob = Ok d' \<and> cache_inv ck d' \<and> same_config c d' \<and>
    rel d' = rel c \<union> passing c (ys @ [x]) \<times> {ck ob} \<and>
    objs d' = (if passing c (ys @ [x]) = {} then objs c else (objs c)(ck ob \<mapsto> ob))"
  proof (cases "filterKey c x")
    case True
    with I have "filterKey d x" using filterKey_config [of c d] by simp
    with I add_spec [of ck d x ob] obtain d' where "add ck d x ob = Ok d'" "cache_inv ck d'"
      "same_config d d'" "rel d' = insert (x, ck ob) (rel d)" "objs d' = (objs d)(ck ob \<mapsto> ob)"
      by blast
    with I True show ?thesis
      by (auto simp: passing_snoc intro: same_config_trans)
  next
    case False
    with I have "\<not> filterKey d x" using filterKey_config [of c d] by simp
    with I False show ?thesis
      by (auto simp: passing_snoc add_filtered)
  qed
qed

lemma foldl_remove:
  assumes inv: "cache_inv ck c"
  shows "cache_inv ck (foldl (\<lambda>c e. remove ck c e ob) c xs) \<and>
    same_config c (foldl (\<lambda>c e. remove ck c e ob) c xs) \<and>
    rel (foldl (\<lambda>c e. remove ck c e ob) c xs) = rel c - set xs \<times> {ck ob} \<and>
    (\<forall>k. k \<noteq> ck ob \<longrightarrow> objs (foldl (\<lambda>c e. remove ck c e ob) c xs) k = objs c k)"
proof (rule foldl_rule [where I = "\<lambda>d ys. cache_inv ck d \<and> same_config c d \<and>
    rel d = rel c - set ys \<times> {ck ob} \<and> (\<forall>k. k \<noteq> ck ob \<longrightarrow> objs d k = objs c k)"])
  show "cache_inv ck c \<and> same_config c c \<and> rel c = rel c - set [] \<times> {ck ob} \<and>
    (\<forall>k. k \<noteq> ck ob \<longrightarrow> objs c k = objs c k)"
    using inv by simp
next
  fix d ys x
  assume I: "cache_inv ck d \<and> same_config c d \<and> rel d = rel c - set ys \<times> {ck ob} \<and>
    (\<forall>k. k \<noteq> ck ob \<longrightarrow> objs d k = objs c k)"
  then have step: "cache_inv ck (remove ck d x ob)" "same_config d (remove ck d x ob)"
    "rel (remove ck d x ob) = rel d - {(x, ck ob)}"
    using remove_step [of ck d x ob] by blast+
  have "objs (remove ck d x ob) k = objs d k" if "k \<noteq> ck ob" for k
  proof -
    have "k \<in> Range (rel d - {(x, ck ob)}) \<longleftrightarrow> k \<in> dom (objs d)"
      using that dom_objs [of ck d] I by auto
    then show ?thesis
      using that I remove_step [of ck d x ob] by (auto simp: restrict_map_def)
  qed
  with I step show "cache_inv ck (remove ck d x ob) \<and> same_config c (remove ck d x ob) \<and>
    rel (remove ck d x ob) = rel c - set (ys @ [x]) \<times> {ck ob} \<and>
    (\<forall>k. k \<noteq> ck ob \<longrightarrow> objs (remove ck d x ob) k = objs c k)"
    by (auto intro: same_config_trans)
qed

lemma foldl_removeByKey:
  assumes inv: "cache_inv ck c"
  shows "cache_inv ck (foldl (\<lambda>c (ow, k). fst (removeByKey c ow k)) c ps) \<and>
    same_config c (foldl (\<lambda>c (ow, k). fst (removeByKey c ow k)) c ps) \<and>
    rel (foldl (\<lambda>c (ow, k). fst (removeByKey c ow k)) c ps) = rel c - set ps \<and>
    objs (foldl (\<lambda>c (ow, k). fst (removeByKey c ow k)) c ps) = objs c |` Range (rel c - set ps)"
proof (rule foldl_rule [where I = "\<lambda>d qs. cache_inv ck d \<and> same_config c d \<and>
    rel d = rel c - set qs \<and> objs d = objs c |` Range (rel c - set qs)"])
  show "cache_inv ck c \<and> same_config c c \<and> rel c = rel c - set [] \<and>
    objs c = objs c |` Range (rel c - set [])"
    using inv by (simp add: restrict_objs_id)
next
  fix d qs and p :: "ClusterObjectKey \<times> ClusterObjectKey"
  assume I: "cache_inv ck d \<and> same_config c d \<and> rel d = rel c - set qs \<and>
    objs d = objs c |` Range (rel c - set qs)"
  obtain ow k where p: "p = (ow, k)" by (cases p)
  let ?d = "fst (removeByKey d ow k)"
  have step: "cache_inv ck ?d" "same_config d ?d" "rel ?d = rel d - {(ow, k)}"
    "objs ?d = objs d |` Range (rel ?d)"
    using removeByKey_step [of ck d ow k] I by blast+
  have rel': "rel ?d = rel c - set (qs @ [p])" using step(3) I p by auto
  have "Range (rel c - set (qs @ [p])) \<subseteq> Range (rel c - set qs)" by auto
  then have "objs ?d = objs c |` Range (rel c - set (qs @ [p]))"
    unfolding step(4) rel' using I by (simp add: Int_absorb1)
  with rel' step I p show "cache_inv ck ((\<lambda>c (ow, k). fst (removeByKey c ow k)) d p) \<and>
    same_config c ((\<lambda>c (ow, k). fst (removeByKey c ow k)) d p) \<and>
    rel ((\<lambda>c (ow, k). fst (removeByKey c ow k)) d p) = rel c - set (qs @ [p]) \<and>
    objs ((\<lambda>c (ow, k). fst (removeByKey c ow k)) d p) = objs c |` Range (rel c - set (qs @ [p]))"
    by (auto intro: same_config_trans)
qed

section \<open>Renewing\<close>

lemma renew_absent:
  assumes inv: "cache_inv ck c" and absent: "objs c (ck ob) = None"
  shows "\<exists>d. renewSubObject ck c ob = Ok (d, owners c ob \<noteq> []) \<and> cache_inv ck d \<and> same_config c d \<and>
    rel d = rel c \<union> passing c (owners c ob) \<times> {ck ob} \<and>
    objs d = (if passing c (owners c ob) = {} then objs c else (objs c)(ck ob \<mapsto> ob))"
proof -
  from absent have none: "nested c (ck ob) = None" by (simp add: objs_def)
  show ?thesis
  proof (cases "owners c ob = []")
    case True
    with none inv show ?thesis by (simp add: renewSubObject_def)
  next
    case False
    from for_each_add [OF inv, of ob "owners c ob"] obtain d where
      "for_each (\<lambda>c e. add ck c e ob) c (owners c ob) = Ok d" "cache_inv ck d \<and> same_config c d \<and>
      rel d = rel c \<union> passing c (owners c ob) \<times> {ck ob} \<and>
      objs d = (if passing c (owners c ob) = {} then objs c else (objs c)(ck ob \<mapsto> ob))" by blast
    with False none show ?thesis by (simp add: renewSubObject_def Let_def)
  qed
qed

lemma renew_present:
  assumes inv: "cache_inv ck c" and old: "objs c (ck ob) = Some old"
  shows "\<exists>d. renewSubObject ck c ob = Ok (d, set (owners c ob) \<noteq> set (owners c old)) \<and>
    cache_inv ck d \<and> same_config c d \<and>
    rel d = (rel c \<union> {ow \<in> set (owners c old) - set (owners c ob). filterKey c ow} \<times> {ck ob}) -
      (set (owners c ob) - set (owners c old)) \<times> {ck ob} \<and>
    objs d = (objs c)(ck ob := (if ck ob \<in> Range (rel d) then Some ob else None))"
proof -
  let ?ad = "fst (DiffFrom (owners c ob) (owners c old))"
  let ?del = "snd (DiffFrom (owners c ob) (owners c old))"
  from old obtain en where en: "nested c (ck ob) = Some en" "e_object en = old"
    by (auto simp: objs_def)
  from for_each_add [OF inv, of ob ?ad] obtain c1 where
    c1: "for_each (\<lambda>c e. add ck c e ob) c ?ad = Ok c1" "cache_inv ck c1" "same_config c c1"
      "rel c1 = rel c \<union> passing c ?ad \<times> {ck ob}"
      "objs c1 = (if passing c ?ad = {} then objs c else (objs c)(ck ob \<mapsto> ob))" by blast
  let ?c2 = "foldl (\<lambda>c e. remove ck c e ob) c1 ?del"
  from foldl_remove [OF c1(2), of ob ?del] have
    c2: "cache_inv ck ?c2" "same_config c1 ?c2" "rel ?c2 = rel c1 - set ?del \<times> {ck ob}"
      "\<And>k. k \<noteq> ck ob \<Longrightarrow> objs ?c2 k = objs c1 k" by blast+
  let ?d = "set_object (ck ob) ob ?c2"
  from set_object_step [OF c2(1) refl, of ob] have
    d: "cache_inv ck ?d" "same_config ?c2 ?d" "rel ?d = rel ?c2"
      "objs ?d = (if ck ob \<in> Range (rel ?c2) then (objs ?c2)(ck ob \<mapsto> ob) else objs ?c2)" by auto
  have mod: "0 < length ?ad + length ?del \<longleftrightarrow> set (owners c ob) \<noteq> set (owners c old)"
    by (auto simp: DiffFrom_def filter_empty_conv)
  have eq: "renewSubObject ck c ob = Ok (?d, set (owners c ob) \<noteq> set (owners c old))"
    using en c1(1) mod by (simp add: renewSubObject_def Let_def split_beta)
  have pass: "passing c ?ad = {ow \<in> set (owners c old) - set (owners c ob). filterKey c ow}"
    by (auto simp: passing_def keyset_simps)
  have "objs ?d k = ((objs c)(ck ob := (if ck ob \<in> Range (rel ?d) then Some ob else None))) k" for k
  proof (cases "k = ck ob")
    case True
    have "objs ?c2 (ck ob) = None" if "ck ob \<notin> Range (rel ?c2)"
      using that dom_objs [OF c2(1)] by blast
    with True d show ?thesis by auto
  next
    case False
    with d(4) c2(4) c1(5) show ?thesis by auto
  qed
  then have "objs ?d = (objs c)(ck ob := (if ck ob \<in> Range (rel ?d) then Some ob else None))" ..
  moreover have "rel ?d = (rel c \<union> passing c ?ad \<times> {ck ob}) - set ?del \<times> {ck ob}"
    using d(3) c2(3) c1(4) by simp
  moreover have "same_config c ?d"
    using c1(3) c2(2) d(2) by (meson same_config_trans)
  ultimately show ?thesis
    using eq d(1) unfolding pass by (auto simp: keyset_simps)
qed

text \<open>
  An object without owners in an index that has it under none of the new owners' names stays
  where it was: the owners it is indexed under are those it had before.
\<close>

lemma renew_keeps_owners:
  assumes inv: "cache_inv ck c" and old: "objs c (ck ob) = Some old"
    and reg: "owners_of c (ck ob) = passing c (owners c old)"
    and ren: "renewSubObject ck c ob = Ok (d, b)"
  shows "owners_of d (ck ob) = owners_of c (ck ob)" and "objs d (ck ob) = Some ob"
    and "\<And>k. k \<noteq> ck ob \<Longrightarrow> owners_of d k = owners_of c k \<and> objs d k = objs c k"
proof -
  from renew_present [OF inv old] ren have
    rel': "rel d = (rel c \<union> {ow \<in> set (owners c old) - set (owners c ob). filterKey c ow} \<times> {ck ob}) -
      (set (owners c ob) - set (owners c old)) \<times> {ck ob}"
    and objs': "objs d = (objs c)(ck ob := (if ck ob \<in> Range (rel d) then Some ob else None))"
    by auto
  show own: "owners_of d (ck ob) = owners_of c (ck ob)"
    using reg rel' by (auto simp: owners_of_def passing_def)
  have "ck ob \<in> Range (rel c)"
    using old dom_objs [OF inv] by blast
  then have "ck ob \<in> Range (rel d)"
    using own by (auto simp: owners_of_def)
  with objs' show "objs d (ck ob) = Some ob" by simp
  show "owners_of d k = owners_of c k \<and> objs d k = objs c k" if "k \<noteq> ck ob" for k
    using that rel' objs' by (auto simp: owners_of_def)
qed

section \<open>Deleting\<close>

lemma DeleteSubObject_spec:
  assumes inv: "cache_inv ck c"
  shows "cache_inv ck (DeleteSubObject c key) \<and> same_config c (DeleteSubObject c key) \<and>
    rel (DeleteSubObject c key) =
      rel c - (case objs c key of None \<Rightarrow> {} | Some ob \<Rightarrow> set (owners c ob)) \<times> {key} \<and>
    objs (DeleteSubObject c key) = objs c |` Range (rel (DeleteSubObject c key))"
proof (cases "nested c key")
  case None
  with inv show ?thesis by (simp add: DeleteSubObject_def objs_def [of c] restrict_objs_id [unfolded objs_def])
next
  case (Some en)
  let ?ps = "map (\<lambda>ow. (ow, key)) (owners c (e_object en))"
  have eq: "DeleteSubObject c key = foldl (\<lambda>c (ow, k). fst (removeByKey c ow k)) c ?ps"
    using Some by (simp add: DeleteSubObject_def foldl_map)
  have set: "set ?ps = set (owners c (e_object en)) \<times> {key}" by auto
  from foldl_removeByKey [OF inv, of ?ps] Some show ?thesis
    unfolding eq set by (simp add: objs_def [of c])
qed

lemma DeleteOwner_spec:
  assumes inv: "cache_inv ck c"
  shows "cache_inv ck (DeleteOwner c key) \<and> same_config c (DeleteOwner c key) \<and>
    rel (DeleteOwner c key) = {p \<in> rel c. fst p \<noteq> key} \<and>
    objs (DeleteOwner c key) = objs c |` Range (rel (DeleteOwner c key))"
proof (cases "byOwner c key")
  case None
  then have "rel c = {p \<in> rel c. fst p \<noteq> key}" by (auto simp: rel_def)
  with None inv show ?thesis by (simp add: DeleteOwner_def restrict_objs_id)
next
  case (Some slaves)
  let ?ps = "map (\<lambda>k. (key, k)) slaves"
  let ?c = "foldl (\<lambda>c (ow, k). fst (removeByKey c ow k)) c ?ps"
  have rel': "rel c - set ?ps = {p \<in> rel c. fst p \<noteq> key}"
    using Some by (auto simp: rel_def)
  from foldl_removeByKey [OF inv, of ?ps] have
    c: "cache_inv ck ?c" "same_config c ?c" "rel ?c = rel c - set ?ps"
      "objs ?c = objs c |` Range (rel c - set ?ps)" by blast+
  have "byOwner ?c key = None"
    using byOwner_None [OF c(1)] unfolding c(3) rel' by simp
  then have "DeleteOwner c key = ?c"
    using Some by (simp add: DeleteOwner_def foldl_map fun_upd_idem)
  then show ?thesis using c unfolding rel' by simp
qed

section \<open>Looking up\<close>

lemma objects_of_Ok:
  "list_all (\<lambda>k. k \<in> dom (objs c)) ks \<Longrightarrow> objects_of c ks = Ok (map (\<lambda>k. the (objs c k)) ks)"
  by (induction ks) (auto simp: objs_def dom_def)

lemma GetByKey_spec:
  assumes inv: "cache_inv ck c" and perm: "\<And>xs. set (rng xs) = set xs"
  shows "\<exists>obs. GetByKey rng c ow = Ok obs \<and> set obs = {ob. \<exists>k. (ow, k) \<in> rel c \<and> objs c k = Some ob}"
proof -
  let ?keys = "case byOwner c ow of None \<Rightarrow> [] | Some keys \<Rightarrow> rng keys"
  have keys: "k \<in> set ?keys \<longleftrightarrow> (ow, k) \<in> rel c" for k
    using perm by (auto simp: in_rel_iff split: option.splits)
  have "list_all (\<lambda>k. k \<in> dom (objs c)) ?keys"
    unfolding list_all_iff keys dom_objs [OF inv] using keys by blast
  from objects_of_Ok [OF this] have
    "GetByKey rng c ow = Ok (map (\<lambda>k. the (objs c k)) ?keys)"
    by (simp add: GetByKey_def)
  moreover have "set (map (\<lambda>k. the (objs c k)) ?keys) = {ob. \<exists>k. (ow, k) \<in> rel c \<and> objs c k = Some ob}"
    using keys dom_objs [OF inv] by (force simp: image_iff)
  ultimately show ?thesis by blast
qed

end
