(* ===== verification/CacheIndex.thy ===== *)
theory CacheIndex
  imports SubCacheOps Api
begin

text \<open>
  The sub object cache as an interface. The controllers use a cache through five operations;
  \<open>owner_index\<close> states what they may rely on, proves what follows for every sequence of them,
  and is interpreted on the model of \<open>SubObjectCache\<close> for the endpoints of the DNS controller
  and of the endpoint controller.

  The second part relates the cache to its purpose: the index agrees with the owners of the
  objects it holds as long as no object changes its owners, and what happens when one does.
\<close>

section \<open>Runs of a cache\<close>

datatype 'o index_op =
    IxSetup "'o list"
  | IxRenew 'o
  | IxForget ClusterObjectKey
  | IxDropOwner ClusterObjectKey

fun index_step ::
  "('c \<Rightarrow> 'o list \<Rightarrow> 'c outcome) \<Rightarrow> ('c \<Rightarrow> 'o \<Rightarrow> ('c \<times> bool) outcome) \<Rightarrow> ('c \<Rightarrow> ClusterObjectKey \<Rightarrow> 'c) \<Rightarrow>
   ('c \<Rightarrow> ClusterObjectKey \<Rightarrow> 'c) \<Rightarrow> 'c \<Rightarrow> 'o index_op \<Rightarrow> 'c outcome" where
  "index_step load renew forget drop_owner c (IxSetup os) = load c os"
| "index_step load renew forget drop_owner c (IxRenew ob) = bind_outcome (renew c ob) (\<lambda>(d, _). Ok d)"
| "index_step load renew forget drop_owner c (IxForget k) = Ok (forget c k)"
| "index_step load renew forget drop_owner c (IxDropOwner k) = Ok (drop_owner c k)"

locale owner_index =
  fixes ok :: "'c \<Rightarrow> bool"
    and links :: "'c \<Rightarrow> (ClusterObjectKey \<times> ClusterObjectKey) set"
    and held :: "'c \<Rightarrow> ClusterObjectKey \<rightharpoonup> 'o"
    and ident :: "'o \<Rightarrow> ClusterObjectKey"
    and load :: "'c \<Rightarrow> 'o list \<Rightarrow> 'c outcome"
    and renew :: "'c \<Rightarrow> 'o \<Rightarrow> ('c \<times> bool) outcome"
    and forget :: "'c \<Rightarrow> ClusterObjectKey \<Rightarrow> 'c"
    and drop_owner :: "'c \<Rightarrow> ClusterObjectKey \<Rightarrow> 'c"
    and lookup :: "(ClusterObjectKey list \<Rightarrow> ClusterObjectKey list) \<Rightarrow> 'c \<Rightarrow> ClusterObjectKey \<Rightarrow> 'o list outcome"
  assumes load_ok: "ok c \<Longrightarrow> \<exists>d. load c os = Ok d \<and> ok d"
    and renew_ok: "ok c \<Longrightarrow> \<exists>d b. renew c ob = Ok (d, b) \<and> ok d"
    and forget_ok: "ok c \<Longrightarrow> ok (forget c k) \<and> links (forget c k) \<subseteq> links c \<and>
      (\<forall>j ow. j \<noteq> k \<longrightarrow> (ow, j) \<in> links c \<longrightarrow> (ow, j) \<in> links (forget c k))"
    and drop_ok: "ok c \<Longrightarrow> ok (drop_owner c ow) \<and> links (drop_owner c ow) = {p \<in> links c. fst p \<noteq> ow} \<and>
      held (drop_owner c ow) \<subseteq>\<^sub>m held c"
    and held_links: "ok c \<Longrightarrow> dom (held c) = Range (links c)"
    and held_ident: "ok c \<Longrightarrow> held c k = Some ob \<Longrightarrow> ident ob = k"
    and lookup_law: "ok c \<Longrightarrow> (\<And>xs. set (rng xs) = set xs) \<Longrightarrow>
      \<exists>obs. lookup rng c ow = Ok obs \<and> set obs = {ob. \<exists>k. (ow, k) \<in> links c \<and> held c k = Some ob}"
begin

text \<open>No sequence of operations panics, and the lookup never does afterwards.\<close>

lemma step_ok: "ok c \<Longrightarrow> \<exists>d. index_step load renew forget drop_owner c oper = Ok d \<and> ok d"
  using load_ok renew_ok forget_ok drop_ok by (cases oper) fastforce+

lemma run_ok: "ok c \<Longrightarrow> \<exists>d. for_each (index_step load renew forget drop_owner) c opers = Ok d \<and> ok d"
  by (rule for_each_rule [where I = "\<lambda>c _. ok c"]) (auto intro: step_ok)

lemma run_lookup:
  assumes "ok c" and "\<And>xs. set (rng xs) = set xs"
  shows "\<exists>d obs. for_each (index_step load renew forget drop_owner) c opers = Ok d \<and> ok d \<and> lookup rng d ow = Ok obs"
  using run_ok [OF assms(1)] lookup_law [OF _ assms(2)] by blast

lemma lookup_dropped:
  assumes "ok c" and "\<And>xs. set (rng xs) = set xs"
  shows "lookup rng (drop_owner c ow) ow = Ok []"
proof -
  have d: "ok (drop_owner c ow)" "links (drop_owner c ow) = {p \<in> links c. fst p \<noteq> ow}"
    using drop_ok [OF assms(1)] by blast+
  from lookup_law [OF d(1) assms(2), of ow] d(2) show ?thesis by auto
qed

lemma lookup_dropped_other:
  assumes "ok c" and "\<And>xs. set (rng xs) = set xs" and "ow' \<noteq> ow"
  shows "\<exists>obs obs'. lookup rng c ow' = Ok obs \<and> lookup rng (drop_owner c ow) ow' = Ok obs' \<and> set obs' = set obs"
proof -
  have d: "ok (drop_owner c ow)" "links (drop_owner c ow) = {p \<in> links c. fst p \<noteq> ow}"
    "held (drop_owner c ow) \<subseteq>\<^sub>m held c"
    using drop_ok [OF assms(1)] by blast+
  have same: "held (drop_owner c ow) k = held c k" if "(ow', k) \<in> links c" for k
  proof -
    have "k \<in> dom (held (drop_owner c ow))"
      using that assms(3) d(2) held_links [OF d(1)] by auto
    with d(3) show ?thesis by (auto simp: map_le_def)
  qed
  have "{ob. \<exists>k. (ow', k) \<in> links (drop_owner c ow) \<and> held (drop_owner c ow) k = Some ob} =
      {ob. \<exists>k. (ow', k) \<in> links c \<and> held c k = Some ob}"
    using same assms(3) by (auto simp: d(2))
  with lookup_law [OF assms(1,2), of ow'] lookup_law [OF d(1) assms(2), of ow']
  show ?thesis by auto
qed

end

section \<open>The cache provides the interface\<close>

lemma Setup_step:
  assumes "cache_inv ck c"
  shows "\<exists>d. Setup ck c os = Ok d \<and> cache_inv ck d \<and> same_config c d"
  unfolding Setup_def
proof (rule for_each_rule [where I = "\<lambda>d _. cache_inv ck d \<and> same_config c d"])
  show "cache_inv ck c \<and> same_config c c" using assms by simp
next
  fix d ys s
  assume I: "cache_inv ck d \<and> same_config c d"
  from for_each_add [of ck d s "owners c s"] I
  show "\<exists>d'. for_each (\<lambda>c o'. add ck c o' s) d (owners c s) = Ok d' \<and> cache_inv ck d' \<and> same_config c d'"
    by (meson same_config_trans)
qed

lemma renew_step:
  assumes "cache_inv ck c"
  shows "\<exists>d b. renewSubObject ck c ob = Ok (d, b) \<and> cache_inv ck d \<and> same_config c d"
proof (cases "objs c (ck ob)")
  case None
  from renew_absent [OF assms None] show ?thesis by blast
next
  case (Some old)
  from renew_present [OF assms Some] show ?thesis by blast
qed

lemma restrict_map_le: "(m :: 'a \<rightharpoonup> 'b) |` A \<subseteq>\<^sub>m m"
  by (auto simp: map_le_def restrict_map_def)

lemma owner_index_cache:
  fixes ck :: "'o \<Rightarrow> ClusterObjectKey"
  shows "owner_index (cache_inv ck) rel objs ck (Setup ck) (renewSubObject ck) DeleteSubObject DeleteOwner GetByKey"
proof
  fix c :: "'o SubObjectCache" and ow
  assume c: "cache_inv ck c"
  show "cache_inv ck (DeleteOwner c ow) \<and> rel (DeleteOwner c ow) = {p \<in> rel c. fst p \<noteq> ow} \<and>
      objs (DeleteOwner c ow) \<subseteq>\<^sub>m objs c"
    using DeleteOwner_spec [OF c, of ow] restrict_map_le [of "objs c"] by metis
next
  fix c :: "'o SubObjectCache" and ob
  assume "cache_inv ck c"
  from renew_step [OF this, of ob]
  show "\<exists>d b. renewSubObject ck c ob = Ok (d, b) \<and> cache_inv ck d" by blast
qed (auto simp: DeleteSubObject_spec dom_objs objs_key
    dest: Setup_step intro: GetByKey_spec)

interpretation ep_cache: owner_index "cache_inv ep_ClusterKey" rel objs ep_ClusterKey
  "Setup ep_ClusterKey" "renewSubObject ep_ClusterKey" DeleteSubObject DeleteOwner GetByKey
  by (rule owner_index_cache)

section \<open>Agreement of the index with the objects\<close>

text \<open>
  A cache without filters is consistent when an object is indexed under exactly its owners. The
  purpose of the cache, as a map from keys to objects: renewing stores an object that has an
  owner, forgetting removes it, dropping an owner removes the objects of that owner.
\<close>

definition consistent :: "'o SubObjectCache \<Rightarrow> bool" where
  "consistent c \<longleftrightarrow> rel c = {(ow, k). \<exists>ob. objs c k = Some ob \<and> ow \<in> set (owners c ob)}"

definition store :: "('o \<Rightarrow> ClusterObjectKey) \<Rightarrow> ('o \<Rightarrow> ClusterObjectKeySet) \<Rightarrow>
    (ClusterObjectKey \<rightharpoonup> 'o) \<Rightarrow> 'o \<Rightarrow> (ClusterObjectKey \<rightharpoonup> 'o)" where
  "store ck own m ob = (if own ob = [] then m else m(ck ob \<mapsto> ob))"

fun index_spec :: "('o \<Rightarrow> ClusterObjectKey) \<Rightarrow> ('o \<Rightarrow> ClusterObjectKeySet) \<Rightarrow>
    (ClusterObjectKey \<rightharpoonup> 'o) \<Rightarrow> 'o index_op \<Rightarrow> (ClusterObjectKey \<rightharpoonup> 'o)" where
  "index_spec ck own m (IxSetup os) = foldl (store ck own) m os"
| "index_spec ck own m (IxRenew ob) = store ck own m ob"
| "index_spec ck own m (IxForget k) = m(k := None)"
| "index_spec ck own m (IxDropOwner ow) =
     (\<lambda>k. case m k of None \<Rightarrow> None | Some ob \<Rightarrow> if ow \<in> set (own ob) then None else Some ob)"

fun op_objects :: "'o index_op \<Rightarrow> 'o list" where
  "op_objects (IxSetup os) = os"
| "op_objects (IxRenew ob) = [ob]"
| "op_objects _ = []"

text \<open>
  The conditions of the agreement: no filters, at most one owner per object, and owners that are
  determined by the key, for the objects in a set \<open>S\<close>.
\<close>

definition agrees ::
  "('o \<Rightarrow> ClusterObjectKey) \<Rightarrow> (ClusterObjectKey \<Rightarrow> ClusterObjectKeySet) \<Rightarrow> 'o set \<Rightarrow> 'o SubObjectCache \<Rightarrow> bool" where
  "agrees ck of_key S c \<longleftrightarrow> cache_inv ck c \<and> consistent c \<and> filters c = [] \<and> ran (objs c) \<subseteq> S \<and>
     (\<forall>ob\<in>S. owners c ob = of_key (ck ob)) \<and> (\<forall>ob. length (owners c ob) \<le> 1)"

lemma passing_all: "filters c = [] \<Longrightarrow> passing c xs = set xs"
  by (simp add: passing_def filterKey_def)

lemma agrees_stored:
  assumes "agrees ck of_key S c" and "ob \<in> S" and "cache_inv ck d" and "same_config c d"
    and "rel d = rel c \<union> set (owners c ob) \<times> {ck ob}" and "objs d = store ck (owners c) (objs c) ob"
  shows "agrees ck of_key S d"
proof -
  have con: "rel c = {(ow, k). \<exists>ob. objs c k = Some ob \<and> ow \<in> set (owners c ob)}"
    and S: "\<forall>ob\<in>S. owners c ob = of_key (ck ob)" "ran (objs c) \<subseteq> S"
    using assms(1) by (simp_all add: agrees_def consistent_def)
  have own: "owners d = owners c" "filters d = filters c"
    using assms(4) by (simp_all add: same_config_def)
  have same: "owners c old = owners c ob" if "objs c (ck ob) = Some old" for old
  proof -
    have "old \<in> S" using that S(2) by (auto simp: ran_def)
    moreover have "ck old = ck ob"
      using that assms(1) objs_key [of ck c] by (auto simp: agrees_def)
    ultimately show ?thesis using S(1) assms(2) by simp
  qed
  have "consistent d"
  proof (cases "owners c ob = []")
    case True
    with con assms(5,6) own show ?thesis by (auto simp: consistent_def store_def)
  next
    case False
    with assms(5,6) own con same show ?thesis
      by (auto simp: consistent_def store_def split: if_splits)
  qed
  moreover have "ran (objs d) \<subseteq> S"
    using S(2) assms(2,6) by (auto simp: store_def ran_def split: if_splits)
  ultimately show ?thesis
    using assms(1,3) own by (simp add: agrees_def)
qed

lemma agrees_renew:
  assumes "agrees ck of_key S c" and "ob \<in> S"
  shows "\<exists>d b. renewSubObject ck c ob = Ok (d, b) \<and> agrees ck of_key S d \<and> same_config c d \<and>
    objs d = store ck (owners c) (objs c) ob"
proof -
  have inv: "cache_inv ck c" and S: "\<forall>ob\<in>S. owners c ob = of_key (ck ob)" "ran (objs c) \<subseteq> S"
    and con: "rel c = {(ow, k). \<exists>ob. objs c k = Some ob \<and> ow \<in> set (owners c ob)}"
    and pass: "passing c (owners c ob) = set (owners c ob)"
    using assms(1) by (simp_all add: agrees_def consistent_def passing_all)
  show ?thesis
  proof (cases "objs c (ck ob)")
    case None
    from renew_absent [OF inv None] pass obtain d where
      d: "renewSubObject ck c ob = Ok (d, owners c ob \<noteq> [])" "cache_inv ck d" "same_config c d"
        "rel d = rel c \<union> set (owners c ob) \<times> {ck ob}" "objs d = store ck (owners c) (objs c) ob"
      by (auto simp: store_def)
    with agrees_stored [OF assms d(2,3)] show ?thesis by blast
  next
    case (Some old)
    then have own: "owners c old = owners c ob"
      using S assms(2) objs_key [OF inv Some] by (metis ranI subsetD)
    from renew_present [OF inv Some] own obtain d where
      d: "renewSubObject ck c ob = Ok (d, False)" "cache_inv ck d" "same_config c d" "rel d = rel c"
        "objs d = (objs c)(ck ob := (if ck ob \<in> Range (rel d) then Some ob else None))"
      by auto
    have R: "ck ob \<in> Range (rel c)" using Some dom_objs [OF inv] by blast
    then have ne: "owners c ob \<noteq> []" using con Some own by auto
    have "rel d = rel c \<union> set (owners c ob) \<times> {ck ob}"
      using d(4) con Some own by auto
    moreover have "objs d = store ck (owners c) (objs c) ob"
      using d(4,5) R ne by (simp add: store_def)
    ultimately show ?thesis using agrees_stored [OF assms d(2,3)] d by blast
  qed
qed

lemma agrees_setup:
  assumes "agrees ck of_key S c" and "set os \<subseteq> S"
  shows "\<exists>d. Setup ck c os = Ok d \<and> agrees ck of_key S d \<and> same_config c d \<and>
    objs d = foldl (store ck (owners c)) (objs c) os"
  unfolding Setup_def
proof (rule for_each_rule [where I = "\<lambda>d ys. agrees ck of_key S d \<and> same_config c d \<and>
    objs d = foldl (store ck (owners c)) (objs c) ys"])
  show "agrees ck of_key S c \<and> same_config c c \<and> objs c = foldl (store ck (owners c)) (objs c) []"
    using assms by simp
next
  fix d ys s
  assume I: "agrees ck of_key S d \<and> same_config c d \<and> objs d = foldl (store ck (owners c)) (objs c) ys"
    and s: "s \<in> set os"
  then have own: "owners d = owners c" and pass: "passing d (owners c s) = set (owners c s)"
    and inv: "cache_inv ck d"
    by (simp_all add: same_config_def agrees_def passing_all)
  from for_each_add [OF inv, of s "owners c s"] pass obtain d' where
    d': "for_each (\<lambda>c o'. add ck c o' s) d (owners c s) = Ok d'" "cache_inv ck d'" "same_config d d'"
      "rel d' = rel d \<union> set (owners d s) \<times> {ck s}" "objs d' = store ck (owners d) (objs d) s"
    by (auto simp: store_def own)
  have "agrees ck of_key S d'"
    using agrees_stored [OF _ _ d'(2,3,4,5)] I s assms(2) by blast
  with d' I own show "\<exists>d'. for_each (\<lambda>c o'. add ck c o' s) d (owners c s) = Ok d' \<and>
      agrees ck of_key S d' \<and> same_config c d' \<and> objs d' = foldl (store ck (owners c)) (objs c) (ys @ [s])"
    by (auto intro: same_config_trans)
qed

lemma agrees_restricted:
  assumes "agrees ck of_key S c" and "cache_inv ck d" and "same_config c d"
    and "rel d \<subseteq> rel c" and "objs d = objs c |` Range (rel d)"
    and "\<And>ow ow' k. (ow, k) \<in> rel d \<Longrightarrow> (ow', k) \<in> rel c \<Longrightarrow> (ow', k) \<in> rel d"
  shows "agrees ck of_key S d"
proof -
  have own: "owners d = owners c" "filters d = filters c"
    using assms(3) by (simp_all add: same_config_def)
  have con: "rel c = {(ow, k). \<exists>ob. objs c k = Some ob \<and> ow \<in> set (owners c ob)}"
    using assms(1) by (simp add: agrees_def consistent_def)
  have "(ow, k) \<in> rel d \<longleftrightarrow> (\<exists>ob. objs d k = Some ob \<and> ow \<in> set (owners c ob))" for ow k
  proof
    assume r: "(ow, k) \<in> rel d"
    then obtain ob where "objs c k = Some ob" "ow \<in> set (owners c ob)"
      using assms(4) con by auto
    with r show "\<exists>ob. objs d k = Some ob \<and> ow \<in> set (owners c ob)"
      unfolding assms(5) by (auto simp: restrict_map_def)
  next
    assume "\<exists>ob. objs d k = Some ob \<and> ow \<in> set (owners c ob)"
    then obtain ob where ob: "objs d k = Some ob" "ow \<in> set (owners c ob)" by blast
    then have k: "k \<in> Range (rel d)" "objs c k = Some ob"
      unfolding assms(5) by (auto simp: restrict_map_def split: if_splits)
    then have "(ow, k) \<in> rel c" using ob con by auto
    with k(1) assms(6) show "(ow, k) \<in> rel d" by blast
  qed
  then have "consistent d" unfolding consistent_def own by auto
  moreover have "ran (objs d) \<subseteq> S"
    using assms(1,5) by (auto simp: agrees_def ran_def restrict_map_def split: if_splits)
  ultimately show ?thesis using assms(1,2) own by (simp add: agrees_def)
qed

lemma agrees_rel:
  assumes "agrees ck of_key S c"
  shows "(ow, k) \<in> rel c \<longleftrightarrow> (\<exists>ob. objs c k = Some ob \<and> ow \<in> set (owners c ob))"
    and "(ow, k) \<in> rel c \<Longrightarrow> (ow', k) \<in> rel c \<Longrightarrow> ow' = ow"
proof -
  have con: "rel c = {(ow, k). \<exists>ob. objs c k = Some ob \<and> ow \<in> set (owners c ob)}"
    and one: "\<forall>ob. length (owners c ob) \<le> 1"
    using assms by (simp_all add: agrees_def consistent_def)
  show iff: "(ow, k) \<in> rel c \<longleftrightarrow> (\<exists>ob. objs c k = Some ob \<and> ow \<in> set (owners c ob))" for ow k
    by (simp add: con)
  assume "(ow, k) \<in> rel c" and "(ow', k) \<in> rel c"
  then obtain ob where "ow \<in> set (owners c ob)" "ow' \<in> set (owners c ob)"
    unfolding iff by auto
  moreover have "length (owners c ob) \<le> 1" using one by blast
  ultimately show "ow' = ow"
    by (cases "owners c ob") auto
qed

lemma agrees_forget:
  assumes "agrees ck of_key S c"
  shows "agrees ck of_key S (DeleteSubObject c key) \<and> same_config c (DeleteSubObject c key) \<and>
    objs (DeleteSubObject c key) = (objs c)(key := None)"
proof -
  let ?d = "DeleteSubObject c key"
  have inv: "cache_inv ck c" using assms by (simp add: agrees_def)
  from DeleteSubObject_spec [OF inv, of key] have
    d: "cache_inv ck ?d" "same_config c ?d"
      "rel ?d = rel c - (case objs c key of None \<Rightarrow> {} | Some ob \<Rightarrow> set (owners c ob)) \<times> {key}"
      "objs ?d = objs c |` Range (rel ?d)" by blast+
  have r: "rel ?d = {p \<in> rel c. snd p \<noteq> key}"
    using agrees_rel(1) [OF assms] unfolding d(3) by (auto split: option.splits)
  have "agrees ck of_key S ?d"
    by (rule agrees_restricted [OF assms d(1,2) _ d(4)]) (auto simp: r)
  moreover have "objs ?d k = ((objs c)(key := None)) k" for k
  proof -
    have "k \<in> Range (rel ?d) \<longleftrightarrow> k \<noteq> key \<and> k \<in> dom (objs c)"
      using dom_objs [OF inv] by (auto simp: r)
    then show ?thesis unfolding d(4) by (auto simp: restrict_map_def dom_def)
  qed
  ultimately show ?thesis using d(2) by auto
qed

lemma agrees_drop:
  assumes "agrees ck of_key S c"
  shows "agrees ck of_key S (DeleteOwner c ow) \<and> same_config c (DeleteOwner c ow) \<and>
    objs (DeleteOwner c ow) = index_spec ck (owners c) (objs c) (IxDropOwner ow)"
proof -
  let ?d = "DeleteOwner c ow"
  have inv: "cache_inv ck c" using assms by (simp add: agrees_def)
  from DeleteOwner_spec [OF inv, of ow] have
    d: "cache_inv ck ?d" "same_config c ?d" "rel ?d = {p \<in> rel c. fst p \<noteq> ow}"
      "objs ?d = objs c |` Range (rel ?d)" by blast+
  have "agrees ck of_key S ?d"
    by (rule agrees_restricted [OF assms d(1,2) _ d(4)])
      (auto simp: d(3) dest: agrees_rel(2) [OF assms])
  moreover have "objs ?d k = index_spec ck (owners c) (objs c) (IxDropOwner ow) k" for k
  proof (cases "objs c k")
    case None
    then show ?thesis unfolding d(4) by (simp add: restrict_map_def)
  next
    case (Some ob)
    then obtain ow' where ow': "(ow', k) \<in> rel c" using dom_objs [OF inv] by blast
    then have mine: "(x, k) \<in> rel c \<longleftrightarrow> x = ow'" for x
      using agrees_rel(2) [OF assms] by blast
    have "ow \<in> set (owners c ob) \<longleftrightarrow> (ow, k) \<in> rel c"
      using Some agrees_rel(1) [OF assms] by simp
    then have "k \<in> Range (rel ?d) \<longleftrightarrow> ow \<notin> set (owners c ob)"
      by (auto simp: d(3) Range_iff mine)
    with Some show ?thesis unfolding d(4) by (simp add: restrict_map_def)
  qed
  ultimately show ?thesis using d(2) by auto
qed

lemma agrees_step:
  assumes "agrees ck of_key S c" and "set (op_objects oper) \<subseteq> S"
  shows "\<exists>d. index_step (Setup ck) (renewSubObject ck) DeleteSubObject DeleteOwner c oper = Ok d \<and>
    agrees ck of_key S d \<and> same_config c d \<and> objs d = index_spec ck (owners c) (objs c) oper"
proof (cases oper)
  case (IxSetup os)
  with agrees_setup [OF assms(1)] assms(2) show ?thesis by simp
next
  case (IxRenew ob)
  with assms(2) have "ob \<in> S" by simp
  from agrees_renew [OF assms(1) this] IxRenew show ?thesis by auto
next
  case (IxForget k)
  with agrees_forget [OF assms(1)] show ?thesis by simp
next
  case (IxDropOwner ow)
  with agrees_drop [OF assms(1)] show ?thesis by simp
qed

lemma agrees_run:
  assumes "agrees ck of_key S c" and "\<forall>oper\<in>set opers. set (op_objects oper) \<subseteq> S"
  shows "\<exists>d. for_each (index_step (Setup ck) (renewSubObject ck) DeleteSubObject DeleteOwner) c opers = Ok d \<and>
    agrees ck of_key S d \<and> objs d = foldl (index_spec ck (owners c)) (objs c) opers"
proof -
  have "\<exists>d. for_each (index_step (Setup ck) (renewSubObject ck) DeleteSubObject DeleteOwner) c opers = Ok d \<and>
    (agrees ck of_key S d \<and> same_config c d \<and> objs d = foldl (index_spec ck (owners c)) (objs c) opers)"
  proof (rule for_each_rule [where I = "\<lambda>d ys. agrees ck of_key S d \<and> same_config c d \<and>
      objs d = foldl (index_spec ck (owners c)) (objs c) ys"])
    show "agrees ck of_key S c \<and> same_config c c \<and> objs c = foldl (index_spec ck (owners c)) (objs c) []"
      using assms by simp
  next
    fix d ys oper
    assume I: "agrees ck of_key S d \<and> same_config c d \<and> objs d = foldl (index_spec ck (owners c)) (objs c) ys"
      and "oper \<in> set opers"
    then have "set (op_objects oper) \<subseteq> S" and own: "owners d = owners c"
      using assms(2) by (auto simp: same_config_def)
    from agrees_step [OF _ this(1), of ck of_key d] I own
    show "\<exists>d'. index_step (Setup ck) (renewSubObject ck) DeleteSubObject DeleteOwner d oper = Ok d' \<and>
      agrees ck of_key S d' \<and> same_config c d' \<and>
      objs d' = foldl (index_spec ck (owners c)) (objs c) (ys @ [oper])"
      by (auto intro: same_config_trans)
  qed
  then show ?thesis by blast
qed

lemma agrees_lookup:
  assumes "agrees ck of_key S c" and "\<And>xs. set (rng xs) = set xs"
  shows "\<exists>obs. GetByKey rng c ow = Ok obs \<and>
    set obs = {ob. \<exists>k. objs c k = Some ob \<and> ow \<in> set (owners c ob)}"
proof -
  have "cache_inv ck c" using assms(1) by (simp add: agrees_def)
  moreover have "{ob. \<exists>k. (ow, k) \<in> rel c \<and> objs c k = Some ob} =
      {ob. \<exists>k. objs c k = Some ob \<and> ow \<in> set (owners c ob)}"
    unfolding agrees_rel(1) [OF assms(1)] by (rule Collect_cong) fastforce
  ultimately show ?thesis
    using GetByKey_spec [where rng = rng, OF _ assms(2), of ck c ow] by auto
qed

end
