(* ===== verification/Reconcile.thy ===== *)
theory Reconcile
  imports Objects
begin

text \<open>
  The answers of the reconcilers, after \<open>reconcile/status.go\<close> and \<open>reconcile/utils.go\<close>, and what
  the worker makes of them (\<open>controller/worker.go\<close>): the work queue operation that ends the
  handling of one key. Logging is left out.
\<close>

section \<open>Status\<close>

record Status =
  Completed :: bool
  Err :: "go_error option"
  Interval :: duration

definition RSucceeded :: Status where
  "RSucceeded = \<lparr>Completed = True, Err = None, Interval = -1\<rparr>"

definition Repeat :: Status where
  "Repeat = \<lparr>Completed = False, Err = None, Interval = -1\<rparr>"

definition RepeatOnError :: "go_error option \<Rightarrow> Status" where
  "RepeatOnError err = (if err = None then RSucceeded else Repeat)"

definition Delay :: "go_error option \<Rightarrow> Status" where
  "Delay err =
     \<lparr>Completed = True,
      Err = Some (case err of None \<Rightarrow> OtherError ''reconcilation with problem'' | Some e \<Rightarrow> e),
      Interval = -1\<rparr>"

definition DelayOnError :: "go_error option \<Rightarrow> Status" where
  "DelayOnError err = (if err = None then RSucceeded else Delay err)"

definition RFailed :: "go_error option \<Rightarrow> Status" where
  "RFailed err = \<lparr>Completed = False, Err = err, Interval = -1\<rparr>"

definition FailedOnError :: "go_error option \<Rightarrow> Status" where
  "FailedOnError err = (if err = None then RSucceeded else RFailed err)"

definition UpdateStatus :: "go_error option \<Rightarrow> Status" where
  "UpdateStatus err = (if err \<noteq> None \<and> IsConflict err then Repeat else DelayOnError err)"

definition IsSucceeded :: "Status \<Rightarrow> bool" where
  "IsSucceeded this \<longleftrightarrow> Completed this \<and> Err this = None"

definition IsDelayed :: "Status \<Rightarrow> bool" where
  "IsDelayed this \<longleftrightarrow> Completed this \<and> Err this \<noteq> None"

definition IsFailed :: "Status \<Rightarrow> bool" where
  "IsFailed this \<longleftrightarrow> \<not> Completed this \<and> Err this \<noteq> None"

definition MustBeRepeated :: "Status \<Rightarrow> bool" where
  "MustBeRepeated this \<longleftrightarrow> \<not> Completed this \<and> Err this = None"

definition RescheduleAfter :: "duration \<Rightarrow> Status \<Rightarrow> Status" where
  "RescheduleAfter d this = (if Interval this < 0 \<or> d < Interval this then this\<lparr>Interval := d\<rparr> else this)"

definition Stop :: "Status \<Rightarrow> Status" where
  "Stop this = this\<lparr>Interval := 0\<rparr>"

definition StopIfSucceeded :: "Status \<Rightarrow> Status" where
  "StopIfSucceeded this = (if IsSucceeded this then this\<lparr>Interval := 0\<rparr> else this)"

lemmas status_consts = RSucceeded_def Repeat_def RepeatOnError_def Delay_def DelayOnError_def RFailed_def
  FailedOnError_def UpdateStatus_def
lemmas status_preds = IsSucceeded_def IsDelayed_def IsFailed_def MustBeRepeated_def

text \<open>Every status is of exactly one of the four kinds.\<close>

lemma status_kinds:
  "IsSucceeded s \<or> IsDelayed s \<or> IsFailed s \<or> MustBeRepeated s"
  "length (filter id [IsSucceeded s, IsDelayed s, IsFailed s, MustBeRepeated s]) = 1"
  by (cases "Completed s"; cases "Err s"; simp add: status_preds)+

lemma status_of_error:
  "IsSucceeded (DelayOnError err) \<longleftrightarrow> err = None"
  "IsSucceeded (UpdateStatus err) \<longleftrightarrow> err = None"
  "MustBeRepeated (UpdateStatus err) \<longleftrightarrow> IsConflict err"
  "IsDelayed (UpdateStatus err) \<longleftrightarrow> err \<noteq> None \<and> \<not> IsConflict err"
  by (cases err; auto simp: status_consts status_preds)+

lemma IsSucceeded_simps [simp]:
  "IsSucceeded RSucceeded" "\<not> IsSucceeded (Delay err)" "\<not> IsSucceeded Repeat"
  "\<not> IsSucceeded (RFailed err)" "IsSucceeded (RescheduleAfter d s) = IsSucceeded s"
  by (auto simp: status_consts status_preds RescheduleAfter_def)

section \<open>The worker\<close>

datatype queue_op = QAdd | QAddRateLimited | QAddAfter duration | QForget

definition updateSchedule :: "duration \<Rightarrow> duration \<Rightarrow> duration" where
  "updateSchedule reschedule interval =
     (if 0 \<le> interval \<and> (reschedule \<le> 0 \<or> interval < reschedule) then interval else reschedule)"

text \<open>
  One key is handled by every reconciler registered for its kind. The state of the loop: whether
  all statuses were completed, the last error, the schedule asked for and the messages of the
  warnings emitted on the object (\<open>has_obj\<close>: there is an object to emit them on).
\<close>

definition worker_step ::
  "bool \<Rightarrow> bool \<times> go_error option \<times> duration \<times> string list \<Rightarrow> Status \<Rightarrow>
   bool \<times> go_error option \<times> duration \<times> string list" where
  "worker_step has_obj = (\<lambda>(ok, err, reschedule, msgs) status.
     let ok = (if \<not> Completed status then False else ok);
         (err, msgs) = (case Err status of
            None \<Rightarrow> (err, msgs)
          | Some e \<Rightarrow> (Some e, if ok \<and> has_obj then msgs @ [Error e] else msgs))
     in (ok, err, updateSchedule reschedule (Interval status), msgs))"

definition queue_ops ::
  "duration \<Rightarrow> bool \<Rightarrow> bool \<times> go_error option \<times> duration \<times> string list \<Rightarrow> queue_op list" where
  "queue_ops period deleted = (\<lambda>(ok, err, reschedule, _).
     if err \<noteq> None
     then (if ok then [QAddRateLimited] else if 0 < reschedule then [QAddAfter reschedule] else [])
     else if ok
     then (let reschedule =
                 (if (reschedule < 0 \<or> (0 < period \<and> period < reschedule)) \<and> \<not> deleted
                  then period else reschedule)
           in QForget # (if 0 < reschedule then [QAddAfter reschedule] else []))
     else [QAdd])"

definition worker :: "duration \<Rightarrow> bool \<Rightarrow> bool \<Rightarrow> Status list \<Rightarrow> queue_op list" where
  "worker period deleted has_obj statuses =
     queue_ops period deleted (foldl (worker_step has_obj) (True, None, -1, []) statuses)"

definition requeues :: "queue_op list \<Rightarrow> bool" where
  "requeues q \<longleftrightarrow> (\<exists>oper\<in>set q. oper \<noteq> QForget)"

lemma worker_fold:
  "foldl (worker_step has_obj) (ok, err, r, msgs) ss = (ok', err', r', msgs') \<Longrightarrow>
     (ok' \<longleftrightarrow> ok \<and> list_all Completed ss) \<and>
     (err' = None \<longleftrightarrow> err = None \<and> list_all (\<lambda>s. Err s = None) ss)"
proof (induction ss arbitrary: ok err r msgs)
  case (Cons s ss)
  obtain ok1 err1 r1 msgs1 where st: "worker_step has_obj (ok, err, r, msgs) s = (ok1, err1, r1, msgs1)"
    by (metis prod_cases4)
  then have "ok1 \<longleftrightarrow> ok \<and> Completed s" "err1 = None \<longleftrightarrow> err = None \<and> Err s = None"
    by (auto simp: worker_step_def Let_def split: option.splits if_splits)
  with Cons.IH [of ok1 err1 r1 msgs1] Cons.prems st show ?case by auto
qed simp

text \<open>
  When a key is given up by the worker without being queued again: only if some reconciler reported a
  failure that is not to be retried, or if all succeeded. A temporary problem (delayed or to be repeated)
  always leads to another round.
\<close>

lemma worker_retries:
  assumes "\<not> requeues (worker period deleted has_obj statuses)"
  shows "list_all IsSucceeded statuses \<or>
    (\<exists>s\<in>set statuses. \<not> Completed s) \<and> (\<exists>s\<in>set statuses. Err s \<noteq> None)"
proof -
  obtain ok err r msgs where f: "foldl (worker_step has_obj) (True, None, -1, []) statuses = (ok, err, r, msgs)"
    by (metis prod_cases4)
  from worker_fold [OF f] have "ok \<longleftrightarrow> list_all Completed statuses"
    "err = None \<longleftrightarrow> list_all (\<lambda>s. Err s = None) statuses" by simp_all
  moreover have "err = None \<and> ok \<or> err \<noteq> None \<and> \<not> ok"
    using assms f by (auto simp: worker_def queue_ops_def requeues_def split: if_splits)
  ultimately show ?thesis
    by (auto simp: list_all_iff status_preds)
qed

text \<open>
  A reconciler that alone handles a key, succeeds and asks to be called again after a positive
  interval is called again: after that interval, or after the period of the pool when that is
  shorter and the object still exists.
\<close>

lemma worker_reschedules:
  assumes "0 < d"
  shows "worker period deleted has_obj [RescheduleAfter d RSucceeded] =
    [QForget, QAddAfter (if 0 < period \<and> period < d \<and> \<not> deleted then period else d)]"
  using assms
  by (auto simp: worker_def queue_ops_def worker_step_def updateSchedule_def RescheduleAfter_def RSucceeded_def)

end
