(* ===== verification/LbState.thy ===== *)
theory LbState
  imports CacheIndex Reconcile Samples
begin

text \<open>
  The state of the DNS controller (\<open>pkg/dnslb/lb/state.go\<close>): the endpoints of the cluster, indexed
  by the load balancer they name, and the reconciler that keeps it up to date and reports
  endpoints without a load balancer (\<open>pkg/dnslb/lb/state_reconciler.go\<close>, \<open>pkg/dnslb/utils/ep.go\<close>).
  The cluster's object cache is a parameter that answers a key.
\<close>

section \<open>The endpoint cache\<close>

type_synonym State = "DNSLoadBalancerEndpoint SubObjectCache"

definition LoadBalancer :: "DNSLoadBalancerEndpoint \<Rightarrow> ClusterObjectKeySet" where
  "LoadBalancer o' =
     (let set = []; name = LoadBalancerRef (ep_spec o')
      in if name = '''' then set
         else let key = NewClusterKey (m_cluster (ep_meta o')) LoadBalancerGroupKind (m_namespace (ep_meta o')) name
              in Add set [key])"

definition NewState :: State where
  "NewState = NewSubObjectCache LoadBalancer"

definition State_Setup :: "State \<Rightarrow> DNSLoadBalancerEndpoint list \<Rightarrow> State outcome" where
  "State_Setup this list = Setup ep_ClusterKey this list"

definition UpdateEndpoint :: "State \<Rightarrow> DNSLoadBalancerEndpoint \<Rightarrow> State outcome" where
  "UpdateEndpoint this e = bind_outcome (renewSubObject ep_ClusterKey this e) (\<lambda>(c, _). Ok c)"

definition RemoveEndpoint :: "State \<Rightarrow> ClusterObjectKey \<Rightarrow> State" where
  "RemoveEndpoint this key = DeleteSubObject this key"

definition GetEndpointsFor ::
  "(ClusterObjectKey list \<Rightarrow> ClusterObjectKey list) \<Rightarrow> State \<Rightarrow> ClusterObjectKey \<Rightarrow>
   DNSLoadBalancerEndpoint list outcome" where
  "GetEndpointsFor rng this key = GetByKey rng this key"

definition RemoveLoadBalancer :: "State \<Rightarrow> ClusterObjectKey \<Rightarrow> State" where
  "RemoveLoadBalancer this key = DeleteOwner this key"

section \<open>Validation and the state reconciler\<close>

definition GetLoadBalancerRef :: "DNSLoadBalancerEndpoint \<Rightarrow> ClusterObjectKey option" where
  "GetLoadBalancerRef this =
     (let name = LoadBalancerRef (ep_spec this)
      in if name = '''' then None
         else Some (NewClusterKey (m_cluster (ep_meta this))
                \<lparr>gk_group = GroupName, gk_kind = LoadBalancerResourceKind\<rparr> (m_namespace (ep_meta this)) name))"

definition Validate ::
  "(ClusterObjectKey \<Rightarrow> go_error + DNSLoadBalancer) \<Rightarrow> DNSLoadBalancerEndpoint \<Rightarrow> go_error option" where
  "Validate GetCachedObject this =
     (case GetLoadBalancerRef this of
        None \<Rightarrow> Some (OtherError ''no load balancer specified'')
      | Some lbref \<Rightarrow>
          let missing = OtherError (''loadbalancer '' @ quoted (ObjectName_String (ck_name lbref)) @ '' not found'')
          in case GetCachedObject lbref of
               Inl err \<Rightarrow> if IsNotFound (Some err) then Some missing else Some err
             | Inr lb \<Rightarrow> if IsDeleting (lb_meta lb) then Some missing else None)"

text \<open>
  \<open>Reconcile\<close> of the state reconciler. The cache holds the object that is reconciled, so what
  \<open>UpdateState\<close> writes into it shows in the cache, whether the update succeeds or not.
\<close>

definition state_Reconcile ::
  "api \<Rightarrow> (ClusterObjectKey \<Rightarrow> go_error + DNSLoadBalancer) \<Rightarrow> State \<Rightarrow> DNSLoadBalancerEndpoint \<Rightarrow> world \<Rightarrow>
   (State \<times> Status \<times> world) outcome" where
  "state_Reconcile a GetCachedObject this obj w =
     bind_outcome (UpdateEndpoint this obj) (\<lambda>st.
       let (err, ep, w) =
             (case Validate GetCachedObject obj of
                Some err \<Rightarrow> (case ep_UpdateState a obj STATE_INVALID (Error err) None w of
                               (md, err, ep, w) \<Rightarrow> (err, ep, w))
              | None \<Rightarrow>
                  if StringEqual (eps_State (ep_status obj)) STATE_INVALID
                  then (case ep_UpdateState a obj STATE_PENDING '''' None w of (md, err, ep, w) \<Rightarrow> (err, ep, w))
                  else (None, obj, w))
       in Ok (set_object (ep_ClusterKey obj) ep st, UpdateStatus err, w))"

definition state_Deleted :: "State \<Rightarrow> ClusterObjectKey \<Rightarrow> State \<times> Status" where
  "state_Deleted this key = (RemoveEndpoint this key, RSucceeded)"

section \<open>Correctness of the cache\<close>

lemma LoadBalancer_length: "length (LoadBalancer ep) \<le> 1"
  by (simp add: LoadBalancer_def Let_def Add_def keyset_add_def)

lemma LoadBalancer_ref:
  "set (LoadBalancer ep) = (case GetLoadBalancerRef ep of None \<Rightarrow> {} | Some k \<Rightarrow> {k})"
  by (simp add: LoadBalancer_def GetLoadBalancerRef_def Let_def LoadBalancerGroupKind_def)

text \<open>
  The operations the reconcilers of one controller perform on the state, in any order.
\<close>

datatype state_op =
    SetupOp "DNSLoadBalancerEndpoint list"
  | UpdateOp DNSLoadBalancerEndpoint
  | RemoveOp ClusterObjectKey
  | RemoveLBOp ClusterObjectKey

fun state_step :: "State \<Rightarrow> state_op \<Rightarrow> State outcome" where
  "state_step st (SetupOp list) = State_Setup st list"
| "state_step st (UpdateOp e) = UpdateEndpoint st e"
| "state_step st (RemoveOp key) = Ok (RemoveEndpoint st key)"
| "state_step st (RemoveLBOp key) = Ok (RemoveLoadBalancer st key)"

text \<open>What the state is meant to be: a map from the keys of endpoints to endpoints.\<close>

fun state_spec ::
  "(ClusterObjectKey \<rightharpoonup> DNSLoadBalancerEndpoint) \<Rightarrow> state_op \<Rightarrow> (ClusterObjectKey \<rightharpoonup> DNSLoadBalancerEndpoint)" where
  "state_spec m (SetupOp list) =
     foldl (\<lambda>m e. if GetLoadBalancerRef e = None then m else m(ep_ClusterKey e \<mapsto> e)) m list"
| "state_spec m (UpdateOp e) = (if GetLoadBalancerRef e = None then m else m(ep_ClusterKey e \<mapsto> e))"
| "state_spec m (RemoveOp key) = m(key := None)"
| "state_spec m (RemoveLBOp key) =
     (\<lambda>k. case m k of None \<Rightarrow> None | Some e \<Rightarrow> if GetLoadBalancerRef e = Some key then None else Some e)"

fun state_objects :: "state_op \<Rightarrow> DNSLoadBalancerEndpoint list" where
  "state_objects (SetupOp list) = list"
| "state_objects (UpdateOp e) = [e]"
| "state_objects _ = []"

fun to_index_op :: "state_op \<Rightarrow> DNSLoadBalancerEndpoint index_op" where
  "to_index_op (SetupOp list) = IxSetup list"
| "to_index_op (UpdateOp e) = IxRenew e"
| "to_index_op (RemoveOp key) = IxForget key"
| "to_index_op (RemoveLBOp key) = IxDropOwner key"

abbreviation ep_step :: "State \<Rightarrow> DNSLoadBalancerEndpoint index_op \<Rightarrow> State outcome" where
  "ep_step \<equiv> index_step (Setup ep_ClusterKey) (renewSubObject ep_ClusterKey) DeleteSubObject DeleteOwner"

lemma state_step_index: "state_step st oper = ep_step st (to_index_op oper)"
  by (cases oper) (simp_all add: State_Setup_def UpdateEndpoint_def RemoveEndpoint_def RemoveLoadBalancer_def)

lemma for_each_map: "for_each (\<lambda>s x. f s (g x)) s xs = for_each f s (map g xs)"
proof (induction xs arbitrary: s)
  case (Cons x xs)
  then show ?case by (cases "f s (g x)") auto
qed simp

lemma state_run_index: "for_each state_step st opers = for_each ep_step st (map to_index_op opers)"
  using for_each_map [of ep_step to_index_op st opers] by (simp add: state_step_index [abs_def])

lemma LoadBalancer_Nil_iff: "LoadBalancer e = [] \<longleftrightarrow> GetLoadBalancerRef e = None"
  by (simp add: LoadBalancer_def GetLoadBalancerRef_def Let_def Add_def)

lemma state_spec_index:
  "index_spec ep_ClusterKey LoadBalancer m (to_index_op oper) = state_spec m oper"
proof -
  have st: "store ep_ClusterKey LoadBalancer = (\<lambda>m e. if GetLoadBalancerRef e = None then m else m(ep_ClusterKey e \<mapsto> e))"
    by (intro ext) (simp add: store_def LoadBalancer_Nil_iff)
  show ?thesis
    by (cases oper) (auto simp: st LoadBalancer_ref split: option.split intro!: ext)
qed

lemma state_spec_run:
  "foldl (index_spec ep_ClusterKey LoadBalancer) m (map to_index_op opers) = foldl state_spec m opers"
  by (induction opers arbitrary: m) (simp_all add: state_spec_index)

lemma NewState_sel [simp]:
  "owners NewState = LoadBalancer" "filters NewState = []" "objs NewState = Map.empty"
  "cache_inv ep_ClusterKey NewState"
  by (simp_all add: NewState_def cache_inv_new) (simp_all add: NewSubObjectCache_def)

lemma NewState_agrees:
  "\<forall>e\<in>S. LoadBalancer e = of_key (ep_ClusterKey e) \<Longrightarrow> agrees ep_ClusterKey of_key S NewState"
  using LoadBalancer_length
  by (auto simp: agrees_def consistent_def) (auto simp: NewState_def)

lemma op_objects_index [simp]: "op_objects (to_index_op oper) = state_objects oper"
  by (cases oper) simp_all

lemma LoadBalancer_mem: "key \<in> set (LoadBalancer e) \<longleftrightarrow> GetLoadBalancerRef e = Some key"
  by (auto simp: LoadBalancer_ref split: option.splits)

lemma state_run_agrees:
  assumes "\<forall>oper\<in>set opers. \<forall>e\<in>set (state_objects oper). LoadBalancer e = of_key (ep_ClusterKey e)"
  shows "\<exists>st. for_each state_step NewState opers = Ok st \<and>
    agrees ep_ClusterKey of_key {e. LoadBalancer e = of_key (ep_ClusterKey e)} st \<and>
    objs st = foldl state_spec Map.empty opers"
proof -
  let ?S = "{e. LoadBalancer e = of_key (ep_ClusterKey e)}"
  have "set (op_objects (to_index_op oper)) \<subseteq> ?S" if "oper \<in> set opers" for oper
    using that assms by auto
  then have ops: "\<forall>oper\<in>set (map to_index_op opers). set (op_objects oper) \<subseteq> ?S" by auto
  have "agrees ep_ClusterKey of_key ?S NewState"
    by (rule NewState_agrees) simp
  from agrees_run [OF this ops] show ?thesis
    by (simp add: state_run_index state_spec_run)
qed

lemma agrees_owners: "agrees ep_ClusterKey of_key S st \<Longrightarrow> same_config NewState st \<Longrightarrow> owners st = LoadBalancer"
  by (simp add: same_config_def)

lemma state_step_config:
  assumes "cache_inv ep_ClusterKey st" and "state_step st oper = Ok d"
  shows "cache_inv ep_ClusterKey d \<and> same_config st d"
  using assms Setup_step [OF assms(1)] renew_step [OF assms(1)] DeleteSubObject_spec [OF assms(1)]
    DeleteOwner_spec [OF assms(1)]
  by (cases oper) (auto simp: State_Setup_def UpdateEndpoint_def RemoveEndpoint_def RemoveLoadBalancer_def,
      (metis outcome.inject prod.inject)+)

lemma state_run_config:
  "cache_inv ep_ClusterKey st \<Longrightarrow> for_each state_step st opers = Ok d \<Longrightarrow> same_config st d"
proof (induction opers arbitrary: st)
  case (Cons oper opers)
  then obtain st1 where "state_step st oper = Ok st1" "for_each state_step st1 opers = Ok d" by auto
  with Cons state_step_config [of st oper st1] show ?case by (meson same_config_trans)
qed simp

text \<open>
  C5. The state of the DNS controller is the map it is meant to be. Starting from the empty state,
  whatever sequence of setups, endpoint updates, endpoint removals and load balancer removals the
  reconcilers perform, nothing panics, and the endpoints found for a load balancer are exactly
  those the specification maps some key to and that name this load balancer, provided that no
  endpoint changes its load balancer (\<open>of_key\<close>).
\<close>

theorem state_refines_map:
  assumes "\<forall>oper\<in>set opers. \<forall>e\<in>set (state_objects oper). LoadBalancer e = of_key (ep_ClusterKey e)"
    and "\<And>xs. set (rng xs) = set xs"
  shows "\<exists>st. for_each state_step NewState opers = Ok st \<and>
    (\<forall>key. \<exists>eps. GetEndpointsFor rng st key = Ok eps \<and>
       set eps = {e. \<exists>k. foldl state_spec Map.empty opers k = Some e \<and> GetLoadBalancerRef e = Some key})"
proof -
  obtain st where st: "for_each state_step NewState opers = Ok st"
    "agrees ep_ClusterKey of_key {e. LoadBalancer e = of_key (ep_ClusterKey e)} st"
    "objs st = foldl state_spec Map.empty opers"
    using state_run_agrees [OF assms(1)] by blast
  have own: "owners st = LoadBalancer"
    using state_run_config [OF _ st(1)] by (simp add: same_config_def)
  have "\<exists>eps. GetEndpointsFor rng st key = Ok eps \<and>
      set eps = {e. \<exists>k. foldl state_spec Map.empty opers k = Some e \<and> GetLoadBalancerRef e = Some key}" for key
    using agrees_lookup [where rng = rng, OF st(2) assms(2), of key]
    by (simp only: GetEndpointsFor_def own st(3) LoadBalancer_mem)
  with st(1) show ?thesis by blast
qed

text \<open>
  No sequence of operations on the state panics, not even when endpoints change their load
  balancer, and afterwards every lookup succeeds; a load balancer that was removed last has no
  endpoints.
\<close>

theorem state_never_panics:
  assumes "\<And>xs. set (rng xs) = set xs"
  shows "\<exists>st. for_each state_step NewState opers = Ok st \<and>
    (\<forall>key. \<exists>eps. GetEndpointsFor rng st key = Ok eps) \<and>
    (\<forall>key. GetEndpointsFor rng (RemoveLoadBalancer st key) key = Ok [])"
proof -
  obtain st where st: "for_each state_step NewState opers = Ok st" "cache_inv ep_ClusterKey st"
    using ep_cache.run_ok [of NewState "map to_index_op opers"] by (auto simp: state_run_index)
  then show ?thesis
    using ep_cache.lookup_law [where rng = rng, OF st(2) assms]
      ep_cache.lookup_dropped [where rng = rng, OF st(2) assms]
    by (auto simp: GetEndpointsFor_def RemoveLoadBalancer_def) blast
qed

theorem state_refines_map_witness:
  "\<exists>st eps. for_each state_step NewState
      [UpdateOp (sample_ep ''ep1'' ''a''), UpdateOp (sample_ep ''ep2'' ''b''),
       RemoveOp (ep_ClusterKey (sample_ep ''ep1'' ''a''))] = Ok st \<and>
     GetEndpointsFor rev st (lb_ClusterKey sample_lb) = Ok eps \<and> set eps = {sample_ep ''ep2'' ''b''}"
proof -
  let ?opers = "[UpdateOp (sample_ep ''ep1'' ''a''), UpdateOp (sample_ep ''ep2'' ''b''),
    RemoveOp (ep_ClusterKey (sample_ep ''ep1'' ''a''))]"
  have stable: "\<forall>oper\<in>set ?opers. \<forall>e\<in>set (state_objects oper). LoadBalancer e = [lb_ClusterKey sample_lb]"
    by (simp add: LoadBalancer_def sample_defs lb_ClusterKey_def meta_ClusterKey_def Add_def keyset_add_def)
  have rng: "\<And>xs :: ClusterObjectKey list. set (rev xs) = set xs" by simp
  have ref: "GetLoadBalancerRef (sample_ep n c) = Some (lb_ClusterKey sample_lb)" for n c
    by (simp add: GetLoadBalancerRef_def sample_defs lb_ClusterKey_def meta_ClusterKey_def LoadBalancerGroupKind_def)
  have keys: "ep_ClusterKey (sample_ep ''ep2'' ''b'') \<noteq> ep_ClusterKey (sample_ep ''ep1'' ''a'')"
    by (simp add: ep_ClusterKey_def meta_ClusterKey_def NewClusterKey_def NewKey_def NewObjectName2_def sample_defs)
  have "{e. \<exists>k. foldl state_spec Map.empty ?opers k = Some e \<and> GetLoadBalancerRef e = Some (lb_ClusterKey sample_lb)} =
      {sample_ep ''ep2'' ''b''}"
    using keys by (auto simp: ref split: if_splits)
  with state_refines_map [where rng = rev, OF stable rng] show ?thesis by metis
qed

theorem state_never_panics_witness:
  "\<exists>st. for_each state_step NewState [UpdateOp (sample_ep ''ep1'' ''a''), RemoveOp (lb_ClusterKey sample_lb)] = Ok st \<and>
     GetEndpointsFor rev (RemoveLoadBalancer st (lb_ClusterKey sample_lb)) (lb_ClusterKey sample_lb) = Ok []"
  using state_never_panics [of rev "[UpdateOp (sample_ep ''ep1'' ''a''), RemoveOp (lb_ClusterKey sample_lb)]"]
  by fastforce

text \<open>
  C21. An endpoint that changes its load balancer stays with the old one. After any history in
  which the owners of the endpoints were stable, an update of a known endpoint that now names
  another load balancer leaves the new version listed for the old load balancer, and not for the
  new one: the two sets of \<open>DiffFrom\<close> are used the wrong way round.
\<close>

theorem changed_load_balancer_is_lost:
  assumes "\<forall>oper\<in>set opers. \<forall>e\<in>set (state_objects oper). LoadBalancer e = of_key (ep_ClusterKey e)"
    and "foldl state_spec Map.empty opers (ep_ClusterKey new) = Some old"
    and "GetLoadBalancerRef old = Some l1" and "GetLoadBalancerRef new = Some l2" and "l1 \<noteq> l2"
    and "\<And>xs. set (rng xs) = set xs"
  shows "\<exists>st eps1 eps2. for_each state_step NewState (opers @ [UpdateOp new]) = Ok st \<and>
    GetEndpointsFor rng st l1 = Ok eps1 \<and> new \<in> set eps1 \<and>
    GetEndpointsFor rng st l2 = Ok eps2 \<and> new \<notin> set eps2"
proof -
  let ?S = "{e. LoadBalancer e = of_key (ep_ClusterKey e)}"
  obtain st where st: "for_each state_step NewState opers = Ok st"
    "agrees ep_ClusterKey of_key ?S st" "objs st = foldl state_spec Map.empty opers"
    using state_run_agrees [OF assms(1)] by blast
  have own: "owners st = LoadBalancer"
    using state_run_config [OF _ st(1)] by (simp add: same_config_def)
  have inv: "cache_inv ep_ClusterKey st" and flt: "filters st = []"
    using st(2) by (simp_all add: agrees_def)
  have old: "objs st (ep_ClusterKey new) = Some old" using assms(2) st(3) by simp
  have reg: "owners_of st (ep_ClusterKey new) = passing st (owners st old)"
    using agrees_rel(1) [OF st(2)] old by (auto simp: owners_of_def passing_all [OF flt])
  obtain d b where d: "renewSubObject ep_ClusterKey st new = Ok (d, b)" "cache_inv ep_ClusterKey d"
    using renew_step [OF inv] by blast
  note kept = renew_keeps_owners [OF inv old reg d(1)]
  have own_d: "owners_of d (ep_ClusterKey new) = {l1}"
    using kept(1) reg assms(3) by (simp add: passing_all [OF flt] own LoadBalancer_ref)
  have rel_d: "(l, ep_ClusterKey new) \<in> rel d \<longleftrightarrow> l = l1" for l
    using own_d by (auto simp: owners_of_def)
  have hold: "k = ep_ClusterKey new" if "objs d k = Some new" for k
    using objs_key [OF d(2) that] by simp
  have "for_each state_step NewState (opers @ [UpdateOp new]) = Ok d"
    using d(1) st(1) by (simp add: for_each_append UpdateEndpoint_def)
  moreover obtain eps1 where "GetEndpointsFor rng d l1 = Ok eps1" "new \<in> set eps1"
    using GetByKey_spec [where rng = rng, OF d(2) assms(6), of l1] kept(2) rel_d
    by (auto simp: GetEndpointsFor_def)
  moreover have "\<not> (\<exists>k. (l2, k) \<in> rel d \<and> objs d k = Some new)"
    using rel_d assms(5) hold by metis
  then obtain eps2 where "GetEndpointsFor rng d l2 = Ok eps2" "new \<notin> set eps2"
    using GetByKey_spec [where rng = rng, OF d(2) assms(6), of l2]
    by (auto simp: GetEndpointsFor_def)
  ultimately show ?thesis by blast
qed

theorem changed_load_balancer_is_lost_witness:
  "\<exists>st eps1 eps2. for_each state_step NewState
      ([UpdateOp (sample_ep ''ep1'' ''a'')] @
       [UpdateOp (sample_ep ''ep1'' ''a''\<lparr>ep_spec := \<lparr>LoadBalancerRef = ''lb2'', IPAddress = '''', CName = ''a''\<rparr>\<rparr>)]) = Ok st \<and>
     GetEndpointsFor rev st (lb_ClusterKey sample_lb) = Ok eps1 \<and> eps1 \<noteq> [] \<and>
     GetEndpointsFor rev st (lb_ClusterKey (sample_lb\<lparr>lb_meta := sample_meta ''lb2''\<rparr>)) = Ok eps2 \<and>
     sample_ep ''ep1'' ''a''\<lparr>ep_spec := \<lparr>LoadBalancerRef = ''lb2'', IPAddress = '''', CName = ''a''\<rparr>\<rparr> \<notin> set eps2"
proof -
  let ?old = "sample_ep ''ep1'' ''a''"
  let ?new = "?old\<lparr>ep_spec := \<lparr>LoadBalancerRef = ''lb2'', IPAddress = '''', CName = ''a''\<rparr>\<rparr>"
  have key: "ep_ClusterKey ?new = ep_ClusterKey ?old" by (simp add: ep_ClusterKey_def)
  have l1: "GetLoadBalancerRef ?old = Some (lb_ClusterKey sample_lb)"
    by (simp add: GetLoadBalancerRef_def sample_defs lb_ClusterKey_def meta_ClusterKey_def LoadBalancerGroupKind_def)
  have l2: "GetLoadBalancerRef ?new = Some (lb_ClusterKey (sample_lb\<lparr>lb_meta := sample_meta ''lb2''\<rparr>))"
    by (simp add: GetLoadBalancerRef_def sample_defs lb_ClusterKey_def meta_ClusterKey_def LoadBalancerGroupKind_def)
  have ne: "lb_ClusterKey sample_lb \<noteq> lb_ClusterKey (sample_lb\<lparr>lb_meta := sample_meta ''lb2''\<rparr>)"
    by (simp add: sample_defs lb_ClusterKey_def meta_ClusterKey_def NewClusterKey_def NewKey_def NewObjectName2_def)
  have stable: "\<forall>oper\<in>set [UpdateOp ?old]. \<forall>e\<in>set (state_objects oper). LoadBalancer e = LoadBalancer ?old"
    by simp
  have known: "foldl state_spec Map.empty [UpdateOp ?old] (ep_ClusterKey ?new) = Some ?old"
    unfolding key by (simp add: l1)
  have rng: "\<And>xs :: ClusterObjectKey list. set (rev xs) = set xs" by simp
  from changed_load_balancer_is_lost [where rng = rev, OF stable known l1 l2 ne rng]
  show ?thesis by fastforce
qed

section \<open>Correctness of the reconciler\<close>

text \<open>
  What reconciling an endpoint writes: an endpoint without a usable load balancer is put into the
  state Invalid, with the reason as its message; one that is valid again leaves Invalid for
  Pending; nothing is written when the status is right already.
\<close>

definition validation_effects ::
  "(ClusterObjectKey \<Rightarrow> go_error + DNSLoadBalancer) \<Rightarrow> DNSLoadBalancerEndpoint \<Rightarrow> trace" where
  "validation_effects GetCachedObject ep =
     (case Validate GetCachedObject ep of
        Some err \<Rightarrow>
          if eps_State (ep_status ep) = Some STATE_INVALID \<and>
             eps_Message (ep_status ep) = (if Error err = '''' then None else Some (Error err)) then []
          else [UpdateEP (ep_target ep STATE_INVALID (Error err) None)]
      | None \<Rightarrow>
          if eps_State (ep_status ep) = Some STATE_INVALID
          then [UpdateEP (ep_target ep STATE_PENDING '''' None)] else [])"

text \<open>The server answers an update with the same object, by its identity.\<close>

definition identity_kept :: "api \<Rightarrow> bool" where
  "identity_kept a \<longleftrightarrow>
     (\<forall>t ep r. api_updateEP a t ep = Inr r \<longrightarrow> ep_ClusterKey r = ep_ClusterKey ep)"

lemma ep_target_id:
  "ep_target ep state msg None = ep \<longleftrightarrow>
     eps_State (ep_status ep) = Some state \<and> eps_Message (ep_status ep) = (if msg = '''' then None else Some msg)"
  by (cases ep; cases "ep_status ep") (auto simp: ep_target_def)

lemma ep_UpdateState_key:
  assumes "identity_kept a" and "ep_UpdateState a ep state msg healthy w = (md, err, ep', w')"
  shows "ep_ClusterKey ep' = ep_ClusterKey ep"
proof -
  have t: "ep_ClusterKey (ep_target ep state msg healthy) = ep_ClusterKey ep"
    by (simp add: ep_ClusterKey_def)
  with assms show ?thesis
    by (auto simp: ep_UpdateState_def ep_with_state_eq ep_Update_def Let_def identity_kept_def
        split: sum.splits prod.splits bool.splits)
qed

text \<open>
  Reconciling an endpoint never panics and keeps the cache well formed, whatever the API
  server answers; it writes exactly the change of state the validation calls for.
\<close>

theorem state_reconcile_effects:
  assumes "cache_inv ep_ClusterKey st" and "identity_kept a"
  shows "\<exists>st' s w'. state_Reconcile a GetCachedObject st ep w = Ok (st', s, w') \<and>
    cache_inv ep_ClusterKey st' \<and> w_trace w' = w_trace w @ validation_effects GetCachedObject ep"
proof -
  obtain d b where d: "renewSubObject ep_ClusterKey st ep = Ok (d, b)" "cache_inv ep_ClusterKey d"
    using renew_step [OF assms(1)] by blast
  have inv: "cache_inv ep_ClusterKey (set_object (ep_ClusterKey ep) ep' d)"
    if "ep_ClusterKey ep' = ep_ClusterKey ep" for ep'
    using set_object_step [OF d(2) that] by blast
  show ?thesis
  proof (cases "Validate GetCachedObject ep")
    case None
    obtain md err ep' w' where u: "ep_UpdateState a ep STATE_PENDING '''' None w = (md, err, ep', w')"
      by (metis prod_cases4)
    show ?thesis
    proof (cases "eps_State (ep_status ep) = Some STATE_INVALID")
      case True
      then have "ep_target ep STATE_PENDING '''' None \<noteq> ep" by (simp add: ep_target_id)
      then have "w_trace w' = w_trace w @ [UpdateEP (ep_target ep STATE_PENDING '''' None)]"
        using ep_UpdateState_worldD [OF u] by simp
      with True None d u inv [OF ep_UpdateState_key [OF assms(2) u]] show ?thesis
        by (simp add: state_Reconcile_def UpdateEndpoint_def validation_effects_def StringEqual_def Let_def)
    next
      case False
      then have "\<not> StringEqual (eps_State (ep_status ep)) STATE_INVALID"
        by (auto simp: StringEqual_def split: option.splits)
      with False None d inv [OF refl] show ?thesis
        by (simp add: state_Reconcile_def UpdateEndpoint_def validation_effects_def Let_def)
    qed
  next
    case (Some e)
    obtain md err ep' w' where u: "ep_UpdateState a ep STATE_INVALID (Error e) None w = (md, err, ep', w')"
      by (metis prod_cases4)
    have "w_trace w' = w_trace w @ validation_effects GetCachedObject ep"
      using ep_UpdateState_worldD [OF u] Some by (simp add: validation_effects_def ep_target_id)
    with Some d u inv [OF ep_UpdateState_key [OF assms(2) u]] show ?thesis
      by (simp add: state_Reconcile_def UpdateEndpoint_def Let_def)
  qed
qed

theorem state_reconcile_effects_witness:
  "\<exists>st' s w'. state_Reconcile sample_api (\<lambda>_. Inl (NotFoundError ''no'')) NewState (sample_ep ''ep1'' ''a'') init_world =
     Ok (st', s, w') \<and> length (w_trace w') = 1"
proof -
  have "identity_kept sample_api" by (simp add: identity_kept_def sample_api_def)
  moreover have "length (validation_effects (\<lambda>_. Inl (NotFoundError ''no'')) (sample_ep ''ep1'' ''a'')) = 1"
    by (simp add: validation_effects_def Validate_def GetLoadBalancerRef_def sample_defs)
  ultimately show ?thesis
    using state_reconcile_effects [of NewState sample_api "\<lambda>_. Inl (NotFoundError ''no'')" "sample_ep ''ep1'' ''a''" init_world]
    by (auto simp: init_world_def)
qed

end
