(* ===== verification/DnsSource.thy ===== *)
theory DnsSource
  imports LbState HandleProps
begin

text \<open>
  The DNS source for load balancers, after \<open>pkg/dnslb/lb/dns_source.go\<close>: it answers the DNS
  source controller with the names and targets to publish for a load balancer, removes outdated
  endpoints, and forgets load balancers that are gone. \<open>ParseIP\<close> is \<open>net.ParseIP\<close> (the empty
  list for nil), \<open>now\<close> the instant read from the clock.
\<close>

section \<open>The source\<close>

record DNSLBSource =
  dls_state :: State
  dls_started :: time
  dls_nxdomain :: IP

datatype log_level = Warn_level | Info_level

definition NewDNSLBSource :: "(string \<Rightarrow> IP) \<Rightarrow> string \<Rightarrow> State \<Rightarrow> time \<Rightarrow> DNSLBSource \<times> log_level list" where
  "NewDNSLBSource ParseIP val st zero_time =
     (let (ip, log) =
            (if val \<noteq> ''''
             then (let ip = ParseIP val in (ip, [if ip \<noteq> [] then Warn_level else Info_level]))
             else ([], []))
      in (\<lparr>dls_state = st, dls_started = zero_time, dls_nxdomain = ip\<rparr>, log))"

definition dls_Setup :: "DNSLBSource \<Rightarrow> DNSLoadBalancerEndpoint list \<Rightarrow> DNSLBSource outcome" where
  "dls_Setup this list =
     bind_outcome (State_Setup (dls_state this) list) (\<lambda>st. Ok (this\<lparr>dls_state := st\<rparr>))"

definition dls_Start :: "time \<Rightarrow> DNSLBSource \<Rightarrow> DNSLBSource" where
  "dls_Start now this = this\<lparr>dls_started := now\<rparr>"

section \<open>Targets\<close>

definition handleCleanup ::
  "api \<Rightarrow> DNSLoadBalancerEndpoint \<Rightarrow> Watch option \<Rightarrow> time \<Rightarrow> world \<Rightarrow> bool \<times> world" where
  "handleCleanup a e w threshold wd =
     (let del = (case eps_ValidUntil (ep_status e) of
                   Some v \<Rightarrow> v < threshold
                 | None \<Rightarrow> w = None)
      in if del
         then let wd = snd (ep_Delete a e wd);
                  wd = (case w of
                          None \<Rightarrow> wd
                        | Some watch \<Rightarrow> lb_Event (wt_DNSLB watch) EventTypeNormal ''sync''
                            (''dns load balancer endpoint '' @ m_namespace (ep_meta e) @ ''/'' @
                             m_name (ep_meta e) @ '' deleted'') wd)
              in (True, wd)
         else (False, wd))"

definition target_of :: "DNSLoadBalancerEndpoint \<Rightarrow> Target" where
  "target_of e = \<lparr>t_Name = CName (ep_spec e), t_IPAddress = IPAddress (ep_spec e), t_DNSEP = Some e\<rparr>"

definition collect_step ::
  "api \<Rightarrow> DNSLBSource \<Rightarrow> time \<Rightarrow> Watch \<times> world \<Rightarrow> DNSLoadBalancerEndpoint \<Rightarrow> Watch \<times> world" where
  "collect_step a this now = (\<lambda>(w, wd) e.
     let t = target_of e
     in if IsValid t
        then (if now < dls_started this + 3 * Minute
              then (w\<lparr>wt_Targets := wt_Targets w @ [t]\<rparr>, wd)
              else (case handleCleanup a e (Some w) now wd of
                      (True, wd) \<Rightarrow> (w, wd)
                    | (False, wd) \<Rightarrow> (w\<lparr>wt_Targets := wt_Targets w @ [t]\<rparr>, wd)))
        else (w, wd))"

definition GetTargets ::
  "api \<Rightarrow> net \<Rightarrow> bool \<Rightarrow> (ClusterObjectKey list \<Rightarrow> ClusterObjectKey list) \<Rightarrow> time \<Rightarrow> DNSLBSource \<Rightarrow>
   DNSLoadBalancer \<Rightarrow> DNSCurrentState \<Rightarrow> world \<Rightarrow>
   ((go_error + StringSet \<times> DNSDone option) \<times> world) outcome" where
  "GetTargets a net debug rng now this lb current wd =
     (case NewWatch a lb current (dls_nxdomain this) wd of
        (Inl err, wd) \<Rightarrow> Ok (Inl err, wd)
      | (Inr w, wd) \<Rightarrow>
          bind_outcome (GetEndpointsFor rng (dls_state this) (lb_ClusterKey lb)) (\<lambda>eps.
            let (w, wd) = foldl (collect_step a this now) (w, wd) eps
            in bind_outcome (Handle a net debug w wd) (\<lambda>(hosts, dn, _, wd). Ok (Inr (hosts, dn), wd))))"

record DNSInfo =
  di_Names :: StringSet
  di_TTL :: "int option"
  di_Interval :: "int option"
  di_Targets :: StringSet
  di_Feedback :: "DNSDone option"

definition GetDNSInfo ::
  "api \<Rightarrow> net \<Rightarrow> bool \<Rightarrow> (ClusterObjectKey list \<Rightarrow> ClusterObjectKey list) \<Rightarrow> time \<Rightarrow> DNSLBSource \<Rightarrow>
   DNSLoadBalancer \<Rightarrow> DNSCurrentState \<Rightarrow> world \<Rightarrow> ((go_error + DNSInfo) \<times> world) outcome" where
  "GetDNSInfo a net debug rng now this lb current wd =
     (if DNSName (lb_spec lb) = ''''
      then Ok (Inl (OtherError ''no dns name specified''),
               snd (snd (snd (lb_UpdateState a lb STATE_ERROR ''no dns name specified'' wd))))
      else bind_outcome (GetTargets a net debug rng now this lb current wd) (\<lambda>(r, wd).
        case r of
          Inl err \<Rightarrow> Ok (Inl err, wd)
        | Inr (targets, dn) \<Rightarrow>
            Ok (Inr \<lparr>di_Names = NewStringSet [DNSName (lb_spec lb)], di_TTL = TTL (lb_spec lb), di_Interval = None,
                     di_Targets = targets, di_Feedback = dn\<rparr>, wd)))"

definition dls_Deleted ::
  "(ClusterObjectKey list \<Rightarrow> ClusterObjectKey list) \<Rightarrow> ClusterObjectKey \<Rightarrow> DNSLBSource \<Rightarrow> world \<Rightarrow>
   (DNSLBSource \<times> world) outcome" where
  "dls_Deleted rng key this wd =
     bind_outcome (GetEndpointsFor rng (dls_state this) key) (\<lambda>eps.
       Ok (this\<lparr>dls_state := RemoveLoadBalancer (dls_state this) key\<rparr>,
           foldl (\<lambda>wd e. emit (EnqueueKey (ep_ClusterKey e)) wd) wd eps))"

section \<open>The targets that are collected\<close>

text \<open>An endpoint is outdated when its validity has passed, after three minutes of grace.\<close>

definition outdated :: "DNSLBSource \<Rightarrow> time \<Rightarrow> DNSLoadBalancerEndpoint \<Rightarrow> bool" where
  "outdated this now e \<longleftrightarrow> dls_started this + 3 * Minute \<le> now \<and>
     (\<exists>v. eps_ValidUntil (ep_status e) = Some v \<and> v < now)"

definition live :: "DNSLBSource \<Rightarrow> time \<Rightarrow> DNSLoadBalancerEndpoint \<Rightarrow> bool" where
  "live this now e \<longleftrightarrow> IsValid (target_of e) \<and> \<not> outdated this now e"

definition cleanup_effects :: "DNSLBSource \<Rightarrow> time \<Rightarrow> DNSLoadBalancer \<Rightarrow> DNSLoadBalancerEndpoint \<Rightarrow> trace" where
  "cleanup_effects this now lb e =
     (if IsValid (target_of e) \<and> outdated this now e
      then [DeleteEP (ep_ClusterKey e),
            EventOn (lb_ClusterKey lb) EventTypeNormal ''sync''
              (''dns load balancer endpoint '' @ m_namespace (ep_meta e) @ ''/'' @ m_name (ep_meta e) @ '' deleted'')]
      else [])"

lemma collect_step_eq:
  "\<exists>wd'. collect_step a this now (w, wd) e =
     (w\<lparr>wt_Targets := wt_Targets w @ (if live this now e then [target_of e] else [])\<rparr>, wd') \<and>
     w_trace wd' = w_trace wd @ cleanup_effects this now (wt_DNSLB w) e"
  by (auto simp: collect_step_def handleCleanup_def live_def outdated_def cleanup_effects_def Let_def
      ep_Delete_def lb_Event_def split: option.splits)

lemma collect_eq:
  "\<exists>wd'. foldl (collect_step a this now) (w, wd) eps =
     (w\<lparr>wt_Targets := wt_Targets w @ map target_of (filter (live this now) eps)\<rparr>, wd') \<and>
     w_trace wd' = w_trace wd @ concat (map (cleanup_effects this now (wt_DNSLB w)) eps)"
proof (induction eps arbitrary: w wd)
  case (Cons e eps)
  let ?w = "w\<lparr>wt_Targets := wt_Targets w @ (if live this now e then [target_of e] else [])\<rparr>"
  obtain wd1 where s: "collect_step a this now (w, wd) e = (?w, wd1)"
    "w_trace wd1 = w_trace wd @ cleanup_effects this now (wt_DNSLB w) e"
    using collect_step_eq by blast
  obtain wd2 where r: "foldl (collect_step a this now) (?w, wd1) eps =
      (?w\<lparr>wt_Targets := wt_Targets ?w @ map target_of (filter (live this now) eps)\<rparr>, wd2)"
    "w_trace wd2 = w_trace wd1 @ concat (map (cleanup_effects this now (wt_DNSLB ?w)) eps)"
    using Cons.IH [of ?w wd1] by blast
  with s show ?case by simp
qed simp

section \<open>The type of a load balancer\<close>

definition type_of :: "DNSLoadBalancer \<Rightarrow> bool option" where
  "type_of lb =
     (let spec = lb_spec lb
      in if Singleton spec \<noteq> None \<and> Type spec \<noteq> '''' then None
         else if Type spec = LBTYPE_EXCLUSIVE then Some True
         else if Type spec = LBTYPE_BALANCED then Some False
         else if Type spec = '''' then Some (Singleton spec = Some True)
         else None)"

definition migrated :: "DNSLoadBalancer \<Rightarrow> DNSLoadBalancer" where
  "migrated lb =
     (if Type (lb_spec lb) \<noteq> '''' then lb
      else lb\<lparr>lb_spec := (lb_spec lb)\<lparr>
             Type := (if Singleton (lb_spec lb) = Some True then LBTYPE_EXCLUSIVE else LBTYPE_BALANCED),
             Singleton := None\<rparr>\<rparr>)"

definition type_error :: "DNSLoadBalancer \<Rightarrow> string" where
  "type_error lb =
     (if Singleton (lb_spec lb) \<noteq> None then ''invalid load balancer type: singleton and type specified''
      else ''invalid load balancer type'')"

text \<open>
  The mode of a load balancer is decided by its type, or by the older field \<open>singleton\<close> when
  it has no type; both together, or an unknown type, are an error that is reported in its status.
  A load balancer without a type gets the type that says the same, and deciding the mode of the
  result gives the same answer and writes nothing.
\<close>

theorem singleton_mode:
  "fst (IsSingleton a lb w) =
     (case type_of lb of Some b \<Rightarrow> Inr b | None \<Rightarrow> Inl (OtherError (type_error lb))) \<and>
   w_trace (snd (IsSingleton a lb w)) = w_trace w @
     (case type_of lb of
        Some _ \<Rightarrow> if Type (lb_spec lb) = '''' then [UpdateLB (migrated lb)] else []
      | None \<Rightarrow> if lb_error lb (type_error lb) = lb then [] else [UpdateLB (lb_error lb (type_error lb))]) \<and>
   type_of (migrated lb) = type_of lb \<and>
   (type_of lb \<noteq> None \<longrightarrow> IsSingleton a (migrated lb) w = (Inr (the (type_of lb)), w))"
proof -
  have fields: "fst (IsSingleton a lb w) =
     (case type_of lb of Some b \<Rightarrow> Inr b | None \<Rightarrow> Inl (OtherError (type_error lb)))"
    by (cases "Singleton (lb_spec lb)")
      (auto simp: IsSingleton_def type_of_def type_error_def Let_def split: option.splits)
  have trace: "w_trace (snd (IsSingleton a lb w)) = w_trace w @
     (case type_of lb of
        Some _ \<Rightarrow> if Type (lb_spec lb) = '''' then [UpdateLB (migrated lb)] else []
      | None \<Rightarrow> if lb_error lb (type_error lb) = lb then [] else [UpdateLB (lb_error lb (type_error lb))])"
    by (cases "Singleton (lb_spec lb)")
      (auto simp: IsSingleton_def type_of_def type_error_def migrated_def lb_UpdateState_world Let_def)
  have mig: "type_of (migrated lb) = type_of lb"
    by (cases "Singleton (lb_spec lb)") (auto simp: type_of_def migrated_def Let_def)
  have again: "IsSingleton a (migrated lb) w = (Inr b, w)" if "type_of lb = Some b" for b
    using that by (cases "Singleton (lb_spec lb)")
      (auto simp: IsSingleton_def type_of_def migrated_def Let_def split: if_splits)
  from fields trace mig again show ?thesis by auto
qed

theorem singleton_mode_witness:
  "fst (IsSingleton sample_api sample_lb init_world) = Inr True \<and>
   IsSingleton sample_api (migrated sample_lb) init_world = (Inr True, init_world)"
  using singleton_mode [of sample_api sample_lb init_world]
  by (simp add: type_of_def sample_lb_def split: option.splits)

section \<open>What is published for a load balancer\<close>

definition watch_for :: "DNSLBSource \<Rightarrow> DNSLoadBalancer \<Rightarrow> DNSCurrentState \<Rightarrow> bool \<Rightarrow> Target list \<Rightarrow> Watch" where
  "watch_for this lb current singleton targets =
     \<lparr>wt_nxdomain = dls_nxdomain this, wt_dnsname = DNSName (lb_spec lb), wt_HealthPath = HealthPath (lb_spec lb),
      wt_StatusCode = StatusCode (lb_spec lb), wt_Targets = targets, wt_Singleton = singleton,
      wt_DNSLB = lb, wt_current = current, wt_updated = []\<rparr>"

lemma NewWatch_eq:
  "NewWatch a lb current (dls_nxdomain this) wd =
     (case type_of lb of
        Some b \<Rightarrow> Inr (watch_for this lb current b [])
      | None \<Rightarrow> Inl (OtherError (type_error lb)), snd (IsSingleton a lb wd))"
proof -
  have "fst (IsSingleton a lb wd) =
      (case type_of lb of Some b \<Rightarrow> Inr b | None \<Rightarrow> Inl (OtherError (type_error lb)))"
    by (cases "Singleton (lb_spec lb)")
      (auto simp: IsSingleton_def type_of_def type_error_def Let_def split: option.splits)
  then show ?thesis
    by (cases "IsSingleton a lb wd"; cases "type_of lb") (auto simp: NewWatch_def watch_for_def Let_def)
qed

lemma IsSingleton_trace:
  "\<exists>t. w_trace (snd (IsSingleton a lb wd)) = w_trace wd @ t \<and> (\<forall>k. DeleteEP k \<notin> set t)"
  by (cases "Singleton (lb_spec lb)") (auto simp: IsSingleton_def lb_UpdateState_world Let_def)

lemma Handle_trace:
  assumes "Handle a net debug w wd = Ok (hosts, d, w', wd')"
  shows "\<exists>t. w_trace wd' = w_trace wd @ t \<and> (\<forall>k. DeleteEP k \<notin> set t)"
  using handle_trace_cases [OF assms] by (auto simp: lb_effects_def)

text \<open>
  The run of \<open>GetTargets\<close> for a load balancer of a valid type whose endpoints are found: the
  watch that is handled holds the live endpoints, in the order they were found.
\<close>

lemma GetTargets_eq:
  assumes "type_of lb = Some b" and "GetEndpointsFor rng (dls_state this) (lb_ClusterKey lb) = Ok eps"
  shows "\<exists>wd1. GetTargets a net debug rng now this lb current wd =
      bind_outcome (Handle a net debug
        (watch_for this lb current b (map target_of (filter (live this now) eps))) wd1)
        (\<lambda>(hosts, dn, _, wd). Ok (Inr (hosts, dn), wd)) \<and>
    (\<exists>t. w_trace wd1 = w_trace wd @ t @ concat (map (cleanup_effects this now lb) eps) \<and>
       (\<forall>k. DeleteEP k \<notin> set t))"
proof -
  let ?wd0 = "snd (IsSingleton a lb wd)" and ?w0 = "watch_for this lb current b []"
  obtain wd1 where c: "foldl (collect_step a this now) (?w0, ?wd0) eps =
      (?w0\<lparr>wt_Targets := wt_Targets ?w0 @ map target_of (filter (live this now) eps)\<rparr>, wd1)"
    "w_trace wd1 = w_trace ?wd0 @ concat (map (cleanup_effects this now (wt_DNSLB ?w0)) eps)"
    using collect_eq by blast
  obtain t where t: "w_trace ?wd0 = w_trace wd @ t" "\<forall>k. DeleteEP k \<notin> set t"
    using IsSingleton_trace by blast
  have "GetTargets a net debug rng now this lb current wd =
      bind_outcome (Handle a net debug
        (watch_for this lb current b (map target_of (filter (live this now) eps))) wd1)
        (\<lambda>(hosts, dn, _, wd). Ok (Inr (hosts, dn), wd))"
    using assms c(1) by (simp add: GetTargets_def NewWatch_eq watch_for_def)
  moreover have "w_trace wd1 = w_trace wd @ t @ concat (map (cleanup_effects this now lb) eps)"
    using c(2) t(1) by (simp add: watch_for_def)
  ultimately show ?thesis using t(2) by blast
qed

lemma GetDNSInfo_run:
  assumes "GetDNSInfo a net debug rng now this lb current wd = Ok (Inr info, wd')"
  obtains b eps wd1 w' t where "type_of lb = Some b"
    "GetEndpointsFor rng (dls_state this) (lb_ClusterKey lb) = Ok eps"
    "Handle a net debug (watch_for this lb current b (map target_of (filter (live this now) eps))) wd1 =
       Ok (di_Targets info, di_Feedback info, w', wd')"
    "w_trace wd1 = w_trace wd @ t @ concat (map (cleanup_effects this now lb) eps)"
    "\<forall>k. DeleteEP k \<notin> set t"
    "di_Names info = [DNSName (lb_spec lb)]" "DNSName (lb_spec lb) \<noteq> ''''"
proof -
  have name: "DNSName (lb_spec lb) \<noteq> ''''"
    using assms by (auto simp: GetDNSInfo_def)
  with assms obtain r wd2 where g: "GetTargets a net debug rng now this lb current wd = Ok (r, wd2)"
    and c: "(case r of Inl err \<Rightarrow> Ok (Inl err, wd2)
      | Inr (targets, dn) \<Rightarrow> Ok (Inr \<lparr>di_Names = NewStringSet [DNSName (lb_spec lb)], di_TTL = TTL (lb_spec lb), di_Interval = None,
          di_Targets = targets, di_Feedback = dn\<rparr>, wd2)) = Ok (Inr info, wd')"
    by (auto simp: GetDNSInfo_def)
  then obtain targets dn where "r = Inr (targets, dn)"
    by (cases r) auto
  with g c have gt: "GetTargets a net debug rng now this lb current wd = Ok (Inr (targets, dn), wd')"
    and info: "di_Names info = NewStringSet [DNSName (lb_spec lb)]" "di_Targets info = targets" "di_Feedback info = dn"
    by auto
  from gt obtain b where b: "type_of lb = Some b"
    by (cases "type_of lb") (auto simp: GetTargets_def NewWatch_eq)
  from gt b obtain eps where eps: "GetEndpointsFor rng (dls_state this) (lb_ClusterKey lb) = Ok eps"
    by (auto simp: GetTargets_def NewWatch_eq)
  obtain wd1 t where r: "GetTargets a net debug rng now this lb current wd =
      bind_outcome (Handle a net debug
        (watch_for this lb current b (map target_of (filter (live this now) eps))) wd1)
        (\<lambda>(hosts, dn, _, wd). Ok (Inr (hosts, dn), wd))"
    "w_trace wd1 = w_trace wd @ t @ concat (map (cleanup_effects this now lb) eps)"
    "\<forall>k. DeleteEP k \<notin> set t"
    using GetTargets_eq [where a = a and net = net and debug = debug and now = now and
        current = current and wd = wd, OF b eps]
    by (elim exE conjE) (rule that)
  from gt r(1) obtain w' where "Handle a net debug
      (watch_for this lb current b (map target_of (filter (live this now) eps))) wd1 = Ok (targets, dn, w', wd')"
    by auto
  with that [OF b eps _ r(2,3)] info name show thesis
    by (auto simp: NewStringSet_def Add_def keyset_add_def)
qed

text \<open>
  Everything that is published for a load balancer is justified: the only name is the name of
  the load balancer, and every target is the host of an endpoint the state holds for this load
  balancer, that has a host, is not outdated, and answered its health check with the status code
  the load balancer asks for. In exclusive mode there is at most one target.
\<close>

lemma published_targets_justified:
  assumes "GetDNSInfo a net debug rng now this lb current wd = Ok (Inr info, wd')"
  shows "di_Names info = [DNSName (lb_spec lb)] \<and>
    (type_of lb = Some True \<longrightarrow> length (di_Targets info) \<le> 1) \<and>
    (\<exists>eps. GetEndpointsFor rng (dls_state this) (lb_ClusterKey lb) = Ok eps \<and>
      (\<forall>host\<in>set (di_Targets info). \<exists>e\<in>set eps. host = GetHostName (target_of e) \<and> host \<noteq> '''' \<and>
         \<not> outdated this now e \<and>
         (\<exists>n. net_Do net n (''https://'' @ host @ HealthPath (lb_spec lb)) (Some (DNSName (lb_spec lb))) =
            Some (if StatusCode (lb_spec lb) = 0 then 200 else StatusCode (lb_spec lb)))))"
proof -
  obtain b eps wd1 w' t where r: "type_of lb = Some b"
    "GetEndpointsFor rng (dls_state this) (lb_ClusterKey lb) = Ok eps"
    "Handle a net debug (watch_for this lb current b (map target_of (filter (live this now) eps))) wd1 =
       Ok (di_Targets info, di_Feedback info, w', wd')"
    "w_trace wd1 = w_trace wd @ t @ concat (map (cleanup_effects this now lb) eps)"
    "\<forall>k. DeleteEP k \<notin> set t"
    "di_Names info = [DNSName (lb_spec lb)]" "DNSName (lb_spec lb) \<noteq> ''''"
    by (rule GetDNSInfo_run [OF assms]) (rule that)
  let ?w = "watch_for this lb current b (map target_of (filter (live this now) eps))"
  have hosts: "di_Targets info = [] \<or> di_Targets info = published net ?w"
    using Handle_hosts [OF r(3)] .
  have one: "length (di_Targets info) \<le> 1" if "type_of lb = Some True"
  proof -
    have "wt_Singleton ?w" using that r(1) by (simp add: watch_for_def)
    from length_chosen [OF this, of net] hosts show ?thesis
      using length_NewStringSet [of "map GetHostName (chosen net ?w)"] by (auto simp: published_def)
  qed
  have "\<exists>e\<in>set eps. host = GetHostName (target_of e) \<and> host \<noteq> '''' \<and> \<not> outdated this now e \<and>
         (\<exists>n. net_Do net n (''https://'' @ host @ HealthPath (lb_spec lb)) (Some (DNSName (lb_spec lb))) =
            Some (if StatusCode (lb_spec lb) = 0 then 200 else StatusCode (lb_spec lb)))"
    if "host \<in> set (di_Targets info)" for host
  proof -
    from that hosts obtain t where t: "t \<in> set (chosen net ?w)" "host = GetHostName t"
      by auto
    then have "t \<in> set (healthy_targets net ?w)" using set_chosen by blast
    then obtain i where i: "i < length (wt_Targets ?w)" "t = wt_Targets ?w ! i" "target_healthy net ?w i t"
      by (auto simp: healthy_targets_iff)
    from i(1,2) have "t \<in> set (wt_Targets ?w)" by simp
    then obtain e where e: "e \<in> set eps" "live this now e" "t = target_of e" by (auto simp: watch_for_def)
    have do: "net_Do net (Suc i) (''https://'' @ host @ HealthPath (lb_spec lb)) (Some (DNSName (lb_spec lb))) =
            Some (if StatusCode (lb_spec lb) = 0 then 200 else StatusCode (lb_spec lb))"
      using i(3) t(2) by (auto simp: IsHealthy_def watch_for_def Let_def split: if_splits option.splits)
    have "host \<noteq> ''''" using e t(2) by (simp add: live_def IsValid_host)
    with e t(2) do show ?thesis unfolding live_def by blast
  qed
  with r(2,6) one show ?thesis by blast
qed

text \<open>
  A DNS source whose state holds one endpoint, found for the sample load balancer, and the
  answer it gives.
\<close>

definition sample_dls :: DNSLBSource where
  "sample_dls =
     \<lparr>dls_state = (case UpdateEndpoint NewState (sample_ep ''ep1'' ''a'') of Panic \<Rightarrow> NewState | Ok st \<Rightarrow> st),
      dls_started = 0, dls_nxdomain = []\<rparr>"

definition sample_current :: DNSCurrentState where
  "sample_current = \<lparr>cs_Names = Map.empty, cs_Targets = [], cs_AnnotatedNames = []\<rparr>"

definition sample_net_ok :: net where
  "sample_net_ok =
     \<lparr>net_LookupIP = (\<lambda>_. Inr [[10, 0, 0, 1]]), net_NewRequest = (\<lambda>_. True), net_Do = (\<lambda>_ _ _. Some 200)\<rparr>"

lemma sample_dls_lookup:
  "GetEndpointsFor (\<lambda>ks. ks) (dls_state sample_dls) (lb_ClusterKey sample_lb) = Ok [sample_ep ''ep1'' ''a'']"
proof -
  let ?e = "sample_ep ''ep1'' ''a''" and ?l = "lb_ClusterKey sample_lb"
  have own: "LoadBalancer ?e = [?l]"
    by (simp add: LoadBalancer_def sample_defs lb_ClusterKey_def meta_ClusterKey_def Add_def keyset_add_def)
  show ?thesis
    by (simp add: sample_dls_def UpdateEndpoint_def renewSubObject_def NewState_def NewSubObjectCache_def
        own add_def filterKey_def keyset_add_def GetEndpointsFor_def GetByKey_def Let_def)
qed

lemma sample_dls_inv: "cache_inv ep_ClusterKey (dls_state sample_dls)"
proof -
  have "cache_inv ep_ClusterKey NewState" by simp
  from renew_step [OF this, of "sample_ep ''ep1'' ''a''"] show ?thesis
    by (auto simp: sample_dls_def UpdateEndpoint_def)
qed

lemma sample_dls_type: "type_of sample_lb = Some True"
  by (simp add: type_of_def sample_lb_def)

lemma sample_dls_answer:
  "\<exists>info wd'. GetDNSInfo sample_api sample_net_ok False (\<lambda>ks. ks) 1 sample_dls sample_lb sample_current init_world =
     Ok (Inr info, wd')"
proof -
  let ?w = "watch_for sample_dls sample_lb sample_current True
      (map target_of (filter (live sample_dls 1) [sample_ep ''ep1'' ''a'']))"
  obtain wd1 where r: "GetTargets sample_api sample_net_ok False (\<lambda>ks. ks) 1 sample_dls sample_lb sample_current init_world =
      bind_outcome (Handle sample_api sample_net_ok False ?w wd1) (\<lambda>(hosts, dn, _, wd). Ok (Inr (hosts, dn), wd))"
    using GetTargets_eq [where a = sample_api and net = sample_net_ok and debug = False and now = 1 and
        current = sample_current and wd = init_world, OF sample_dls_type sample_dls_lookup]
    by (elim exE conjE) (rule that)
  have "Handle sample_api sample_net_ok False ?w wd1 \<noteq> Panic"
    by (simp add: Handle_panic lookup_lb_panic sample_net_ok_def)
  then obtain x where "Handle sample_api sample_net_ok False ?w wd1 = Ok x"
    by (cases "Handle sample_api sample_net_ok False ?w wd1") auto
  moreover have "DNSName (lb_spec sample_lb) \<noteq> ''''" by (simp add: sample_lb_def)
  ultimately show ?thesis
    by (cases x) (auto simp: GetDNSInfo_def r)
qed

section \<open>Cleaning up\<close>

lemma cleanup_deletes:
  "{k. DeleteEP k \<in> set (concat (map (cleanup_effects this now lb) eps))} =
     {ep_ClusterKey e |e. e \<in> set eps \<and> IsValid (target_of e) \<and> outdated this now e}"
  by (auto simp: cleanup_effects_def)

text \<open>
  C24. Answering for a load balancer deletes exactly the outdated endpoints among those the state
  holds for it: the endpoints with a host whose validity has passed, and none in the first three
  minutes after the start, and no other object is ever deleted.
\<close>

theorem cleanup_deletes_outdated:
  assumes "GetDNSInfo a net debug rng now this lb current wd = Ok (Inr info, wd')"
  shows "\<exists>eps t. GetEndpointsFor rng (dls_state this) (lb_ClusterKey lb) = Ok eps \<and>
    w_trace wd' = w_trace wd @ t \<and>
    {k. DeleteEP k \<in> set t} = {ep_ClusterKey e |e. e \<in> set eps \<and> GetHostName (target_of e) \<noteq> '''' \<and>
      (\<exists>v. eps_ValidUntil (ep_status e) = Some v \<and> v < now \<and> dls_started this + 3 * Minute \<le> now)}"
proof -
  obtain b eps wd1 w' t where r: "type_of lb = Some b"
    "GetEndpointsFor rng (dls_state this) (lb_ClusterKey lb) = Ok eps"
    "Handle a net debug (watch_for this lb current b (map target_of (filter (live this now) eps))) wd1 =
       Ok (di_Targets info, di_Feedback info, w', wd')"
    "w_trace wd1 = w_trace wd @ t @ concat (map (cleanup_effects this now lb) eps)"
    "\<forall>k. DeleteEP k \<notin> set t"
    "di_Names info = [DNSName (lb_spec lb)]" "DNSName (lb_spec lb) \<noteq> ''''"
    by (rule GetDNSInfo_run [OF assms]) (rule that)
  obtain t2 where t2: "w_trace wd' = w_trace wd1 @ t2" "\<forall>k. DeleteEP k \<notin> set t2"
    using Handle_trace [OF r(3)] by blast
  let ?t = "t @ concat (map (cleanup_effects this now lb) eps) @ t2"
  have "{k. DeleteEP k \<in> set ?t} = {k. DeleteEP k \<in> set (concat (map (cleanup_effects this now lb) eps))}"
    using r(5) t2(2) by simp
  also note cleanup_deletes
  also have "{ep_ClusterKey e |e. e \<in> set eps \<and> IsValid (target_of e) \<and> outdated this now e} =
      {ep_ClusterKey e |e. e \<in> set eps \<and> GetHostName (target_of e) \<noteq> '''' \<and>
      (\<exists>v. eps_ValidUntil (ep_status e) = Some v \<and> v < now \<and> dls_started this + 3 * Minute \<le> now)}"
    unfolding IsValid_host outdated_def by blast
  finally have "{k. DeleteEP k \<in> set ?t} = {ep_ClusterKey e |e. e \<in> set eps \<and> GetHostName (target_of e) \<noteq> '''' \<and>
      (\<exists>v. eps_ValidUntil (ep_status e) = Some v \<and> v < now \<and> dls_started this + 3 * Minute \<le> now)}" .
  moreover have "w_trace wd' = w_trace wd @ ?t" using r(4) t2(1) by simp
  ultimately show ?thesis using r(2) by blast
qed

theorem cleanup_deletes_outdated_witness:
  "\<exists>info wd' t. GetDNSInfo sample_api sample_net_ok False (\<lambda>ks. ks) 1 sample_dls sample_lb sample_current init_world =
     Ok (Inr info, wd') \<and> w_trace wd' = t \<and> (\<forall>k. DeleteEP k \<notin> set t)"
proof -
  obtain info wd' where i: "GetDNSInfo sample_api sample_net_ok False (\<lambda>ks. ks) 1 sample_dls sample_lb sample_current
      init_world = Ok (Inr info, wd')"
    using sample_dls_answer by blast
  obtain eps t where "w_trace wd' = w_trace init_world @ t" "{k. DeleteEP k \<in> set t} = {ep_ClusterKey e |e. e \<in> set eps \<and>
      GetHostName (target_of e) \<noteq> '''' \<and> (\<exists>v. eps_ValidUntil (ep_status e) = Some v \<and> v < 1 \<and>
      dls_started sample_dls + 3 * Minute \<le> 1)}"
    using cleanup_deletes_outdated [OF i] by blast
  then have "w_trace wd' = t" "\<forall>k. DeleteEP k \<notin> set t"
    by (auto simp: init_world_def sample_dls_def)
  with i show ?thesis by blast
qed

text \<open>
  Answering for a load balancer panics in one case only: the load balancer has a name and a
  valid type, some of its endpoints are live, and the lookup of its name succeeds without an
  address.
\<close>

theorem dns_info_panics_iff:
  assumes "cache_inv ep_ClusterKey (dls_state this)" and "\<And>xs. set (rng xs) = set xs"
  shows "GetDNSInfo a net debug rng now this lb current wd = Panic \<longleftrightarrow>
    DNSName (lb_spec lb) \<noteq> '''' \<and> type_of lb \<noteq> None \<and> net_LookupIP net (DNSName (lb_spec lb)) = Inr [] \<and>
    (\<exists>eps. GetEndpointsFor rng (dls_state this) (lb_ClusterKey lb) = Ok eps \<and> (\<exists>e\<in>set eps. live this now e))"
proof -
  obtain eps where eps: "GetEndpointsFor rng (dls_state this) (lb_ClusterKey lb) = Ok eps"
    unfolding GetEndpointsFor_def using ep_cache.lookup_law [where rng = rng, OF assms] by blast
  have info: "GetDNSInfo a net debug rng now this lb current wd = Panic \<longleftrightarrow>
      DNSName (lb_spec lb) \<noteq> '''' \<and> GetTargets a net debug rng now this lb current wd = Panic"
    by (cases "GetTargets a net debug rng now this lb current wd") (auto simp: GetDNSInfo_def split: sum.splits prod.splits)
  show ?thesis
  proof (cases "type_of lb")
    case None
    then have "GetTargets a net debug rng now this lb current wd \<noteq> Panic"
      by (simp add: GetTargets_def NewWatch_eq)
    with None info show ?thesis by simp
  next
    case (Some b)
    let ?w = "watch_for this lb current b (map target_of (filter (live this now) eps))"
    obtain wd1 where r: "GetTargets a net debug rng now this lb current wd =
        bind_outcome (Handle a net debug ?w wd1) (\<lambda>(hosts, dn, _, wd). Ok (Inr (hosts, dn), wd))"
      using GetTargets_eq [where a = a and net = net and debug = debug and now = now and
          current = current and wd = wd, OF Some eps]
      by (elim exE conjE) (rule that)
    have "GetTargets a net debug rng now this lb current wd = Panic \<longleftrightarrow> Handle a net debug ?w wd1 = Panic"
      unfolding r by (cases "Handle a net debug ?w wd1") auto
    also have "\<dots> \<longleftrightarrow> filter (live this now) eps \<noteq> [] \<and> net_LookupIP net (DNSName (lb_spec lb)) = Inr []"
      by (simp add: Handle_panic lookup_lb_panic watch_for_def)
    also have "filter (live this now) eps \<noteq> [] \<longleftrightarrow> (\<exists>e\<in>set eps. live this now e)"
      by (simp add: filter_empty_conv)
    finally show ?thesis using info Some eps by auto
  qed
qed

theorem dns_info_panics_iff_witness:
  "GetDNSInfo sample_api (sample_net_ok\<lparr>net_LookupIP := \<lambda>_. Inr []\<rparr>) False (\<lambda>ks. ks) 1 sample_dls sample_lb
     sample_current init_world = Panic"
proof -
  have "live sample_dls 1 (sample_ep ''ep1'' ''a'')"
    by (simp add: live_def outdated_def sample_dls_def IsValid_def target_of_def sample_ep_def)
  moreover have "DNSName (lb_spec sample_lb) \<noteq> ''''" by (simp add: sample_lb_def)
  moreover have "set ks = set ks" for ks :: "ClusterObjectKey list" ..
  ultimately show ?thesis
    using sample_dls_lookup sample_dls_type
    by (subst dns_info_panics_iff [where rng = "\<lambda>ks. ks", OF sample_dls_inv]) simp_all
qed

text \<open>
  When a load balancer is gone, every endpoint known for it is put into the work queue, and
  from then on the state holds none for it, while every other load balancer keeps its endpoints.
\<close>

theorem deleted_lb_requeues_endpoints:
  assumes "cache_inv ep_ClusterKey (dls_state this)" and "\<And>xs. set (rng xs) = set xs"
  shows "\<exists>eps this' wd'. GetEndpointsFor rng (dls_state this) key = Ok eps \<and>
    dls_Deleted rng key this wd = Ok (this', wd') \<and>
    w_trace wd' = w_trace wd @ map (\<lambda>e. EnqueueKey (ep_ClusterKey e)) eps \<and>
    GetEndpointsFor rng (dls_state this') key = Ok [] \<and>
    (\<forall>other. other \<noteq> key \<longrightarrow> (\<exists>before after. GetEndpointsFor rng (dls_state this) other = Ok before \<and>
       GetEndpointsFor rng (dls_state this') other = Ok after \<and> set after = set before))"
proof -
  obtain eps where eps: "GetEndpointsFor rng (dls_state this) key = Ok eps"
    unfolding GetEndpointsFor_def using ep_cache.lookup_law [where rng = rng, OF assms] by blast
  have "w_trace (foldl (\<lambda>wd e. emit (EnqueueKey (ep_ClusterKey e)) wd) wd eps) =
      w_trace wd @ concat (map (\<lambda>e. [EnqueueKey (ep_ClusterKey e)]) eps)"
    by (rule foldl_trace) simp
  also have "concat (map (\<lambda>e. [EnqueueKey (ep_ClusterKey e)]) eps) = map (\<lambda>e. EnqueueKey (ep_ClusterKey e)) eps"
    by (induction eps) simp_all
  finally have tr: "w_trace (foldl (\<lambda>wd e. emit (EnqueueKey (ep_ClusterKey e)) wd) wd eps) =
      w_trace wd @ map (\<lambda>e. EnqueueKey (ep_ClusterKey e)) eps" .
  have others: "\<exists>before after. GetEndpointsFor rng (dls_state this) other = Ok before \<and>
      GetEndpointsFor rng (RemoveLoadBalancer (dls_state this) key) other = Ok after \<and> set after = set before"
    if "other \<noteq> key" for other
    using ep_cache.lookup_dropped_other [where rng = rng, OF assms that]
    by (simp add: GetEndpointsFor_def RemoveLoadBalancer_def)
  have "GetEndpointsFor rng (RemoveLoadBalancer (dls_state this) key) key = Ok []"
    using ep_cache.lookup_dropped [where rng = rng, OF assms] by (simp add: GetEndpointsFor_def RemoveLoadBalancer_def)
  with eps tr others show ?thesis by (simp add: dls_Deleted_def)
qed

theorem deleted_lb_requeues_endpoints_witness:
  "\<exists>this' wd'. dls_Deleted (\<lambda>ks. ks) (lb_ClusterKey sample_lb) sample_dls init_world = Ok (this', wd') \<and>
     w_trace wd' = [EnqueueKey (ep_ClusterKey (sample_ep ''ep1'' ''a''))]"
proof -
  have "set ks = set ks" for ks :: "ClusterObjectKey list" ..
  from deleted_lb_requeues_endpoints [where rng = "\<lambda>ks. ks", OF sample_dls_inv this,
      of "lb_ClusterKey sample_lb" init_world]
  show ?thesis by (auto simp: sample_dls_lookup init_world_def)
qed

end
