(* ===== verification/Owners.thy ===== *)
theory Owners
  imports Samples
begin

text \<open>
  The owners of an object, after \<open>resources/obj_owner.go\<close>: an owner in the same cluster and
  namespace is a Kubernetes owner reference, any other one is recorded in an annotation. The
  cluster an object lives in is part of its metadata here. \<open>Version\<close> gives the version of a group
  and kind the cluster serves.
\<close>

section \<open>Group versions\<close>

definition GroupVersion_String :: "string \<Rightarrow> string \<Rightarrow> string" where
  "GroupVersion_String grp version =
     (if grp = '''' \<and> version = '''' then ''''
      else if grp = '''' \<and> version = ''v1'' then version
      else if grp \<noteq> '''' then grp @ ''/'' @ version
      else version)"

text \<open>The group and the version; with an error the code goes on with both empty.\<close>

definition ParseGroupVersion :: "string \<Rightarrow> string \<times> string" where
  "ParseGroupVersion gv =
     (if gv = '''' \<or> gv = ''/'' then ('''', '''')
      else case Split CHR ''/'' gv of
             [v] \<Rightarrow> ('''', gv)
           | [g, v] \<Rightarrow> (g, v)
           | _ \<Rightarrow> ('''', ''''))"

lemma ParseGroupVersion_String:
  assumes "CHR ''/'' \<notin> set grp" and "CHR ''/'' \<notin> set version"
  shows "fst (ParseGroupVersion (GroupVersion_String grp version)) = grp"
  using assms
  by (cases grp; cases version) (auto simp: GroupVersion_String_def ParseGroupVersion_def Split_append Split_no_sep)

section \<open>Owner references and annotations\<close>

definition owner_annotation :: string where
  "owner_annotation = ''resources.gardener.cloud/owners''"

definition GetOwnerReference :: "(GroupKind \<Rightarrow> string) \<Rightarrow> SourceObject \<Rightarrow> OwnerReference" where
  "GetOwnerReference Version obj =
     \<lparr>or_apiVersion = GroupVersion_String (gk_group (s_groupKind obj)) (Version (s_groupKind obj)),
      or_kind = gk_kind (s_groupKind obj), or_name = m_name (s_meta obj), or_uid = m_uid (s_meta obj)\<rparr>"

definition SetOwnerReference :: "ObjectMeta \<Rightarrow> OwnerReference \<Rightarrow> ObjectMeta \<times> bool" where
  "SetOwnerReference o' ref =
     (if list_ex (\<lambda>r. or_uid r = or_uid ref) (m_ownerReferences o') then (o', False)
      else (o'\<lparr>m_ownerReferences := m_ownerReferences o' @ [ref]\<rparr>, True))"

definition SetAnnotation :: "ObjectMeta \<Rightarrow> string \<Rightarrow> string \<Rightarrow> ObjectMeta \<times> bool" where
  "SetAnnotation o' key value =
     (if m_annotations o' key \<noteq> Some value
      then (o'\<lparr>m_annotations := (m_annotations o')(key \<mapsto> value)\<rparr>, True)
      else (o', False))"

definition GetAnnotatedOwners :: "ObjectMeta \<Rightarrow> string list" where
  "GetAnnotatedOwners data =
     (let s = (case m_annotations data owner_annotation of None \<Rightarrow> '''' | Some s \<Rightarrow> s)
      in if s = '''' then [] else filter (\<lambda>x. x \<noteq> '''') (map TrimSpace (Split CHR '','' s)))"

definition AddOwner :: "(GroupKind \<Rightarrow> string) \<Rightarrow> ObjectMeta \<Rightarrow> string \<Rightarrow> SourceObject \<Rightarrow> ObjectMeta \<times> bool" where
  "AddOwner Version data clusterid obj =
     (let owner = s_ClusterKey obj
      in if ck_namespace owner = m_namespace data \<and> ck_cluster owner = clusterid
         then SetOwnerReference data (GetOwnerReference Version obj)
         else let ref = AsRefFor owner clusterid; refs = GetAnnotatedOwners data
              in if list_ex (\<lambda>r. ref = TrimSpace r) refs then (data, False)
                 else SetAnnotation data owner_annotation (Join '','' (refs @ [ref])))"

definition reference_owner :: "ObjectMeta \<Rightarrow> OwnerReference \<Rightarrow> ClusterObjectKey" where
  "reference_owner this r =
     NewClusterKey (m_cluster this) (NewGroupKind (fst (ParseGroupVersion (or_apiVersion r))) (or_kind r))
       (m_namespace this) (or_name r)"

definition GetOwners_of :: "ObjectMeta \<Rightarrow> GroupKind list \<Rightarrow> ClusterObjectKeySet" where
  "GetOwners_of this kinds =
     (let result = Add [] (map (reference_owner this) (m_ownerReferences this));
          result = foldl (\<lambda>result r.
            (case ParseClusterObjectKey (m_cluster this) r of
               Inl _ \<Rightarrow> result
             | Inr ref \<Rightarrow> Add result [ref])) result (GetAnnotatedOwners this)
      in FilterKeysByGroupKinds result kinds)"

section \<open>Adding an owner makes it an owner\<close>

lemma AddOwner_frame:
  assumes "AddOwner Version m c src = (m', b)"
  shows "m_cluster m' = m_cluster m \<and> m_namespace m' = m_namespace m \<and> m_name m' = m_name m \<and>
    m_uid m' = m_uid m \<and> m_labels m' = m_labels m \<and> m_finalizers m' = m_finalizers m \<and>
    m_creationTimestamp m' = m_creationTimestamp m \<and> m_deletionTimestamp m' = m_deletionTimestamp m \<and>
    m_generateName m' = m_generateName m \<and> m_resourceVersion m' = m_resourceVersion m"
  using assms
  by (auto simp: AddOwner_def SetOwnerReference_def SetAnnotation_def Let_def split: if_splits)

lemma foldl_parsed:
  "set (foldl (\<lambda>result r. (case ParseClusterObjectKey c r of Inl _ \<Rightarrow> result | Inr ref \<Rightarrow> Add result [ref])) ks rs) =
     set ks \<union> {k. \<exists>r\<in>set rs. ParseClusterObjectKey c r = Inr k}"
  by (induction rs arbitrary: ks) (auto split: sum.splits)

lemma set_GetOwners:
  "set (GetOwners_of m []) = reference_owner m ` set (m_ownerReferences m) \<union>
     {k. \<exists>r\<in>set (GetAnnotatedOwners m). ParseClusterObjectKey (m_cluster m) r = Inr k}"
  by (simp add: GetOwners_of_def FilterKeysByGroupKinds_def foldl_parsed Let_def)

lemma TrimSpace_ends: "TrimSpace s = '''' \<or> \<not> is_space (hd (TrimSpace s)) \<and> \<not> is_space (last (TrimSpace s))"
proof -
  let ?p = "dropWhile is_space s"
  let ?q = "dropWhile is_space (rev ?p)"
  have t: "TrimSpace s = rev ?q" by (simp add: TrimSpace_def)
  show ?thesis
  proof (cases "?q = []")
    case False
    have last: "\<not> is_space (last (TrimSpace s))"
      using hd_dropWhile [OF False] by (simp add: t last_rev)
    obtain zs where "rev ?p = zs @ ?q" by (metis takeWhile_dropWhile_id)
    then have p: "?p = rev ?q @ rev zs" by (metis rev_append rev_rev_ident)
    have ne: "rev ?q \<noteq> []" using False by simp
    have "hd ?p = hd (rev ?q)" using arg_cong [OF p, of hd] ne by (metis hd_append2)
    moreover have "?p \<noteq> []" using False by (metis dropWhile.simps(1) rev.simps(1))
    ultimately have "\<not> is_space (hd (TrimSpace s))"
      using hd_dropWhile [of is_space s] by (simp only: t) metis
    with last show ?thesis by blast
  qed (simp add: t)
qed

lemma TrimSpace_Nil [simp]: "TrimSpace [] = []"
  by (simp add: TrimSpace_def)

lemma TrimSpace_idem [simp]: "TrimSpace (TrimSpace s) = TrimSpace s"
  using TrimSpace_ends [of s] TrimSpace_id [of "TrimSpace s"] by (metis TrimSpace_Nil)

lemma set_TrimSpace: "set (TrimSpace s) \<subseteq> set s"
  by (auto simp: TrimSpace_def dest!: set_dropWhileD)

text \<open>A reference that survives being written into the list: not empty, no comma, no outer spaces.\<close>

definition listable :: "string \<Rightarrow> bool" where
  "listable r \<longleftrightarrow> r \<noteq> '''' \<and> CHR '','' \<notin> set r \<and> TrimSpace r = r"

lemma GetAnnotatedOwners_listable: "r \<in> set (GetAnnotatedOwners m) \<Longrightarrow> listable r"
  using set_TrimSpace Split_parts_no_sep
  by (auto simp: GetAnnotatedOwners_def listable_def Let_def split: if_splits) blast+

lemma annotated_roundtrip:
  assumes "\<forall>r\<in>set rs. listable r"
  shows "GetAnnotatedOwners (m\<lparr>m_annotations := (m_annotations m)(owner_annotation \<mapsto> Join '','' rs)\<rparr>) = rs"
proof (cases "rs = []")
  case False
  then have split: "Split CHR '','' (Join '','' rs) = rs"
    using assms by (intro Split_Join) (auto simp: listable_def)
  then have ne: "Join '','' rs \<noteq> ''''"
    using False assms by (cases rs) (auto simp: listable_def)
  have "map TrimSpace rs = rs" using assms by (intro map_idI) (simp add: listable_def)
  moreover have "filter (\<lambda>x. x \<noteq> '''') rs = rs" using assms by (intro filter_True) (simp add: listable_def)
  ultimately show ?thesis using split ne by (simp add: GetAnnotatedOwners_def)
qed (simp add: GetAnnotatedOwners_def)

lemma s_ClusterKey_sel [simp]:
  "ck_cluster (s_ClusterKey src) = m_cluster (s_meta src)"
  "ck_groupKind (s_ClusterKey src) = s_groupKind src"
  "ck_namespace (s_ClusterKey src) = m_namespace (s_meta src)"
  "on_name (ck_name (s_ClusterKey src)) = m_name (s_meta src)"
  by (simp_all add: s_ClusterKey_def meta_ClusterKey_def)

lemma reference_of_source:
  assumes "readable_key (s_ClusterKey src)" and "CHR ''/'' \<notin> set (Version (s_groupKind src))"
    and "m_cluster m = m_cluster (s_meta src)" and "m_namespace m = m_namespace (s_meta src)"
  shows "reference_owner m (GetOwnerReference Version src) = s_ClusterKey src"
proof -
  have "CHR ''/'' \<notin> set (gk_group (s_groupKind src))" "gk_group (s_groupKind src) \<noteq> ''core''"
    using assms(1) by (simp_all add: readable_key_def plain_def)
  then show ?thesis
    using assms(2-4)
    by (simp add: reference_owner_def GetOwnerReference_def ParseGroupVersion_String NewGroupKind_def
        s_ClusterKey_def meta_ClusterKey_def)
qed

lemma reference_owner_frame:
  "m_cluster m' = m_cluster m \<Longrightarrow> m_namespace m' = m_namespace m \<Longrightarrow> reference_owner m' = reference_owner m"
  by (simp add: reference_owner_def fun_eq_iff)

lemma AddOwner_local:
  assumes "readable_key (s_ClusterKey src)" and "CHR ''/'' \<notin> set (Version (s_groupKind src))"
    and "m_namespace (s_meta src) = m_namespace m" and "m_cluster (s_meta src) = m_cluster m"
    and "\<forall>r\<in>set (m_ownerReferences m). or_uid r = m_uid (s_meta src) \<longrightarrow> reference_owner m r = s_ClusterKey src"
    and "AddOwner Version m (m_cluster m) src = (m', b)"
  shows "set (GetOwners_of m' []) = insert (s_ClusterKey src) (set (GetOwners_of m [])) \<and>
    AddOwner Version m' (m_cluster m) src = (m', False)"
proof -
  let ?ref = "GetOwnerReference Version src"
  have uid: "or_uid ?ref = m_uid (s_meta src)" by (simp add: GetOwnerReference_def)
  have ref: "reference_owner m ?ref = s_ClusterKey src"
    using assms(3,4) by (intro reference_of_source [where Version = Version, OF assms(1,2)]) simp_all
  have add: "AddOwner Version m (m_cluster m) src = SetOwnerReference m ?ref"
    using assms(3,4) by (simp add: AddOwner_def Let_def)
  show ?thesis
  proof (cases "list_ex (\<lambda>r. or_uid r = or_uid ?ref) (m_ownerReferences m)")
    case True
    then obtain r where r: "r \<in> set (m_ownerReferences m)" "or_uid r = m_uid (s_meta src)"
      by (auto simp: list_ex_iff uid)
    then have "s_ClusterKey src = reference_owner m r" using assms(5) by simp
    then have "s_ClusterKey src \<in> reference_owner m ` set (m_ownerReferences m)"
      using r(1) by (rule image_eqI)
    then have "s_ClusterKey src \<in> set (GetOwners_of m [])"
      unfolding set_GetOwners by blast
    moreover have "m' = m" using True add assms(6) by (simp add: SetOwnerReference_def)
    moreover have "AddOwner Version m (m_cluster m) src = (m, False)"
      using True add by (simp add: SetOwnerReference_def)
    ultimately show ?thesis by auto
  next
    case False
    then have m': "m' = m\<lparr>m_ownerReferences := m_ownerReferences m @ [?ref]\<rparr>"
      using add assms(6) by (simp add: SetOwnerReference_def)
    have "reference_owner m' = reference_owner m" by (rule reference_owner_frame) (simp_all add: m')
    moreover have "GetAnnotatedOwners m' = GetAnnotatedOwners m" by (simp add: m' GetAnnotatedOwners_def)
    ultimately have "set (GetOwners_of m' []) = insert (s_ClusterKey src) (set (GetOwners_of m []))"
      unfolding set_GetOwners using ref by (simp add: m')
    moreover have "AddOwner Version m' (m_cluster m) src = (m', False)"
      using assms(3,4) by (simp add: AddOwner_def SetOwnerReference_def m' Let_def)
    ultimately show ?thesis by blast
  qed
qed

lemma AddOwner_foreign:
  assumes "readable_key (s_ClusterKey src)" and "listable (AsRefFor (s_ClusterKey src) (m_cluster m))"
    and "\<not> (m_namespace (s_meta src) = m_namespace m \<and> m_cluster (s_meta src) = m_cluster m)"
    and "AddOwner Version m (m_cluster m) src = (m', b)"
  shows "set (GetOwners_of m' []) = insert (s_ClusterKey src) (set (GetOwners_of m [])) \<and>
    AddOwner Version m' (m_cluster m) src = (m', False)"
proof -
  let ?ref = "AsRefFor (s_ClusterKey src) (m_cluster m)" and ?refs = "GetAnnotatedOwners m"
  have trim: "TrimSpace r = r" if "r \<in> set ?refs" for r
    using GetAnnotatedOwners_listable [OF that] by (simp add: listable_def)
  have known: "list_ex (\<lambda>r. ?ref = TrimSpace r) ?refs \<longleftrightarrow> ?ref \<in> set ?refs"
    using trim by (auto simp: list_ex_iff)
  have parse: "ParseClusterObjectKey (m_cluster m) ?ref = Inr (s_ClusterKey src)"
    by (rule Parse_AsRefFor [OF assms(1)])
  have add: "AddOwner Version m (m_cluster m) src =
      (if ?ref \<in> set ?refs then (m, False) else SetAnnotation m owner_annotation (Join '','' (?refs @ [?ref])))"
    using assms(3) known by (auto simp: AddOwner_def Let_def)
  show ?thesis
  proof (cases "?ref \<in> set ?refs")
    case True
    then have "s_ClusterKey src \<in> set (GetOwners_of m [])"
      unfolding set_GetOwners using parse by blast
    moreover have "m' = m" using True add assms(4) by simp
    ultimately show ?thesis using True add by auto
  next
    case False
    let ?m = "m\<lparr>m_annotations := (m_annotations m)(owner_annotation \<mapsto> Join '','' (?refs @ [?ref]))\<rparr>"
    have refs': "GetAnnotatedOwners ?m = ?refs @ [?ref]"
      using GetAnnotatedOwners_listable assms(2) by (intro annotated_roundtrip) auto
    have "m_annotations m owner_annotation \<noteq> Some (Join '','' (?refs @ [?ref]))"
    proof
      assume "m_annotations m owner_annotation = Some (Join '','' (?refs @ [?ref]))"
      then have "m_annotations ?m = m_annotations m" by (simp add: fun_upd_idem)
      then have "GetAnnotatedOwners ?m = ?refs" by (simp add: GetAnnotatedOwners_def)
      with refs' show False by simp
    qed
    with False add assms(4) have m': "m' = ?m" by (simp add: SetAnnotation_def)
    have "reference_owner m' = reference_owner m" by (rule reference_owner_frame) (simp_all add: m')
    then have "set (GetOwners_of m' []) = insert (s_ClusterKey src) (set (GetOwners_of m []))"
      unfolding set_GetOwners using refs' parse by (auto simp: m')
    moreover have "list_ex (\<lambda>r. ?ref = TrimSpace r) (?refs @ [?ref])"
      using assms(2) by (simp add: listable_def)
    then have "AddOwner Version m' (m_cluster m) src = (m', False)"
      using assms(3) refs' by (auto simp: AddOwner_def m' Let_def)
    ultimately show ?thesis by blast
  qed
qed

text \<open>
  The conditions under which an owner can be read back: UIDs identify objects, and the owner's
  names hold none of the separators of the textual form.
\<close>

definition recordable :: "(GroupKind \<Rightarrow> string) \<Rightarrow> ObjectMeta \<Rightarrow> SourceObject \<Rightarrow> bool" where
  "recordable Version m src \<longleftrightarrow>
     readable_key (s_ClusterKey src) \<and> CHR ''/'' \<notin> set (Version (s_groupKind src)) \<and>
     listable (AsRefFor (s_ClusterKey src) (m_cluster m)) \<and>
     (\<forall>r\<in>set (m_ownerReferences m). or_uid r = m_uid (s_meta src) \<longrightarrow> reference_owner m r = s_ClusterKey src)"

lemma AddOwner_both:
  assumes "recordable Version m src" and "AddOwner Version m (m_cluster m) src = (m', b)"
  shows "set (GetOwners_of m' []) = insert (s_ClusterKey src) (set (GetOwners_of m [])) \<and>
    AddOwner Version m' (m_cluster m) src = (m', False)"
proof (cases "m_namespace (s_meta src) = m_namespace m \<and> m_cluster (s_meta src) = m_cluster m")
  case True
  with AddOwner_local [where Version = Version, OF _ _ _ _ _ assms(2)] assms(1) show ?thesis
    by (simp add: recordable_def)
next
  case False
  with AddOwner_foreign [where Version = Version, OF _ _ _ assms(2)] assms(1) show ?thesis
    by (simp add: recordable_def)
qed

text \<open>
  C28. Adding an owner adds exactly this owner to the owners that are read back, and adding it
  again changes nothing; this covers both ways to record an owner, the owner reference within a
  namespace and the annotation across namespaces and clusters.
\<close>

theorem added_owner_is_owner:
  assumes "recordable Version m src" and "AddOwner Version m (m_cluster m) src = (m', b)"
  shows "set (GetOwners_of m' []) = insert (s_ClusterKey src) (set (GetOwners_of m [])) \<and>
    AddOwner Version m' (m_cluster m) src = (m', False)"
  by (rule AddOwner_both [OF assms])

definition sample_service :: "string \<Rightarrow> SourceObject" where
  "sample_service cluster =
     \<lparr>s_groupKind = \<lparr>gk_group = '''', gk_kind = ''Service''\<rparr>,
      s_meta = (sample_meta ''svc'')\<lparr>m_cluster := cluster, m_uid := ''s1'',
        m_annotations := [''loadbalancer.gardener.cloud/dnsloadbalancer'' \<mapsto> ''lb'']\<rparr>,
      s_data = ServiceData ''LoadBalancer'' [\<lparr>lbi_IP = ''10.0.0.9'', lbi_Hostname = ''''\<rparr>]\<rparr>"

theorem added_owner_is_owner_witness:
  "\<exists>m' b. AddOwner (\<lambda>_. ''v1'') (sample_meta ''ep1'') ''target'' (sample_service ''src'') = (m', b) \<and>
     s_ClusterKey (sample_service ''src'') \<in> set (GetOwners_of m' [])"
proof -
  let ?src = "sample_service ''src''" and ?m = "sample_meta ''ep1''"
  obtain m' b where a: "AddOwner (\<lambda>_. ''v1'') ?m ''target'' ?src = (m', b)" by (meson surj_pair)
  have "readable_key (s_ClusterKey ?src)"
    by (simp add: readable_key_def plain_def sample_service_def sample_meta_def)
  moreover have "AsRefFor (s_ClusterKey ?src) ''target'' = ''src:/Service/ns/svc''"
    by (simp add: AsRefFor_def asString_def ObjectKey_String_def ObjectName_String_def sample_service_def sample_meta_def)
  then have "listable (AsRefFor (s_ClusterKey ?src) (m_cluster ?m))"
    by (simp add: listable_def sample_meta_def TrimSpace_id is_space_def)
  moreover have "AddOwner (\<lambda>_. ''v1'') ?m (m_cluster ?m) ?src = (m', b)" using a by (simp add: sample_meta_def)
  ultimately have "set (GetOwners_of m' []) = insert (s_ClusterKey ?src) (set (GetOwners_of ?m []))"
    using added_owner_is_owner [of "\<lambda>_. ''v1''" ?m ?src m' b] by (simp add: recordable_def sample_meta_def)
  with a show ?thesis by blast
qed

end
