(* ===== verification/Sources.thy ===== *)
theory Sources
  imports Owners Reconcile
begin

text \<open>
  The sources of endpoints (\<open>pkg/dnslb/endpoint/sources\<close>): services and ingresses, the address each
  offers as a target, its validation, and the registry of source types.
\<close>

section \<open>The registry\<close>

datatype SourceType = service_SourceType GroupKind | ingress_SourceType GroupKind

fun GetGroupKind :: "SourceType \<Rightarrow> GroupKind" where
  "GetGroupKind (service_SourceType gk) = gk"
| "GetGroupKind (ingress_SourceType gk) = gk"

record registry =
  SourceTypes :: "GroupKind \<rightharpoonup> SourceType"
  SourceKinds :: "GroupKind list"

definition Register :: "SourceType \<Rightarrow> registry \<Rightarrow> registry" where
  "Register src reg =
     (let reg = (if SourceTypes reg (GetGroupKind src) = None
                 then reg\<lparr>SourceKinds := SourceKinds reg @ [GetGroupKind src]\<rparr> else reg)
      in reg\<lparr>SourceTypes := (SourceTypes reg)(GetGroupKind src \<mapsto> src)\<rparr>)"

text \<open>The groups of services and ingresses, and the registrations made when the program starts.\<close>

definition serviceGK :: GroupKind where
  "serviceGK = NewGroupKind '''' ''Service''"

definition ingressGK :: GroupKind where
  "ingressGK = NewGroupKind ''extensions'' ''Ingress''"

definition registered :: registry where
  "registered =
     Register (service_SourceType serviceGK)
       (Register (ingress_SourceType ingressGK) \<lparr>SourceTypes = Map.empty, SourceKinds = []\<rparr>)"

definition GroupKind_String :: "GroupKind \<Rightarrow> string" where
  "GroupKind_String gk = (if gk_group gk = '''' then gk_kind gk else gk_kind gk @ ''.'' @ gk_group gk)"

definition SourceType_Get :: "SourceType \<Rightarrow> SourceObject \<Rightarrow> go_error + SourceObject" where
  "SourceType_Get this obj =
     (if s_groupKind obj \<noteq> GetGroupKind this
      then Inl (OtherError (''invalid object type '' @ quoted (GroupKind_String (s_groupKind obj)))) else Inr obj)"

lemma registered_sel:
  "SourceTypes registered serviceGK = Some (service_SourceType serviceGK)"
  "SourceTypes registered ingressGK = Some (ingress_SourceType ingressGK)"
  "gk \<noteq> serviceGK \<Longrightarrow> gk \<noteq> ingressGK \<Longrightarrow> SourceTypes registered gk = None"
  "set (SourceKinds registered) = dom (SourceTypes registered)" "distinct (SourceKinds registered)"
  by (auto simp: registered_def Register_def serviceGK_def ingressGK_def NewGroupKind_def Let_def)

section \<open>Targets\<close>

text \<open>The last address and the last host name of the status win.\<close>

definition status_target :: "LoadBalancerIngress list \<Rightarrow> string \<times> string" where
  "status_target ings =
     foldl (\<lambda>(ip, cname) i.
       (if lbi_IP i \<noteq> '''' then lbi_IP i else ip,
        if lbi_Hostname i \<noteq> '''' then lbi_Hostname i else cname)) ('''', '''') ings"

definition service_GetTargets :: "LoadBalancerIngress list \<Rightarrow> string \<times> string" where
  "service_GetTargets ings = status_target ings"

text \<open>The first rule with a host other than the name of the load balancer.\<close>

definition rule_host :: "string \<Rightarrow> string list \<Rightarrow> string option" where
  "rule_host dnsname hosts = find (\<lambda>h. h \<noteq> '''' \<and> h \<noteq> dnsname) hosts"

definition ingress_GetTargets ::
  "DNSLoadBalancer \<Rightarrow> LoadBalancerIngress list \<Rightarrow> string list \<Rightarrow> string \<times> string" where
  "ingress_GetTargets lb ings hosts =
     (let (ip, cname) = status_target ings
      in if cname = '''' \<and> ip = ''''
         then (case rule_host (DNSName (lb_spec lb)) hosts of
                 Some h \<Rightarrow> (ip, h)
               | None \<Rightarrow> (ip, cname))
         else (ip, cname))"

text \<open>
  \<open>GetTargets\<close> of the interface, by the type of the source. \<open>OtherData\<close> is not the data of any
  registered source.
\<close>

fun src_GetTargets :: "SourceObject \<Rightarrow> DNSLoadBalancer \<Rightarrow> string \<times> string" where
  "src_GetTargets src lb =
     (case s_data src of
        ServiceData ty ings \<Rightarrow> service_GetTargets ings
      | IngressData ings hosts \<Rightarrow> ingress_GetTargets lb ings hosts
      | OtherData \<Rightarrow> ('''', ''''))"

section \<open>Validation\<close>

text \<open>The answer is the flag that the problem is a normal one, and the error.\<close>

definition tick :: "string \<Rightarrow> string" where
  "tick s = [CHR 0x27] @ s @ [CHR 0x27]"

definition src_String :: "SourceObject \<Rightarrow> string" where
  "src_String src = ObjectName_String (meta_ObjectName (s_meta src))"

definition no_target_error :: "SourceObject \<Rightarrow> go_error" where
  "no_target_error src = OtherError (''no host rule or loadbalancer status defined for '' @ tick (src_String src))"

definition HasLoadBalancer :: "SourceObject \<Rightarrow> string \<Rightarrow> LoadBalancerIngress list \<Rightarrow> bool \<times> go_error option" where
  "HasLoadBalancer svc ty ings =
     (if ty \<noteq> ''LoadBalancer''
      then (False, Some (OtherError (''service '' @ m_namespace (s_meta svc) @ ''/'' @ m_name (s_meta svc) @
              '' is not of type LoadBalancer'')))
      else (list_ex (\<lambda>i. lbi_IP i \<noteq> '''' \<or> lbi_Hostname i \<noteq> '''') ings, None))"

definition service_Validate ::
  "SourceObject \<Rightarrow> string \<Rightarrow> LoadBalancerIngress list \<Rightarrow> bool \<times> go_error option" where
  "service_Validate this ty ings =
     (case HasLoadBalancer this ty ings of
        (_, Some err) \<Rightarrow> (False, Some err)
      | (ok, None) \<Rightarrow>
          if \<not> ok
          then (True, Some (OtherError (''load balancer not yet assigned for '' @ tick (src_String this))))
          else let (cname, ip) = service_GetTargets ings
               in if cname = '''' \<and> ip = '''' then (False, Some (no_target_error this)) else (True, None))"

definition ingress_Validate ::
  "SourceObject \<Rightarrow> DNSLoadBalancer \<Rightarrow> LoadBalancerIngress list \<Rightarrow> string list \<Rightarrow> bool \<times> go_error option" where
  "ingress_Validate this lb ings hosts =
     (let dns = list_ex (\<lambda>h. h \<noteq> '''' \<and> h = DNSName (lb_spec lb)) hosts
      in if \<not> dns
         then (False, Some (OtherError (''load balancer host '' @ tick (DNSName (lb_spec lb)) @
                 '' not configured as host rule for '' @ tick (src_String this))))
         else let (cname, ip) = ingress_GetTargets lb ings hosts
              in if cname = '''' \<and> ip = '''' then (False, Some (no_target_error this)) else (True, None))"

fun src_Validate :: "SourceObject \<Rightarrow> DNSLoadBalancer \<Rightarrow> bool \<times> go_error option" where
  "src_Validate src lb =
     (case s_data src of
        ServiceData ty ings \<Rightarrow> service_Validate src ty ings
      | IngressData ings hosts \<Rightarrow> ingress_Validate src lb ings hosts
      | OtherData \<Rightarrow> (False, Some (no_target_error src)))"

section \<open>A validated source has a target\<close>

lemma status_target_Nil_iff:
  "fst (status_target ings) = '''' \<longleftrightarrow> (\<forall>i\<in>set ings. lbi_IP i = '''')"
  "snd (status_target ings) = '''' \<longleftrightarrow> (\<forall>i\<in>set ings. lbi_Hostname i = '''')"
  unfolding status_target_def by (induction ings rule: rev_induct) (auto split: prod.splits)

lemma status_target_origin:
  "fst (status_target ings) \<in> insert '''' (lbi_IP ` set ings)"
  "snd (status_target ings) \<in> insert '''' (lbi_Hostname ` set ings)"
  unfolding status_target_def by (induction ings rule: rev_induct) (auto split: prod.splits)

lemma rule_host_Some: "rule_host dnsname hosts = Some h \<Longrightarrow> h \<in> set hosts \<and> h \<noteq> '''' \<and> h \<noteq> dnsname"
  unfolding rule_host_def by (auto simp: find_Some_iff)

lemma validated_has_target:
  assumes "src_Validate src lb = (normal, None)"
  shows "fst (src_GetTargets src lb) \<noteq> '''' \<or> snd (src_GetTargets src lb) \<noteq> ''''"
  using assms
  by (cases "s_data src")
    (auto simp: service_Validate_def ingress_Validate_def Let_def split: prod.splits option.splits if_splits)

text \<open>
  A source that passes validation offers a target: its address or its host name is not empty.
  Both come from the addresses assigned to it; only an ingress without any is represented by the
  host of a rule, and then not by the name of the load balancer itself.
\<close>

theorem validated_source_has_target:
  assumes "src_Validate src lb = (normal, None)" and "src_GetTargets src lb = (ip, cname)"
  shows "(ip \<noteq> '''' \<or> cname \<noteq> '''') \<and>
    (case s_data src of
       ServiceData ty ings \<Rightarrow> ip \<in> insert '''' (lbi_IP ` set ings) \<and> cname \<in> insert '''' (lbi_Hostname ` set ings)
     | IngressData ings hosts \<Rightarrow>
         ip \<in> insert '''' (lbi_IP ` set ings) \<and>
         (cname \<in> insert '''' (lbi_Hostname ` set ings) \<or> ip = '''' \<and> cname \<in> set hosts \<and> cname \<noteq> DNSName (lb_spec lb))
     | OtherData \<Rightarrow> False)"
proof (cases "s_data src")
  case (ServiceData ty ings)
  with assms(2) validated_has_target [OF assms(1)]
  have "service_GetTargets ings = (ip, cname)" "ip \<noteq> '''' \<or> cname \<noteq> ''''"
    by (auto split: prod.splits)
  with ServiceData status_target_origin [of ings] show ?thesis
    by (simp add: service_GetTargets_def)
next
  case (IngressData ings hosts)
  with assms(2) validated_has_target [OF assms(1)]
  have t: "ingress_GetTargets lb ings hosts = (ip, cname)" "ip \<noteq> '''' \<or> cname \<noteq> ''''"
    by (auto split: prod.splits)
  have "ip \<in> insert '''' (lbi_IP ` set ings) \<and>
      (cname \<in> insert '''' (lbi_Hostname ` set ings) \<or> ip = '''' \<and> cname \<in> set hosts \<and> cname \<noteq> DNSName (lb_spec lb))"
    using t(1) status_target_origin [of ings] rule_host_Some [of "DNSName (lb_spec lb)" hosts]
    by (auto simp: ingress_GetTargets_def Let_def split: prod.splits if_splits option.splits)
  with t(2) IngressData show ?thesis by simp
next
  case OtherData
  with assms show ?thesis by simp
qed

theorem validated_source_has_target_witness:
  "\<exists>ip cname. src_GetTargets (sample_service ''src'') sample_lb = (ip, cname) \<and> length ip + length cname > 0"
proof -
  have v: "src_Validate (sample_service ''src'') sample_lb = (True, None)"
    by (simp add: sample_service_def service_Validate_def HasLoadBalancer_def service_GetTargets_def status_target_def)
  obtain ip cname where t: "src_GetTargets (sample_service ''src'') sample_lb = (ip, cname)" by (meson surj_pair)
  from validated_source_has_target [OF v t] have "length ip + length cname > 0" by auto
  with t show ?thesis by blast
qed

text \<open>
  A service is accepted exactly when it is of type \<open>LoadBalancer\<close> and an address has been
  assigned to it; while it waits for its address the problem is reported as a normal one, and a
  service of another type is not.
\<close>

theorem service_validation:
  assumes "s_data src = ServiceData ty ings"
  shows "(snd (src_Validate src lb) = None \<longleftrightarrow>
      ty = ''LoadBalancer'' \<and> (\<exists>i\<in>set ings. lbi_IP i \<noteq> '''' \<or> lbi_Hostname i \<noteq> '''')) \<and>
    (snd (src_Validate src lb) \<noteq> None \<longrightarrow> fst (src_Validate src lb) = (ty = ''LoadBalancer''))"
proof -
  have "(\<exists>i\<in>set ings. lbi_IP i \<noteq> '''' \<or> lbi_Hostname i \<noteq> '''') \<longleftrightarrow>
      \<not> (fst (status_target ings) = '''' \<and> snd (status_target ings) = '''')"
    using status_target_Nil_iff [of ings] by auto
  then show ?thesis
    using assms
    by (auto simp: service_Validate_def HasLoadBalancer_def service_GetTargets_def list_ex_iff Let_def
        split: prod.splits if_splits)
qed

theorem service_validation_witness:
  "snd (src_Validate (sample_service ''src'') sample_lb) = None \<longleftrightarrow>
     (\<exists>i\<in>set [\<lparr>lbi_IP = ''10.0.0.9'', lbi_Hostname = ''''\<rparr>]. lbi_IP i \<noteq> '''' \<or> lbi_Hostname i \<noteq> '''')"
proof -
  have d: "s_data (sample_service ''src'') = ServiceData ''LoadBalancer'' [\<lparr>lbi_IP = ''10.0.0.9'', lbi_Hostname = ''''\<rparr>]"
    by (simp add: sample_service_def)
  from service_validation [OF d, of sample_lb] show ?thesis by blast
qed

end
