(* ===== verification/Modification.thy ===== *)
theory Modification
  imports Samples
begin

text \<open>
  The modification loop of \<open>resources/obj_internal.go\<close>: a copy of an object is modified and sent to the
  API server; on a conflict the object is read again and modified anew, at most ten times. The loop is
  the same for every kind of object; its calls \<open>I_update\<close> and \<open>I_get\<close> are arguments.
\<close>

section \<open>Modifying an object\<close>

type_synonym 'o modifier = "'o \<Rightarrow> 'o \<times> bool"

text \<open>
  The loop works on \<open>data\<close>; \<open>this\<close> is the object, which takes the server's answer on success. The
  answers are the flag, the error, the object and the world.
\<close>

fun modify_loop ::
  "nat \<Rightarrow> ('o \<Rightarrow> world \<Rightarrow> (go_error + 'o) \<times> world) \<Rightarrow> ('o \<Rightarrow> world \<Rightarrow> (go_error + 'o) \<times> world) \<Rightarrow>
   'o modifier \<Rightarrow> 'o \<Rightarrow> 'o \<Rightarrow> go_error option \<Rightarrow> world \<Rightarrow> bool \<times> go_error option \<times> 'o \<times> world" where
  "modify_loop 0 update get modifier data this lasterr w = (True, lasterr, this, w)"
| "modify_loop (Suc cnt) update get modifier data this lasterr w =
     (case modifier data of
        (data, False) \<Rightarrow> (False, None, this, w)
      | (data, True) \<Rightarrow>
          (case update data w of
             (Inr modified, w) \<Rightarrow> (True, None, modified, w)
           | (Inl err, w) \<Rightarrow>
               if \<not> IsConflict (Some err) then (True, Some err, this, w)
               else (case get data w of
                       (Inl err, w) \<Rightarrow> (True, Some err, this, w)
                     | (Inr data, w) \<Rightarrow> modify_loop cnt update get modifier data this (Some err) w)))"

definition Modify ::
  "('o \<Rightarrow> world \<Rightarrow> (go_error + 'o) \<times> world) \<Rightarrow> ('o \<Rightarrow> world \<Rightarrow> (go_error + 'o) \<times> world) \<Rightarrow>
   'o modifier \<Rightarrow> 'o \<Rightarrow> world \<Rightarrow> bool \<times> go_error option \<times> 'o \<times> world" where
  "Modify update get modifier this w = modify_loop 10 update get modifier this this None w"

section \<open>What the loop does, for any kind of object\<close>

text \<open>
  The interface of the objects of one kind: an update and a read leave one effect each, and reading
  is no write.
\<close>

locale object_store =
  fixes update :: "'o \<Rightarrow> world \<Rightarrow> (go_error + 'o) \<times> world"
    and get :: "'o \<Rightarrow> world \<Rightarrow> (go_error + 'o) \<times> world"
    and written :: "'o \<Rightarrow> effect"
    and looked_up :: "'o \<Rightarrow> effect"
  assumes update_emits: "snd (update x w) = emit (written x) w"
    and get_emits: "snd (get x w) = emit (looked_up x) w"
    and get_reads: "\<not> is_write (looked_up x)"
begin

lemma modify_loop_trace:
  assumes "modify_loop cnt update get modifier data this lasterr w = (b, err, this', w')"
  shows "\<exists>t. w_trace w' = w_trace w @ t \<and> length (filter is_write t) \<le> cnt \<and>
    (\<forall>e\<in>set t. (\<exists>d. snd (modifier d) \<and> e = written (fst (modifier d))) \<or> (\<exists>d. e = looked_up d))"
  using assms
proof (induction cnt arbitrary: data lasterr w)
  case (Suc cnt)
  obtain data' md where m: "modifier data = (data', md)" by (meson surj_pair)
  obtain ans w1 where u: "update data' w = (ans, w1)" by (meson surj_pair)
  obtain ans' w2 where g: "get data' w1 = (ans', w2)" by (meson surj_pair)
  have w1: "w1 = emit (written data') w" and w2: "w2 = emit (looked_up data') w1"
    using update_emits [of data' w] get_emits [of data' w1] u g by simp_all
  have wr: "\<exists>d. snd (modifier d) \<and> written data' = written (fst (modifier d))" if md
    using m that by (intro exI [of _ data]) simp
  show ?case
  proof (cases "\<exists>e d. md \<and> ans = Inl e \<and> IsConflict (Some e) \<and> ans' = Inr d")
    case True
    then obtain e d where md and "modify_loop cnt update get modifier d this (Some e) w2 = (b, err, this', w')"
      using Suc.prems m u g by auto
    with Suc.IH obtain t where "w_trace w' = w_trace w2 @ t" "length (filter is_write t) \<le> cnt"
      "\<forall>e\<in>set t. (\<exists>d. snd (modifier d) \<and> e = written (fst (modifier d))) \<or> (\<exists>d. e = looked_up d)" by blast
    with wr [OF \<open>md\<close>] show ?thesis
      by (intro exI [of _ "[written data', looked_up data'] @ t"]) (auto simp: w1 w2 get_reads)
  next
    case False
    then have "w' = w \<or> md \<and> w' = w1 \<or> md \<and> w' = w2"
      using Suc.prems m u g by (auto split: sum.splits if_splits bool.splits)
    then show ?thesis
    proof (elim disjE conjE)
      assume md and "w' = w1"
      with wr show ?thesis by (intro exI [of _ "[written data']"]) (auto simp: w1)
    next
      assume md and "w' = w2"
      with wr show ?thesis by (intro exI [of _ "[written data', looked_up data']"]) (auto simp: w1 w2 get_reads)
    qed simp
  qed
qed simp

text \<open>
  What a modification without an error leaves, when the server keeps it: the modified object, or
  the object as it was, when there was nothing to do or somebody else had done it in the meantime.
\<close>

lemma modify_loop_result:
  assumes "\<And>d. P (fst (modifier d))" and "\<And>x w r. P x \<Longrightarrow> fst (update x w) = Inr r \<Longrightarrow> P r"
    and "\<And>d. \<not> snd (modifier d) \<Longrightarrow> fst (modifier d) = d"
    and "modify_loop cnt update get modifier data this lasterr w = (b, None, this', w')"
    and "data = this \<or> (\<exists>e. lasterr = Some e)" and "lasterr = None \<longrightarrow> 0 < cnt"
  shows "P this' \<or> \<not> b \<and> this' = this \<and> (lasterr \<noteq> None \<or> w_trace w' \<noteq> w_trace w)"
  using assms(4-6)
proof (induction cnt arbitrary: data lasterr w)
  case 0
  then show ?case by auto
next
  case (Suc cnt)
  obtain data' md where m: "modifier data = (data', md)" by (meson surj_pair)
  obtain ans w1 where u: "update data' w = (ans, w1)" by (meson surj_pair)
  obtain ans' w2 where g: "get data' w1 = (ans', w2)" by (meson surj_pair)
  have P: "P data'" using assms(1) [of data] m by simp
  show ?case
  proof (cases md)
    case False
    then have "data' = data" using assms(3) [of data] m by simp
    with Suc.prems m False P show ?thesis by auto
  next
    case True
    show ?thesis
    proof (cases ans)
      case (Inr r)
      with P u assms(2) [of data' w r] have "P r" by simp
      with Suc.prems m True Inr u show ?thesis by simp
    next
      case (Inl e)
      with Suc.prems m True u g obtain d where d: "modify_loop cnt update get modifier d this (Some e) w2 = (b, None, this', w')"
        by (auto split: if_splits sum.splits)
      have "w2 = emit (looked_up data') (emit (written data') w)"
        using update_emits [of data' w] get_emits [of data' w1] u g by simp
      then have "w_trace w' \<noteq> w_trace w" using modify_loop_trace [OF d] by auto
      moreover have "P this' \<or> \<not> b \<and> this' = this"
        using Suc.IH [OF d] by auto
      ultimately show ?thesis by blast
    qed
  qed
qed

lemma Modify_trace:
  assumes "Modify update get modifier this w = (b, err, this', w')"
  shows "\<exists>t. w_trace w' = w_trace w @ t \<and> length (filter is_write t) \<le> 10 \<and>
    (\<forall>e\<in>set t. (\<exists>d. snd (modifier d) \<and> e = written (fst (modifier d))) \<or> (\<exists>d. e = looked_up d))"
  using modify_loop_trace [OF assms [unfolded Modify_def]] .

lemma Modify_idle: "modifier this = (this, False) \<Longrightarrow> Modify update get modifier this w = (False, None, this, w)"
  by (simp add: Modify_def eval_nat_numeral)

lemma Modify_accepted:
  assumes "modifier this = (data, True)" and "fst (update data w) = Inr r"
  shows "Modify update get modifier this w = (True, None, r, emit (written data) w)"
proof -
  have "update data w = (Inr r, emit (written data) w)"
    using assms(2) update_emits [of data w] by (cases "update data w") simp
  with assms(1) show ?thesis by (simp add: Modify_def eval_nat_numeral)
qed

end

interpretation source_store: object_store "source_update a" "source_get a" UpdateSource "\<lambda>s. GetSource (s_ClusterKey s)" for a
  by unfold_locales (simp_all add: source_update_def source_get_def)

interpretation de_store: object_store "de_update a" "de_get a" UpdateEntry "\<lambda>e. GetEntry (de_ClusterKey e)" for a
  by unfold_locales (simp_all add: de_update_def de_get_def)

end
