(* ===== verification/Finalizers.thy ===== *)
theory Finalizers
  imports Sources Modification
begin

text \<open>
  Finalizers of sources, after \<open>controller/finalizer.go\<close> and \<open>resources/obj_finalizer.go\<close>, by the
  modification loop. The name of the finalizer is a parameter.
\<close>

section \<open>Finalizers\<close>

definition HasFinalizer :: "string \<Rightarrow> SourceObject \<Rightarrow> bool" where
  "HasFinalizer key obj \<longleftrightarrow> list_ex (\<lambda>name. name = key) (m_finalizers (s_meta obj))"

definition with_finalizers :: "SourceObject \<Rightarrow> string list \<Rightarrow> SourceObject" where
  "with_finalizers obj fs = obj\<lparr>s_meta := (s_meta obj)\<lparr>m_finalizers := fs\<rparr>\<rparr>"

definition add_finalizer :: "string \<Rightarrow> SourceObject modifier" where
  "add_finalizer key obj =
     (if \<not> HasFinalizer key obj then (with_finalizers obj (m_finalizers (s_meta obj) @ [key]), True)
      else (obj, False))"

text \<open>The first occurrence is removed.\<close>

definition drop_finalizer :: "string \<Rightarrow> SourceObject modifier" where
  "drop_finalizer key obj =
     (if HasFinalizer key obj then (with_finalizers obj (remove1 key (m_finalizers (s_meta obj))), True)
      else (obj, False))"

definition SetFinalizer :: "api \<Rightarrow> string \<Rightarrow> SourceObject \<Rightarrow> world \<Rightarrow> go_error option \<times> SourceObject \<times> world" where
  "SetFinalizer a key this w = snd (Modify (source_update a) (source_get a) (add_finalizer key) this w)"

definition RemoveFinalizer :: "api \<Rightarrow> string \<Rightarrow> SourceObject \<Rightarrow> world \<Rightarrow> go_error option \<times> SourceObject \<times> world" where
  "RemoveFinalizer a key this w = snd (Modify (source_update a) (source_get a) (drop_finalizer key) this w)"

section \<open>Correctness\<close>

text \<open>The server answers an update with the object it was sent, except for its version.\<close>

definition source_kept :: "api \<Rightarrow> bool" where
  "source_kept a \<longleftrightarrow>
     (\<forall>t s r. api_updateSource a t s = Inr r \<longrightarrow>
        (\<exists>v. r = s\<lparr>s_meta := (s_meta s)\<lparr>m_resourceVersion := v\<rparr>\<rparr>))"

lemma HasFinalizer_iff: "HasFinalizer key obj \<longleftrightarrow> key \<in> set (m_finalizers (s_meta obj))"
  by (auto simp: HasFinalizer_def list_ex_iff)

lemma finalizers_version:
  "m_finalizers (s_meta (s\<lparr>s_meta := (s_meta s)\<lparr>m_resourceVersion := v\<rparr>\<rparr>)) = m_finalizers (s_meta s)"
  by simp

lemma with_finalizers_sel [simp]:
  "m_finalizers (s_meta (with_finalizers s fs)) = fs" "s_ClusterKey (with_finalizers s fs) = s_ClusterKey s"
  "s_data (with_finalizers s fs) = s_data s" "s_groupKind (with_finalizers s fs) = s_groupKind s"
  by (simp_all add: with_finalizers_def s_ClusterKey_def meta_ClusterKey_def)


lemma own_version: "(s :: SourceObject)\<lparr>s_meta := (s_meta s)\<lparr>m_resourceVersion := m_resourceVersion (s_meta s)\<rparr>\<rparr> = s"
  by (cases s; cases "s_meta s") simp


text \<open>
  Removing the finalizer, when the API server accepts the update: nothing is written when the
  source does not have it; otherwise one update is sent. Afterwards the source does not have the
  finalizer, provided it had it at most once, and all its other finalizers are left.
\<close>

lemma remove_finalizer:
  assumes "api_updateSource a (w_trace w) (with_finalizers obj (remove1 key (m_finalizers (s_meta obj)))) =
      Inr (with_finalizers obj (remove1 key (m_finalizers (s_meta obj))))"
    and "distinct (m_finalizers (s_meta obj))"
  shows "\<exists>obj' w'. RemoveFinalizer a key obj w = (None, obj', w') \<and> \<not> HasFinalizer key obj' \<and>
    set (m_finalizers (s_meta obj')) = set (m_finalizers (s_meta obj)) - {key} \<and>
    w_trace w' = w_trace w @ (if HasFinalizer key obj then [UpdateSource obj'] else [])"
proof (cases "HasFinalizer key obj")
  case True
  then have "drop_finalizer key obj = (with_finalizers obj (remove1 key (m_finalizers (s_meta obj))), True)"
    by (simp add: drop_finalizer_def)
  from source_store.Modify_accepted [where modifier = "drop_finalizer key" and a = a and w = w, OF this] True assms show ?thesis
    by (simp add: RemoveFinalizer_def HasFinalizer_iff source_update_def)
next
  case False
  then have "drop_finalizer key obj = (obj, False)" by (simp add: drop_finalizer_def)
  from source_store.Modify_idle [of "drop_finalizer key" obj a w, OF this] False show ?thesis
    by (auto simp: RemoveFinalizer_def HasFinalizer_iff)
qed

end
