(* ===== verification/Slaves.thy ===== *)
theory Slaves
  imports CacheIndex Finalizers
begin

text \<open>
  The endpoints of the endpoint controller, kept in a cache by their owners
  (\<open>reconcilers/slavecache.go\<close> and \<open>resources/slavecache.go\<close> of the controller manager library): a
  source is looked up together with the endpoints created for it, of which it should have one.
\<close>

section \<open>The slave cache\<close>

type_synonym SlaveCache = "DNSLoadBalancerEndpoint SubObjectCache"

definition NewSlaveCache :: SlaveCache where
  "NewSlaveCache = NewSubObjectCache (\<lambda>o'. GetOwners_of (ep_meta o') [])"

definition setupSlaveCache :: "DNSLoadBalancerEndpoint list \<Rightarrow> SlaveCache outcome" where
  "setupSlaveCache list = Setup ep_ClusterKey NewSlaveCache list"

definition GetSlave :: "SlaveCache \<Rightarrow> ClusterObjectKey \<Rightarrow> DNSLoadBalancerEndpoint option" where
  "GetSlave this key = GetSubObject this key"

definition DeleteSlave :: "SlaveCache \<Rightarrow> ClusterObjectKey \<Rightarrow> SlaveCache" where
  "DeleteSlave this key = DeleteSubObject this key"

definition RenewSlaveObject :: "SlaveCache \<Rightarrow> DNSLoadBalancerEndpoint \<Rightarrow> (SlaveCache \<times> bool) outcome" where
  "RenewSlaveObject this obj = renewSubObject ep_ClusterKey this obj"

text \<open>
  \<open>UpdateSlave\<close> and \<open>CreateSlave\<close> send the object to the API server; the cache follows when the
  server accepts. The answers are the cache, the object, the error and the world.
\<close>

definition UpdateSlave ::
  "api \<Rightarrow> SlaveCache \<Rightarrow> DNSLoadBalancerEndpoint \<Rightarrow> world \<Rightarrow>
   (SlaveCache \<times> DNSLoadBalancerEndpoint \<times> go_error option \<times> world) outcome" where
  "UpdateSlave a this obj w =
     (case ep_Update a obj w of
        (obj, Some err, w) \<Rightarrow> Ok (this, obj, Some err, w)
      | (obj, None, w) \<Rightarrow>
          bind_outcome (renewSubObject ep_ClusterKey (set_object (ep_ClusterKey obj) obj this) obj)
            (\<lambda>(c, _). Ok (c, obj, None, w)))"

definition CreateSlave ::
  "api \<Rightarrow> (GroupKind \<Rightarrow> string) \<Rightarrow> SlaveCache \<Rightarrow> SourceObject \<Rightarrow> DNSLoadBalancerEndpoint \<Rightarrow> world \<Rightarrow>
   (SlaveCache \<times> DNSLoadBalancerEndpoint \<times> go_error option \<times> world) outcome" where
  "CreateSlave a Version this obj slave w =
     (let slave = slave\<lparr>ep_meta := fst (AddOwner Version (ep_meta slave) (m_cluster (ep_meta slave)) obj)\<rparr>
      in case ep_Create a slave w of
           (slave, Some err, w) \<Rightarrow> Ok (this, slave, Some err, w)
         | (slave, None, w) \<Rightarrow>
             bind_outcome (renewSubObject ep_ClusterKey this slave) (\<lambda>(c, _). Ok (c, slave, None, w)))"

section \<open>Access\<close>

text \<open>
  The slaves of a source. With no kinds given, the kinds of the slave resources are taken; here
  that is the kind of the endpoints.
\<close>

definition LookupSlaves ::
  "(ClusterObjectKey list \<Rightarrow> ClusterObjectKey list) \<Rightarrow> SlaveCache \<Rightarrow> ClusterObjectKey \<Rightarrow> GroupKind list \<Rightarrow>
   DNSLoadBalancerEndpoint list outcome" where
  "LookupSlaves rng this key kinds =
     (let kinds = (if kinds = [] then [LoadBalancerEndpointGroupKind] else kinds)
      in bind_outcome (GetByKey rng this key) (\<lambda>os.
           Ok (concat (map (\<lambda>o'. map (\<lambda>_. o') (filter (\<lambda>k. LoadBalancerEndpointGroupKind = k) kinds)) os))))"

text \<open>
  \<open>AssertSingleSlave\<close> keeps the youngest endpoint and deletes the others; the older of two is the
  one created before the other, of two created at the same time the one met first. Errors of the
  deletions are only logged. The kind of the objects does not matter; both controllers use it.
\<close>

definition assert_step ::
  "('o \<Rightarrow> ObjectMeta) \<Rightarrow> ('o \<Rightarrow> world \<Rightarrow> go_error option \<times> world) \<Rightarrow> 'o option \<times> world \<Rightarrow> 'o \<Rightarrow> 'o option \<times> world" where
  "assert_step meta delete = (\<lambda>(found, w) o'.
     case found of
       None \<Rightarrow> (Some o', w)
     | Some f \<Rightarrow>
         if m_creationTimestamp (meta o') < m_creationTimestamp (meta f)
         then (Some f, snd (delete o' w))
         else (Some o', snd (delete f w)))"

definition AssertSingleSlave ::
  "('o \<Rightarrow> ObjectMeta) \<Rightarrow> ('o \<Rightarrow> world \<Rightarrow> go_error option \<times> world) \<Rightarrow> 'o list \<Rightarrow> ('o \<Rightarrow> bool) option \<Rightarrow> world \<Rightarrow>
   'o option \<times> world" where
  "AssertSingleSlave meta delete slaves match w =
     foldl (assert_step meta delete) (None, w) (case match of None \<Rightarrow> slaves | Some m \<Rightarrow> filter m slaves)"

text \<open>\<open>filterKeysByClusters\<close> and the masters of a slave.\<close>

definition filterKeysByClusters ::
  "ClusterObjectKeySet \<Rightarrow> StringSet \<Rightarrow> GroupKind list \<Rightarrow> ClusterObjectKeySet" where
  "filterKeysByClusters set' clusters kinds =
     (let new = Add [] (filter (\<lambda>k. ck_cluster k \<in> set clusters) set')
      in if kinds \<noteq> [] then filter (\<lambda>k. list_ex (\<lambda>g. ck_groupKind k = g) kinds) new else new)"

definition GetMastersFor ::
  "SlaveCache \<Rightarrow> GroupKind list \<Rightarrow> StringSet \<Rightarrow> ClusterObjectKey \<Rightarrow> bool \<Rightarrow> GroupKind list \<Rightarrow> ClusterObjectKeySet" where
  "GetMastersFor this master_kinds master_clusters key all_clusters kinds =
     (let kinds = (if kinds \<noteq> [] then kinds else master_kinds);
          set' = (case GetSlave this key of
                    None \<Rightarrow> []
                  | Some o' \<Rightarrow> GetOwners_of (ep_meta o') kinds)
      in if all_clusters then set' else filterKeysByClusters set' master_clusters [])"

text \<open>Masters are put into the work queue again, unless they are being deleted.\<close>

definition requeue_step :: "api \<Rightarrow> world \<Rightarrow> ClusterObjectKey \<Rightarrow> world" where
  "requeue_step a w key =
     (let answer = api_getSource a (w_trace w) key; w = emit (GetSource key) w
      in case answer of
           Inr m \<Rightarrow> if IsDeleting (s_meta m) then w else emit (EnqueueKey key) w
         | Inl err \<Rightarrow> emit (EnqueueKey key) w)"

definition requeueMasters :: "api \<Rightarrow> ClusterObjectKeySet \<Rightarrow> world \<Rightarrow> world" where
  "requeueMasters a masters w = foldl (requeue_step a) w masters"

text \<open>The reconciler registered for the endpoints; \<open>mk\<close> and \<open>mc\<close> are kinds and clusters of masters.\<close>

definition slave_Reconcile ::
  "api \<Rightarrow> GroupKind list \<Rightarrow> StringSet \<Rightarrow> SlaveCache \<Rightarrow> DNSLoadBalancerEndpoint \<Rightarrow> world \<Rightarrow>
   (SlaveCache \<times> Status \<times> world) outcome" where
  "slave_Reconcile a mk mc this obj w =
     bind_outcome (RenewSlaveObject this obj) (\<lambda>(c, _).
       Ok (c, RSucceeded, requeueMasters a (GetMastersFor c mk mc (ep_ClusterKey obj) False []) w))"

definition slave_Deleted ::
  "api \<Rightarrow> GroupKind list \<Rightarrow> StringSet \<Rightarrow> SlaveCache \<Rightarrow> ClusterObjectKey \<Rightarrow> world \<Rightarrow> SlaveCache \<times> Status \<times> world" where
  "slave_Deleted a mk mc this key w =
     (let masters = GetMastersFor this mk mc key False []
      in (DeleteSlave this key, RSucceeded, requeueMasters a masters w))"

section \<open>One slave is kept\<close>

lemma LookupSlaves_all:
  "GetByKey rng c key = Ok obs \<Longrightarrow> LookupSlaves rng c key [] = Ok obs"
  by (simp add: LookupSlaves_def Let_def)

lemma assert_fold:
  assumes "foldl (assert_step meta delete) (Some f, w) os = (found, w')"
    and "\<And>x w. w_trace (snd (delete x w)) = w_trace w @ [gone x]"
  shows "\<exists>e t. found = Some e \<and> e \<in> insert f (set os) \<and>
    (\<forall>o'\<in>insert f (set os). m_creationTimestamp (meta o') \<le> m_creationTimestamp (meta e)) \<and>
    w_trace w' = w_trace w @ map gone t \<and> mset (e # t) = mset (f # os)"
  using assms(1)
proof (induction os arbitrary: f w)
  case (Cons o' os)
  let ?older = "m_creationTimestamp (meta o') < m_creationTimestamp (meta f)"
  let ?keep = "if ?older then f else o'" and ?drop = "if ?older then o' else f"
  have step: "assert_step meta delete (Some f, w) o' = (Some ?keep, snd (delete ?drop w))"
    by (simp add: assert_step_def)
  with Cons.prems have "foldl (assert_step meta delete) (Some ?keep, snd (delete ?drop w)) os = (found, w')"
    by simp
  from Cons.IH [OF this] obtain e t where e: "found = Some e" "e \<in> insert ?keep (set os)"
    "\<forall>x\<in>insert ?keep (set os). m_creationTimestamp (meta x) \<le> m_creationTimestamp (meta e)"
    "w_trace w' = w_trace w @ map gone (?drop # t)"
    "mset (e # t) = mset (?keep # os)"
    unfolding assms(2) by (auto split: if_splits)
  have ms: "mset (e # ?drop # t) = mset (f # o' # os)"
  proof -
    have "mset (e # ?drop # t) = add_mset ?drop (mset (e # t))" by simp
    also have "\<dots> = add_mset ?drop (mset (?keep # os))" using e(5) by simp
    also have "\<dots> = mset (f # o' # os)" by simp
    finally show ?thesis .
  qed
  have young: "m_creationTimestamp (meta ?drop) \<le> m_creationTimestamp (meta ?keep)" by simp
  have "m_creationTimestamp (meta ?keep) \<le> m_creationTimestamp (meta e)" using e(3) by simp
  then have "\<forall>x\<in>insert f (set (o' # os)). m_creationTimestamp (meta x) \<le> m_creationTimestamp (meta e)"
    using e(3) young by (auto split: if_splits)
  moreover have "e \<in> insert f (set (o' # os))" using e(2) by (auto split: if_splits)
  ultimately show ?case using e(1,4) ms by blast
qed simp

text \<open>A run on at least one object: one is kept, a youngest one, the others are deleted.\<close>

lemma assert_single:
  assumes "AssertSingleSlave meta delete slaves match w = (found, w')"
    and "\<And>x w. w_trace (snd (delete x w)) = w_trace w @ [gone x]"
    and "(case match of None \<Rightarrow> slaves | Some m \<Rightarrow> filter m slaves) = ms" and "ms \<noteq> []"
  shows "\<exists>e rest. found = Some e \<and> mset ms = mset (e # rest) \<and>
    (\<forall>o'\<in>set ms. m_creationTimestamp (meta o') \<le> m_creationTimestamp (meta e)) \<and>
    w_trace w' = w_trace w @ map gone rest"
proof -
  obtain f os where s: "ms = f # os" using assms(4) by (cases ms) auto
  then have "foldl (assert_step meta delete) (Some f, w) os = (found, w')"
    using assms(1,3) by (simp add: AssertSingleSlave_def assert_step_def)
  from assert_fold [OF this assms(2)] obtain e t where "found = Some e"
    "\<forall>o'\<in>insert f (set os). m_creationTimestamp (meta o') \<le> m_creationTimestamp (meta e)"
    "w_trace w' = w_trace w @ map gone t" "mset (e # t) = mset (f # os)"
    by blast
  with s show ?thesis by (intro exI [of _ e] exI [of _ t]) simp
qed

text \<open>
  C29. Of several endpoints found for one source exactly one is kept: a youngest one. Each of the
  others is deleted once, in whatever order they were found, and nothing else is written.
\<close>

theorem single_slave_kept:
  assumes "AssertSingleSlave ep_meta (ep_Delete a) slaves None w = (found, w')" and "slaves \<noteq> []"
  shows "\<exists>e rest. found = Some e \<and> mset slaves = mset (e # rest) \<and>
    (\<forall>o'\<in>set slaves. m_creationTimestamp (ep_meta o') \<le> m_creationTimestamp (ep_meta e)) \<and>
    w_trace w' = w_trace w @ map (\<lambda>o'. DeleteEP (ep_ClusterKey o')) rest"
  using assert_single [where gone = "\<lambda>o'. DeleteEP (ep_ClusterKey o')" and match = None, OF assms(1)] assms(2) by simp

theorem single_slave_kept_witness:
  "\<exists>e rest w'. AssertSingleSlave ep_meta (ep_Delete sample_api) [sample_ep ''ep1'' ''a'', sample_ep ''ep2'' ''b''] None init_world = (Some e, w') \<and>
     mset [sample_ep ''ep1'' ''a'', sample_ep ''ep2'' ''b''] = mset (e # rest)"
proof -
  obtain found w' where r: "AssertSingleSlave ep_meta (ep_Delete sample_api) [sample_ep ''ep1'' ''a'', sample_ep ''ep2'' ''b''] None init_world =
      (found, w')" by (meson surj_pair)
  from single_slave_kept [OF r] show ?thesis using r by blast
qed

end
