(* ===== verification/DnsController.thy ===== *)
theory DnsController
  imports DnsSource Slaves
begin

text \<open>
  The reconciler of the DNS source controller (\<open>dns/source/reconciler.go\<close> and \<open>dnsinfo.go\<close> of the external
  DNS management), with load balancers as its sources: it asks the DNS source which names and targets to
  publish for a load balancer, and creates, updates and deletes the DNS entries that say so. The entries of
  a load balancer are found by their owner in a cache.
\<close>

section \<open>Configuration\<close>

text \<open>\<open>dns/utils/class.go\<close>: the classes of objects a controller is responsible for.\<close>

definition DEFAULT_CLASS :: string where
  "DEFAULT_CLASS = ''gardendns''"

definition CLASS_ANNOTATION :: string where
  "CLASS_ANNOTATION = ''dns.gardener.cloud/class''"

record Classes =
  kl_classes :: StringSet
  kl_main :: string

definition NewClasses :: "string \<Rightarrow> Classes" where
  "NewClasses classes =
     (if classes = '''' then \<lparr>kl_classes = [DEFAULT_CLASS], kl_main = DEFAULT_CLASS\<rparr>
      else \<lparr>kl_classes = NewStringSet (map (\<lambda>p. ToLower (TrimSpace p)) (Split CHR '','' classes)),
            kl_main = ToLower (TrimSpace (case split_first CHR '','' classes of None \<Rightarrow> classes | Some (p, _) \<Rightarrow> p))\<rparr>)"

definition annotation :: "ObjectMeta \<Rightarrow> string \<Rightarrow> string" where
  "annotation m key = (case m_annotations m key of None \<Rightarrow> '''' | Some v \<Rightarrow> v)"

definition IsResponsibleFor :: "Classes \<Rightarrow> ObjectMeta \<Rightarrow> bool" where
  "IsResponsibleFor this m =
     (let oclass = annotation m CLASS_ANNOTATION
      in (if oclass = '''' then DEFAULT_CLASS else oclass) \<in> set (kl_classes this))"

text \<open>The finalizers of \<open>dns/utils/finalizer.go\<close>: one name per class; the main one is set, the others are removed.\<close>

definition finalizer :: "string \<Rightarrow> string \<Rightarrow> string" where
  "finalizer base class = (if class = DEFAULT_CLASS then base else class @ ''.'' @ base)"

fun remove_finalizers :: "api \<Rightarrow> string list \<Rightarrow> SourceObject \<Rightarrow> world \<Rightarrow> go_error option \<times> SourceObject \<times> world" where
  "remove_finalizers a [] obj w = (None, obj, w)"
| "remove_finalizers a (name # names) obj w =
     (case RemoveFinalizer a name obj w of
        (Some err, obj, w) \<Rightarrow> (Some err, obj, w)
      | (None, obj, w) \<Rightarrow> remove_finalizers a names obj w)"

text \<open>
  The reconciler: its options, the id of the cluster of the entries, and the version of a kind the cluster of
  the load balancers serves.
\<close>

record sourceReconciler =
  sc_excluded :: StringSet
  sc_classes :: Classes
  sc_targetclass :: string
  sc_namespace :: string
  sc_nameprefix :: string
  sc_finalizer :: string
  sc_cluster :: string
  sc_Version :: "GroupKind \<Rightarrow> string"

definition NewSourceReconciler ::
  "(string \<Rightarrow> string) \<Rightarrow> string list \<Rightarrow> string \<Rightarrow> string \<Rightarrow> string \<Rightarrow> (GroupKind \<Rightarrow> string) \<Rightarrow> sourceReconciler" where
  "NewSourceReconciler option excluded finalizer_name main_cluster target_cluster Version =
     (let classes = NewClasses (option ''dns-class''); targetclass = option ''dns-target-class'';
          same = main_cluster = target_cluster
      in \<lparr>sc_excluded = NewStringSet excluded, sc_classes = classes,
          sc_targetclass =
            (if targetclass = '''' \<and> DEFAULT_CLASS \<notin> set (kl_classes classes) \<and> kl_main classes \<noteq> DEFAULT_CLASS
             then kl_main classes else targetclass),
          sc_namespace = (if same then '''' else option ''target-namespace''),
          sc_nameprefix = (if same then '''' else option ''target-name-prefix''),
          sc_finalizer = finalizer_name, sc_cluster = target_cluster, sc_Version = Version\<rparr>)"

text \<open>With one class the default finalizer of the controller library is used, under the name of that class.\<close>

definition dns_SetFinalizer ::
  "api \<Rightarrow> (string list \<Rightarrow> string list) \<Rightarrow> sourceReconciler \<Rightarrow> SourceObject \<Rightarrow> world \<Rightarrow> go_error option \<times> SourceObject \<times> world" where
  "dns_SetFinalizer a rng this obj w =
     (let name = finalizer (sc_finalizer this); classes = sc_classes this
      in case SetFinalizer a (name (kl_main classes)) obj w of
           (Some err, obj, w) \<Rightarrow> (Some err, obj, w)
         | (None, obj, w) \<Rightarrow>
             if length (kl_classes classes) = 1 then (None, obj, w)
             else remove_finalizers a (map name (filter (\<lambda>c. c \<noteq> kl_main classes) (rng (kl_classes classes)))) obj w)"

definition dns_RemoveFinalizer ::
  "api \<Rightarrow> (string list \<Rightarrow> string list) \<Rightarrow> sourceReconciler \<Rightarrow> SourceObject \<Rightarrow> world \<Rightarrow> go_error option \<times> SourceObject \<times> world" where
  "dns_RemoveFinalizer a rng this obj w =
     (let name = finalizer (sc_finalizer this); classes = sc_classes this
      in if length (kl_classes classes) = 1 then RemoveFinalizer a (name (kl_main classes)) obj w
         else remove_finalizers a (map name (rng (kl_classes classes))) obj w)"

section \<open>What to publish\<close>

definition exclude :: "sourceReconciler \<Rightarrow> string \<Rightarrow> bool" where
  "exclude this dns \<longleftrightarrow>
     dns \<in> set (sc_excluded this) \<or>
     list_ex (\<lambda>d. take 2 d = ''*.'' \<and> (case split_first CHR ''.'' dns of None \<Rightarrow> False | Some (_, rest) \<Rightarrow> drop 2 d = rest))
       (sc_excluded this)"

text \<open>\<open>strconv.ParseInt\<close> in base 10 for 64 bits: digits after an optional sign, read from the left.\<close>

definition parse_error :: "string \<Rightarrow> string \<Rightarrow> go_error" where
  "parse_error s problem = OtherError (''strconv.ParseInt: parsing '' @ quoted s @ '': '' @ problem)"

fun parse_digits :: "string \<Rightarrow> int \<Rightarrow> string \<Rightarrow> go_error + int" where
  "parse_digits s n [] = Inr n"
| "parse_digits s n (c # cs) =
     (let v = of_char c :: nat
      in if v < 48 \<or> 57 < v then Inl (parse_error s ''invalid syntax'')
         else let m = 10 * n + int (v - 48)
              in if 2 ^ 64 \<le> m then Inl (parse_error s ''value out of range'') else parse_digits s m cs)"

definition ParseInt :: "string \<Rightarrow> go_error + int" where
  "ParseInt s =
     (let negative = (s \<noteq> '''' \<and> hd s = CHR ''-''); signed = (s \<noteq> '''' \<and> (hd s = CHR ''+'' \<or> negative));
          digits = (if signed then tl s else s)
      in if digits = '''' then Inl (parse_error s ''invalid syntax'')
         else case parse_digits s 0 digits of
                Inl err \<Rightarrow> Inl err
              | Inr n \<Rightarrow>
                  if negative then (if 2 ^ 63 < n then Inl (parse_error s ''value out of range'') else Inr (- n))
                  else (if 2 ^ 63 \<le> n then Inl (parse_error s ''value out of range'') else Inr n))"

text \<open>A number the source did not give, from an annotation; zero is no number.\<close>

definition annotated_number :: "ObjectMeta \<Rightarrow> string \<Rightarrow> string \<Rightarrow> int option \<Rightarrow> go_error + int option" where
  "annotated_number m key problem old =
     (case old of
        Some n \<Rightarrow> Inr (Some n)
      | None \<Rightarrow>
          let v = annotation m key
          in if v = '''' then Inr None
             else case ParseInt v of
                    Inl err \<Rightarrow> Inl (OtherError (problem @ Error err))
                  | Inr n \<Rightarrow> Inr (if n \<noteq> 0 then Some n else None))"

definition annotated_info :: "ObjectMeta \<Rightarrow> DNSInfo \<Rightarrow> DNSInfo \<times> go_error option" where
  "annotated_info m info =
     (case annotated_number m ''dns.gardener.cloud/ttl'' ''invalid TTL: '' (di_TTL info) of
        Inl err \<Rightarrow> (info, Some err)
      | Inr ttl \<Rightarrow>
          let info = info\<lparr>di_TTL := ttl\<rparr>
          in case annotated_number m ''dns.gardener.cloud/cname-lookup-interval'' ''invalid check Interval: '' (di_Interval info) of
               Inl err \<Rightarrow> (info, Some err)
             | Inr interval \<Rightarrow> (info\<lparr>di_Interval := interval\<rparr>, None))"

definition annotated_names :: "ObjectMeta \<Rightarrow> StringSet" where
  "annotated_names m =
     NewStringSet (filter (\<lambda>e. e \<noteq> '''') (map TrimSpace (Split CHR '','' (annotation m ''dns.gardener.cloud/dnsnames''))))"

text \<open>
  What the calls need from outside: the answers of the server, the network, whether debug messages are wanted, the
  orders in which maps and sets are visited, and the two instants read from the clock.
\<close>

record dns_env =
  ev_api :: api
  ev_net :: net
  ev_debug :: bool
  ev_keys :: "ClusterObjectKey list \<Rightarrow> ClusterObjectKey list"
  ev_strings :: "string list \<Rightarrow> string list"
  ev_eps :: "ep_map \<Rightarrow> ep_map"
  ev_now :: time
  ev_later :: time

text \<open>The answer is the info, if there is one, the error, if there is one, and the world.\<close>

definition getDNSInfo ::
  "dns_env \<Rightarrow> sourceReconciler \<Rightarrow> DNSLBSource \<Rightarrow> DNSLoadBalancer \<Rightarrow> DNSCurrentState \<Rightarrow> world \<Rightarrow>
   ((DNSInfo option \<times> go_error option) \<times> world) outcome" where
  "getDNSInfo env this s lb current w =
     (if \<not> IsResponsibleFor (sc_classes this) (lb_meta lb) then Ok ((None, None), w)
      else bind_outcome
        (GetDNSInfo (ev_api env) (ev_net env) (ev_debug env) (ev_keys env) (ev_now env) s lb
           (current\<lparr>cs_AnnotatedNames := annotated_names (lb_meta lb)\<rparr>) w)
        (\<lambda>(r, w). case r of
           Inl err \<Rightarrow> Ok ((None, Some err), w)
         | Inr info \<Rightarrow>
             let (info, err) = annotated_info (lb_meta lb) (info\<lparr>di_Names := filter (\<lambda>d. \<not> exclude this d) (di_Names info)\<rparr>)
             in Ok ((Some info, err), w)))"

section \<open>DNS entries\<close>

text \<open>The state of the reconciler: the cache of the entries and the state of its source.\<close>

type_synonym EntryCache = "DNSEntry SubObjectCache"

record dns_state =
  dr_slaves :: EntryCache
  dr_source :: DNSLBSource

definition NewEntryCache :: EntryCache where
  "NewEntryCache = NewSubObjectCache (\<lambda>e. GetOwners_of (de_meta e) [])"

definition setupEntryCache :: "DNSEntry list \<Rightarrow> EntryCache outcome" where
  "setupEntryCache list = Setup de_ClusterKey NewEntryCache list"

definition dns_Setup :: "DNSEntry list \<Rightarrow> DNSLoadBalancerEndpoint list \<Rightarrow> dns_state \<Rightarrow> dns_state outcome" where
  "dns_Setup entries eps st =
     bind_outcome (setupEntryCache entries) (\<lambda>c.
       bind_outcome (dls_Setup (dr_source st) eps) (\<lambda>s. Ok \<lparr>dr_slaves = c, dr_source = s\<rparr>))"

text \<open>A load balancer as an object of which only kind and metadata matter: it gets finalizers and owns entries.\<close>

definition lb_object :: "DNSLoadBalancer \<Rightarrow> SourceObject" where
  "lb_object lb = \<lparr>s_groupKind = LoadBalancerGroupKind, s_meta = lb_meta lb, s_data = OtherData\<rparr>"

definition DNSNameMatcher :: "string \<Rightarrow> DNSEntry \<Rightarrow> bool" where
  "DNSNameMatcher dnsname e \<longleftrightarrow> des_DNSName (de_spec e) = dnsname"

definition CreateEntrySlave ::
  "api \<Rightarrow> (GroupKind \<Rightarrow> string) \<Rightarrow> EntryCache \<Rightarrow> SourceObject \<Rightarrow> DNSEntry \<Rightarrow> world \<Rightarrow>
   (EntryCache \<times> DNSEntry \<times> go_error option \<times> world) outcome" where
  "CreateEntrySlave a Version this obj e w =
     (let e = e\<lparr>de_meta := fst (AddOwner Version (de_meta e) (m_cluster (de_meta e)) obj)\<rparr>
      in case de_Create a e w of
           (e, Some err, w) \<Rightarrow> Ok (this, e, Some err, w)
         | (e, None, w) \<Rightarrow> bind_outcome (renewSubObject de_ClusterKey this e) (\<lambda>(c, _). Ok (c, e, None, w)))"

text \<open>
  Changes to the entries pass the state along: the cache, the feedback of the source, if it gave one, and the
  world.
\<close>

record dns_run =
  rn_slaves :: EntryCache
  rn_feedback :: "DNSDone option"
  rn_world :: world

definition notify :: "dns_env \<Rightarrow> feedback_call \<Rightarrow> dns_run \<Rightarrow> dns_run" where
  "notify env call r =
     (case rn_feedback r of
        None \<Rightarrow> r
      | Some d \<Rightarrow> let (d, w) = feedback (ev_api env) (ev_eps env) call (d, rn_world r)
                  in r\<lparr>rn_feedback := Some d, rn_world := w\<rparr>)"

definition new_entry :: "dns_env \<Rightarrow> sourceReconciler \<Rightarrow> SourceObject \<Rightarrow> DNSInfo \<Rightarrow> string \<Rightarrow> DNSEntry" where
  "new_entry env this obj info dns =
     \<lparr>de_meta =
        \<lparr>m_cluster = sc_cluster this,
         m_namespace = (if sc_namespace this = '''' then m_namespace (s_meta obj) else sc_namespace this),
         m_name = '''',
         m_generateName = ToLower (sc_nameprefix this @ m_name (s_meta obj) @ ''-'' @ gk_kind (s_groupKind obj) @ ''-''),
         m_uid = '''', m_resourceVersion = '''', m_labels = None,
         m_annotations = (if sc_targetclass this \<noteq> '''' then [CLASS_ANNOTATION \<mapsto> sc_targetclass this] else Map.empty),
         m_finalizers = [], m_ownerReferences = [], m_creationTimestamp = 0, m_deletionTimestamp = None\<rparr>,
      de_spec =
        \<lparr>des_DNSName = dns, des_OwnerId = None, des_TTL = di_TTL info, des_CNameLookupInterval = None, des_Text = [],
         des_Targets = ev_strings env (di_Targets info)\<rparr>,
      de_status =
        \<lparr>det_ObservedGeneration = 0, det_State = '''', det_Message = None, det_ProviderType = None, det_Provider = None,
         det_Zone = None, det_TTL = None, det_Targets = []\<rparr>\<rparr>"

definition createEntryFor ::
  "dns_env \<Rightarrow> sourceReconciler \<Rightarrow> SourceObject \<Rightarrow> DNSInfo \<Rightarrow> string \<Rightarrow> dns_run \<Rightarrow> (go_error option \<times> dns_run) outcome" where
  "createEntryFor env this obj info dns r =
     bind_outcome (CreateEntrySlave (ev_api env) (sc_Version this) (rn_slaves r) obj (new_entry env this obj info dns) (rn_world r))
       (\<lambda>(c, e, err, w).
          let r = r\<lparr>rn_slaves := c, rn_world := w\<rparr>
          in case err of
               Some er \<Rightarrow> Ok (Some er, notify env (Failed dns er) r)
             | None \<Rightarrow>
                 let w = s_Event obj EventTypeNormal ''reconcile''
                       (''created dns entry object '' @ ObjectName_String (meta_ObjectName (de_meta e))) (rn_world r)
                 in Ok (None, notify env (Pending dns '''') (r\<lparr>rn_world := w\<rparr>)))"

definition deleteEntry :: "dns_env \<Rightarrow> SourceObject \<Rightarrow> DNSEntry \<Rightarrow> world \<Rightarrow> go_error option \<times> world" where
  "deleteEntry env obj e w =
     (case de_Delete (ev_api env) e w of
        (None, w) \<Rightarrow>
          (None, s_Event obj EventTypeNormal ''reconcile''
             (''deleted dns entry object '' @ ObjectName_String (meta_ObjectName (de_meta e))) w)
      | (Some err, w) \<Rightarrow> (if IsNotFound (Some err) then None else Some err, w))"

text \<open>
  The modification of an entry. All its annotations are replaced, by the class or by none.
\<close>

definition AssureInt64PtrPtr :: "bool \<Rightarrow> int option \<Rightarrow> int option \<Rightarrow> int option \<times> bool" where
  "AssureInt64PtrPtr md old ptr =
     (case ptr of
        Some v \<Rightarrow> if old = None \<or> the old \<noteq> v then (Some v, True) else (old, md)
      | None \<Rightarrow> if old \<noteq> None then (None, True) else (old, md))"

definition AssureStringSet :: "(string list \<Rightarrow> string list) \<Rightarrow> bool \<Rightarrow> string list \<Rightarrow> StringSet \<Rightarrow> string list \<times> bool" where
  "AssureStringSet rng md old value = (if \<not> Equals value (NewStringSet old) then (rng value, True) else (old, md))"

definition entry_modifier :: "dns_env \<Rightarrow> sourceReconciler \<Rightarrow> DNSInfo \<Rightarrow> DNSEntry modifier" where
  "entry_modifier env this info e =
     (let spec = de_spec e;
          annos = m_annotations (de_meta e);
          (annos, m0) =
            (if sc_targetclass this \<noteq> ''''
             then (let wanted = [CLASS_ANNOTATION \<mapsto> sc_targetclass this]
                   in if annos \<noteq> wanted then (wanted, True) else (annos, False))
             else if annos \<noteq> Map.empty then (Map.empty, True) else (annos, False));
          (ttl, m1) = AssureInt64PtrPtr m0 (des_TTL spec) (di_TTL info);
          (interval, m2) = AssureInt64PtrPtr m1 (des_CNameLookupInterval spec) (di_Interval info);
          (targets, m3) = AssureStringSet (ev_strings env) m2 (des_Targets spec) (di_Targets info)
      in (e\<lparr>de_meta := (de_meta e)\<lparr>m_annotations := annos\<rparr>,
            de_spec := spec\<lparr>des_TTL := ttl, des_CNameLookupInterval := interval, des_Targets := targets\<rparr>\<rparr>, m3))"

text \<open>The entry is the one the cache holds, so the cache shows the answer of the server.\<close>

definition updateEntry ::
  "dns_env \<Rightarrow> sourceReconciler \<Rightarrow> DNSInfo \<Rightarrow> DNSEntry \<Rightarrow> dns_run \<Rightarrow> (bool \<times> go_error option) \<times> dns_run" where
  "updateEntry env this info e r =
     (case Modify (de_update (ev_api env)) (de_get (ev_api env)) (entry_modifier env this info) e (rn_world r) of
        (md, err, e', w) \<Rightarrow>
          ((md, err), r\<lparr>rn_slaves := set_object (de_ClusterKey e) e' (rn_slaves r), rn_world := w\<rparr>))"

end
