(* ===== verification/DnsReconciler.thy ===== *)
theory DnsReconciler
  imports DnsController
begin

text \<open>
  The steps of the reconciler of the DNS source controller: what a reconciliation, a deletion and a vanished
  load balancer do to the DNS entries. Loops over entries go on after an error and collect it.
\<close>

section \<open>What is published now\<close>

text \<open>
  For every name that has entries one entry is kept. The names come from the entries, so one is always found; nil
  would be dereferenced.
\<close>

definition entry_name :: "DNSEntry \<Rightarrow> string" where
  "entry_name e = des_DNSName (de_spec e)"

definition current_step ::
  "dns_env \<Rightarrow> DNSEntry list \<Rightarrow> DNSCurrentState \<times> world \<Rightarrow> string \<Rightarrow> (DNSCurrentState \<times> world) outcome" where
  "current_step env slaves = (\<lambda>(found, w) n.
     case AssertSingleSlave de_meta (de_Delete (ev_api env)) slaves (Some (DNSNameMatcher n)) w of
       (None, w) \<Rightarrow> Panic
     | (Some e, w) \<Rightarrow>
         Ok (found\<lparr>cs_Names := (cs_Names found)(n \<mapsto>
                     \<lparr>ds_State = det_State (de_status e), ds_Message = det_Message (de_status e),
                      ds_CreationTimestamp = m_creationTimestamp (de_meta e)\<rparr>),
                   cs_Targets := Add (cs_Targets found) (des_Targets (de_spec e))\<rparr>, w))"

definition current_state :: "dns_env \<Rightarrow> DNSEntry list \<Rightarrow> world \<Rightarrow> (DNSCurrentState \<times> world) outcome" where
  "current_state env slaves w =
     for_each (current_step env slaves) (\<lparr>cs_Names = Map.empty, cs_Targets = [], cs_AnnotatedNames = []\<rparr>, w)
       (ev_strings env (NewStringSet (map entry_name slaves)))"

section \<open>Writing the entries\<close>

definition create_step ::
  "dns_env \<Rightarrow> sourceReconciler \<Rightarrow> SourceObject \<Rightarrow> DNSInfo \<Rightarrow> go_error list \<times> dns_run \<Rightarrow> string \<Rightarrow>
   (go_error list \<times> dns_run) outcome" where
  "create_step env this obj info = (\<lambda>(errs, r) dns.
     bind_outcome (createEntryFor env this obj info dns r) (\<lambda>(err, r).
       Ok (case err of
             None \<Rightarrow> errs
           | Some e \<Rightarrow> errs @ [OtherError (''cannot create dns entry object for '' @ dns @ '': '' @ Error e @ '' '')], r)))"

definition delete_entry_step ::
  "dns_env \<Rightarrow> SourceObject \<Rightarrow> go_error list \<times> dns_run \<Rightarrow> DNSEntry \<Rightarrow> go_error list \<times> dns_run" where
  "delete_entry_step env obj = (\<lambda>(errs, r) e.
     case deleteEntry env obj e (rn_world r) of
       (err, w) \<Rightarrow>
         (case err of
            None \<Rightarrow> errs
          | Some er \<Rightarrow> errs @ [OtherError (''cannot remove dns entry object '' @ quoted (asString (de_ClusterKey e)) @ ''('' @
              entry_name e @ ''): '' @ Error er)], r\<lparr>rn_world := w\<rparr>))"

definition update_step ::
  "dns_env \<Rightarrow> sourceReconciler \<Rightarrow> DNSInfo \<Rightarrow> (string \<rightharpoonup> bool) \<times> go_error list \<times> dns_run \<Rightarrow> DNSEntry \<Rightarrow>
   (string \<rightharpoonup> bool) \<times> go_error list \<times> dns_run" where
  "update_step env this info = (\<lambda>(modified, errs, r) e.
     case updateEntry env this info e r of
       ((md, err), r) \<Rightarrow>
         (modified(entry_name e \<mapsto> md),
          (case err of
             None \<Rightarrow> errs
           | Some er \<Rightarrow> errs @ [OtherError (''cannot update dns entry object '' @ quoted (asString (de_ClusterKey e)) @ ''('' @
               entry_name e @ ''): '' @ Error er)]), r))"

text \<open>The missing names, the entries of names that are not wanted any more, and the entries to keep.\<close>

definition missing_names :: "dns_env \<Rightarrow> DNSEntry list \<Rightarrow> DNSInfo \<Rightarrow> string list" where
  "missing_names env slaves info = ev_strings env (filter (\<lambda>d. \<not> list_ex (\<lambda>s. entry_name s = d) slaves) (di_Names info))"

definition obsolete_entries :: "DNSEntry list \<Rightarrow> DNSInfo \<Rightarrow> DNSEntry list" where
  "obsolete_entries slaves info = filter (\<lambda>s. entry_name s \<notin> set (di_Names info)) slaves"

definition current_entries :: "DNSEntry list \<Rightarrow> DNSInfo \<Rightarrow> DNSEntry list" where
  "current_entries slaves info = filter (\<lambda>s. entry_name s \<in> set (di_Names info)) slaves"

definition write_entries ::
  "dns_env \<Rightarrow> sourceReconciler \<Rightarrow> SourceObject \<Rightarrow> DNSEntry list \<Rightarrow> DNSInfo \<Rightarrow> dns_run \<Rightarrow>
   ((string \<rightharpoonup> bool) \<times> go_error list \<times> dns_run) outcome" where
  "write_entries env this obj slaves info r =
     bind_outcome
       (if di_Targets info = [] then Ok ([], r)
        else for_each (create_step env this obj info) ([], r) (missing_names env slaves info))
       (\<lambda>s. let (errs, r) = foldl (delete_entry_step env obj) s (obsolete_entries slaves info)
            in Ok (foldl (update_step env this info) (Map.empty, errs, r) (current_entries slaves info)))"

section \<open>Feedback\<close>

text \<open>
  The states of the entries are told to the source, for entries that were not just changed. An entry without a state
  is pending when it is older than two minutes.
\<close>

definition STATE_READY :: string where
  "STATE_READY = ''Ready''"

definition with_message :: "string \<Rightarrow> string option \<Rightarrow> string" where
  "with_message msg m = (case m of None \<Rightarrow> msg | Some s \<Rightarrow> msg @ '': '' @ s)"

definition entry_call :: "time \<Rightarrow> string \<Rightarrow> DNSState \<Rightarrow> feedback_call option" where
  "entry_call threshold n s =
     (if ds_State s = STATE_ERROR then Some (Failed n (OtherError (with_message ''errornous dns entry'' (ds_Message s))))
      else if ds_State s = STATE_INVALID then Some (Invalid n (OtherError (with_message ''dns entry invalid'' (ds_Message s))))
      else if ds_State s = STATE_PENDING then Some (Pending n (with_message ''dns entry pending'' (ds_Message s)))
      else if ds_State s = STATE_READY
      then Some (Ready n (case ds_Message s of None \<Rightarrow> ''dns entry ready'' | Some m \<Rightarrow> m))
      else if ds_CreationTimestamp s < threshold then Some (Pending n ''no dns controller running?'') else None)"

definition report_step ::
  "dns_env \<Rightarrow> DNSCurrentState \<Rightarrow> (string \<rightharpoonup> bool) \<Rightarrow> dns_run \<Rightarrow> string \<Rightarrow> dns_run" where
  "report_step env found modified r n =
     (case cs_Names found n of
        None \<Rightarrow> r
      | Some s \<Rightarrow>
          if modified n = Some True then r
          else case entry_call (ev_later env - 2 * Minute) n s of None \<Rightarrow> r | Some call \<Rightarrow> notify env call r)"

definition conclude ::
  "dns_env \<Rightarrow> DNSCurrentState \<Rightarrow> DNSInfo \<Rightarrow> (string \<rightharpoonup> bool) \<times> go_error list \<times> dns_run \<Rightarrow> Status \<times> dns_run" where
  "conclude env found info = (\<lambda>(modified, errs, r).
     if errs \<noteq> []
     then (let msg = Join '', '' (map Error errs)
           in (Delay (Some (OtherError (''reconcile failed: '' @ msg))), notify env (Failed '''' (OtherError msg)) r))
     else (if di_Names info = [] then Stop RSucceeded else RSucceeded,
           notify env Succeeded (foldl (report_step env found modified) r (ev_strings env (di_Names info)))))"

section \<open>The reconciler\<close>

definition requireFinalizer :: "sourceReconciler \<Rightarrow> DNSLoadBalancer \<Rightarrow> bool" where
  "requireFinalizer this lb \<longleftrightarrow> m_cluster (lb_meta lb) \<noteq> sc_cluster this"

definition publish ::
  "dns_env \<Rightarrow> sourceReconciler \<Rightarrow> dns_state \<Rightarrow> DNSLoadBalancer \<Rightarrow> DNSEntry list \<Rightarrow> DNSCurrentState \<Rightarrow> DNSInfo \<Rightarrow> world \<Rightarrow>
   (dns_state \<times> Status \<times> world) outcome" where
  "publish env this st lb slaves found info w =
     (let wanted = (di_Names info \<noteq> [] \<and> requireFinalizer this lb)
      in case (if wanted then dns_SetFinalizer else dns_RemoveFinalizer) (ev_api env) (ev_strings env) this (lb_object lb) w of
           (Some err, _, w) \<Rightarrow>
             Ok (st, Delay (Some (OtherError ((if wanted then ''cannot set finalizer: '' else ''cannot remove finalizer: '') @ Error err))), w)
         | (None, obj, w) \<Rightarrow>
             bind_outcome (write_entries env this obj slaves info
                 \<lparr>rn_slaves = dr_slaves st, rn_feedback = di_Feedback info, rn_world = w\<rparr>) (\<lambda>s.
               let (status, r) = conclude env found info s
               in Ok (st\<lparr>dr_slaves := rn_slaves r\<rparr>, status, rn_world r)))"

definition dns_Reconcile ::
  "dns_env \<Rightarrow> sourceReconciler \<Rightarrow> dns_state \<Rightarrow> DNSLoadBalancer \<Rightarrow> world \<Rightarrow> (dns_state \<times> Status \<times> world) outcome" where
  "dns_Reconcile env this st lb w =
     bind_outcome (GetByKey (ev_keys env) (dr_slaves st) (lb_ClusterKey lb)) (\<lambda>slaves.
       bind_outcome (current_state env slaves w) (\<lambda>(found, w).
         bind_outcome (getDNSInfo env this (dr_source st) lb found w) (\<lambda>((info, err), w).
           let w = (case err of None \<Rightarrow> w | Some e \<Rightarrow> lb_Event lb EventTypeWarning ''reconcile'' (Error e) w)
           in case info of
                None \<Rightarrow> Ok (st, (case err of None \<Rightarrow> Stop RSucceeded | Some e \<Rightarrow> RFailed (Some e)), w)
              | Some info \<Rightarrow> publish env this st lb slaves found info w)))"

text \<open>
  Deletions: errors other than that an entry is gone already make the reconciler come back. \<open>Delete\<close> of
  the source, which is that of its embedded default, does nothing here, and there is no nested reconciler.
\<close>

definition drop_step :: "dns_env \<Rightarrow> bool \<times> world \<Rightarrow> DNSEntry \<Rightarrow> bool \<times> world" where
  "drop_step env = (\<lambda>(failed, w) e.
     case de_Delete (ev_api env) e w of
       (err, w) \<Rightarrow> (failed \<or> err \<noteq> None \<and> \<not> IsNotFound err, w))"

definition dns_Delete ::
  "dns_env \<Rightarrow> sourceReconciler \<Rightarrow> dns_state \<Rightarrow> DNSLoadBalancer \<Rightarrow> world \<Rightarrow> (dns_state \<times> Status \<times> world) outcome" where
  "dns_Delete env this st lb w =
     bind_outcome (GetByKey (ev_keys env) (dr_slaves st) (lb_ClusterKey lb)) (\<lambda>slaves.
       case foldl (drop_step env) (False, w) slaves of
         (True, w) \<Rightarrow> Ok (st, Delay None, w)
       | (False, w) \<Rightarrow>
           (case dns_RemoveFinalizer (ev_api env) (ev_strings env) this (lb_object lb) w of
              (err, _, w) \<Rightarrow> Ok (st, DelayOnError err, w)))"

definition dns_Deleted ::
  "dns_env \<Rightarrow> dns_state \<Rightarrow> ClusterObjectKey \<Rightarrow> world \<Rightarrow> (dns_state \<times> Status \<times> world) outcome" where
  "dns_Deleted env st key w =
     bind_outcome (GetByKey (ev_keys env) (dr_slaves st) key) (\<lambda>slaves.
       case foldl (drop_step env) (False, w) slaves of
         (True, w) \<Rightarrow> Ok (st, Delay None, w)
       | (False, w) \<Rightarrow>
           bind_outcome (dls_Deleted (ev_keys env) key (dr_source st) w) (\<lambda>(s, w).
             Ok (st\<lparr>dr_source := s\<rparr>, RSucceeded, w)))"

text \<open>
  An entry that changed is renewed in the cache and its load balancer reconciled again; one that is gone is
  forgotten (\<open>reconcilers/slavecache.go\<close>).
\<close>

definition entry_masters :: "StringSet \<Rightarrow> EntryCache \<Rightarrow> ClusterObjectKey \<Rightarrow> ClusterObjectKeySet" where
  "entry_masters clusters this key =
     (case GetSubObject this key of
        None \<Rightarrow> filterKeysByClusters [] clusters []
      | Some e \<Rightarrow> filterKeysByClusters (GetOwners_of (de_meta e) [LoadBalancerGroupKind]) clusters [])"

definition all_entry_masters :: "ClusterObjectKey list \<Rightarrow> StringSet \<Rightarrow> EntryCache \<Rightarrow> ClusterObjectKeySet" where
  "all_entry_masters visited clusters this = filterKeysByClusters (GetAllOwners visited this [LoadBalancerGroupKind]) clusters []"

text \<open>When it starts, it queues the load balancers of entries that have vanished; \<open>cached\<close> is the answer of the informer.\<close>

definition vanished_step :: "(ClusterObjectKey \<Rightarrow> go_error option) \<Rightarrow> string \<Rightarrow> world \<Rightarrow> ClusterObjectKey \<Rightarrow> world" where
  "vanished_step cached main w k = (if ck_cluster k = main \<and> IsNotFound (cached k) then emit (EnqueueKey k) w else w)"

definition entry_Start ::
  "ClusterObjectKey list \<Rightarrow> (ClusterObjectKey \<Rightarrow> go_error option) \<Rightarrow> string \<Rightarrow> StringSet \<Rightarrow> EntryCache \<Rightarrow> world \<Rightarrow> world" where
  "entry_Start visited cached main clusters this w =
     foldl (vanished_step cached main) w (all_entry_masters visited clusters this)"

definition entry_Reconcile ::
  "api \<Rightarrow> StringSet \<Rightarrow> dns_state \<Rightarrow> DNSEntry \<Rightarrow> world \<Rightarrow> (dns_state \<times> Status \<times> world) outcome" where
  "entry_Reconcile a clusters st e w =
     bind_outcome (renewSubObject de_ClusterKey (dr_slaves st) e) (\<lambda>(c, _).
       Ok (st\<lparr>dr_slaves := c\<rparr>, RSucceeded, requeueMasters a (entry_masters clusters c (de_ClusterKey e)) w))"

definition entry_Deleted :: "api \<Rightarrow> StringSet \<Rightarrow> dns_state \<Rightarrow> ClusterObjectKey \<Rightarrow> world \<Rightarrow> dns_state \<times> Status \<times> world" where
  "entry_Deleted a clusters st key w =
     (let masters = entry_masters clusters (dr_slaves st) key
      in (st\<lparr>dr_slaves := DeleteSubObject (dr_slaves st) key\<rparr>, RSucceeded, requeueMasters a masters w))"

end
