(* ===== verification/Usages.thy ===== *)
theory Usages
  imports Sources
begin

text \<open>
  The cache of usages, after \<open>resources/usagecache.go\<close>: which load balancers a source uses, indexed
  both ways. The endpoint controller asks it which sources have to be reconciled when a load
  balancer changes. An empty set and a missing one are the same to its callers, but the code
  keeps empty sets, and so does the model. Each operation holds the lock of the cache.
\<close>

section \<open>State and operations\<close>

record UsageCache =
  uc_byOwner :: "ClusterObjectKey \<rightharpoonup> ClusterObjectKeySet"
  uc_byUsed :: "ClusterObjectKey \<rightharpoonup> ClusterObjectKeySet"
  uc_filters :: "(ClusterObjectKey \<Rightarrow> bool) list"
  uc_used :: "SourceObject \<Rightarrow> ClusterObjectKeySet"

definition NewUsageCache :: "(SourceObject \<Rightarrow> ClusterObjectKeySet) \<Rightarrow> UsageCache" where
  "NewUsageCache u =
     \<lparr>uc_byOwner = Map.empty, uc_byUsed = Map.empty, uc_filters = [], uc_used = u\<rparr>"

definition usage_filterKey :: "UsageCache \<Rightarrow> ClusterObjectKey \<Rightarrow> bool" where
  "usage_filterKey this key \<longleftrightarrow> uc_filters this = [] \<or> list_ex (\<lambda>f. f key) (uc_filters this)"

definition usage_AddOwnerFilter :: "UsageCache \<Rightarrow> (ClusterObjectKey \<Rightarrow> bool) list \<Rightarrow> UsageCache" where
  "usage_AddOwnerFilter this fs = this\<lparr>uc_filters := uc_filters this @ fs\<rparr>"

definition the_set :: "ClusterObjectKeySet option \<Rightarrow> ClusterObjectKeySet" where
  "the_set s = (case s of None \<Rightarrow> [] | Some xs \<Rightarrow> xs)"

definition usage_add :: "UsageCache \<Rightarrow> ClusterObjectKey \<Rightarrow> ClusterObjectKey \<Rightarrow> UsageCache" where
  "usage_add this owner key =
     (if \<not> usage_filterKey this owner then this
      else this\<lparr>uc_byOwner := (uc_byOwner this)(owner \<mapsto> keyset_add key (the_set (uc_byOwner this owner))),
               uc_byUsed := (uc_byUsed this)(key \<mapsto> keyset_add owner (the_set (uc_byUsed this key)))\<rparr>)"

definition removeUsage :: "UsageCache \<Rightarrow> ClusterObjectKey \<Rightarrow> ClusterObjectKey \<Rightarrow> UsageCache" where
  "removeUsage this owner key =
     (case uc_byUsed this key of
        None \<Rightarrow> this
      | Some s \<Rightarrow> this\<lparr>uc_byUsed := (uc_byUsed this)(key \<mapsto> keyset_remove owner s)\<rparr>)"

definition usage_remove :: "UsageCache \<Rightarrow> ClusterObjectKey \<Rightarrow> ClusterObjectKey \<Rightarrow> UsageCache" where
  "usage_remove this owner key =
     (let this = (case uc_byOwner this owner of
                    None \<Rightarrow> this
                  | Some s \<Rightarrow> this\<lparr>uc_byOwner := (uc_byOwner this)(owner \<mapsto> keyset_remove key s)\<rparr>)
      in removeUsage this owner key)"

definition usage_Setup :: "UsageCache \<Rightarrow> SourceObject list \<Rightarrow> UsageCache" where
  "usage_Setup this ows =
     foldl (\<lambda>c s. foldl (\<lambda>c o'. usage_add c (s_ClusterKey s) o') c (uc_used this s)) this ows"

definition GetUsages :: "UsageCache \<Rightarrow> ClusterObjectKey \<Rightarrow> ClusterObjectKeySet" where
  "GetUsages this key = the_set (uc_byOwner this key)"

definition GetOwnersFor :: "UsageCache \<Rightarrow> ClusterObjectKey \<Rightarrow> GroupKind list \<Rightarrow> ClusterObjectKeySet" where
  "GetOwnersFor this key kinds = FilterKeysByGroupKinds (the_set (uc_byUsed this key)) kinds"

definition usage_DeleteOwner :: "UsageCache \<Rightarrow> ClusterObjectKey \<Rightarrow> UsageCache" where
  "usage_DeleteOwner this key =
     (let c = foldl (\<lambda>c s. removeUsage c key s) this (the_set (uc_byOwner this key))
      in c\<lparr>uc_byOwner := (uc_byOwner c)(key := None)\<rparr>)"

definition RenewOwner :: "UsageCache \<Rightarrow> SourceObject \<Rightarrow> UsageCache \<times> bool" where
  "RenewOwner this obj =
     (let key = s_ClusterKey obj; oldused = the_set (uc_byOwner this key); newused = uc_used this obj
      in if newused = [] \<and> oldused = [] then (this, False)
         else if oldused \<noteq> []
         then (let (ad, del) = DiffFrom newused oldused;
                   c = foldl (\<lambda>c e. usage_add c key e) this ad;
                   c = foldl (\<lambda>c e. usage_remove c key e) c del
               in (c, 0 < length ad + length del))
         else (foldl (\<lambda>c e. usage_add c key e) this newused, True))"

section \<open>The two directions agree\<close>

definition uses :: "UsageCache \<Rightarrow> (ClusterObjectKey \<times> ClusterObjectKey) set" where
  "uses c = {(ow, k). k \<in> set (the_set (uc_byOwner c ow))}"

definition usage_ok :: "UsageCache \<Rightarrow> bool" where
  "usage_ok c \<longleftrightarrow> (\<forall>ow k. ow \<in> set (the_set (uc_byUsed c k)) \<longleftrightarrow> k \<in> set (the_set (uc_byOwner c ow)))"

definition usage_config :: "UsageCache \<Rightarrow> UsageCache \<Rightarrow> bool" where
  "usage_config c d \<longleftrightarrow> uc_filters d = uc_filters c \<and> uc_used d = uc_used c"

lemma usage_config_refl [simp]: "usage_config c c"
  by (simp add: usage_config_def)

lemma usage_config_trans: "usage_config c d \<Longrightarrow> usage_config d e \<Longrightarrow> usage_config c e"
  by (simp add: usage_config_def)

lemma the_set_simps [simp]: "the_set None = []" "the_set (Some s) = s"
  by (simp_all add: the_set_def)

lemma usage_filterKey_config: "usage_config c d \<Longrightarrow> usage_filterKey d = usage_filterKey c"
  by (simp add: usage_config_def usage_filterKey_def fun_eq_iff)

lemma usage_add_step:
  "usage_ok c \<Longrightarrow> usage_ok (usage_add c ow k) \<and> usage_config c (usage_add c ow k) \<and>
     uses (usage_add c ow k) = (if usage_filterKey c ow then insert (ow, k) (uses c) else uses c)"
  by (auto simp: usage_add_def usage_ok_def usage_config_def uses_def split: if_splits)

lemma set_upd: "set (the_set ((m(x := v)) y)) = (if y = x then set (the_set v) else set (the_set (m y)))"
  by simp

lemma removeUsage_sel:
  "uc_byOwner (removeUsage c ow k) = uc_byOwner c" "usage_config c (removeUsage c ow k)"
  "set (the_set (uc_byUsed (removeUsage c ow k) j)) =
     (if j = k then set (the_set (uc_byUsed c j)) - {ow} else set (the_set (uc_byUsed c j)))"
  by (auto simp: removeUsage_def usage_config_def split: option.splits)

lemma usage_remove_sel:
  "usage_config c (usage_remove c ow k)"
  "set (the_set (uc_byOwner (usage_remove c ow k) o')) =
     (if o' = ow then set (the_set (uc_byOwner c o')) - {k} else set (the_set (uc_byOwner c o')))"
  "set (the_set (uc_byUsed (usage_remove c ow k) j)) =
     (if j = k then set (the_set (uc_byUsed c j)) - {ow} else set (the_set (uc_byUsed c j)))"
  using removeUsage_sel(2) [of _ ow k]
  by (auto simp: usage_remove_def removeUsage_sel(1,3) Let_def usage_config_def split: option.split)

lemma usage_remove_step:
  assumes "usage_ok c"
  shows "usage_ok (usage_remove c ow k) \<and> usage_config c (usage_remove c ow k) \<and>
     uses (usage_remove c ow k) = uses c - {(ow, k)}"
  using assms unfolding usage_ok_def uses_def usage_remove_sel(2,3)
  by (auto simp: usage_remove_sel(1) split: if_splits)

lemma foldl_usage_add:
  assumes "usage_ok c"
  shows "usage_ok (foldl (\<lambda>c e. usage_add c ow e) c ks) \<and> usage_config c (foldl (\<lambda>c e. usage_add c ow e) c ks) \<and>
    uses (foldl (\<lambda>c e. usage_add c ow e) c ks) =
      (if usage_filterKey c ow then uses c \<union> {ow} \<times> set ks else uses c)"
proof (rule foldl_rule [where I = "\<lambda>d ys. usage_ok d \<and> usage_config c d \<and>
    uses d = (if usage_filterKey c ow then uses c \<union> {ow} \<times> set ys else uses c)"])
  fix d ys x
  assume "usage_ok d \<and> usage_config c d \<and> uses d = (if usage_filterKey c ow then uses c \<union> {ow} \<times> set ys else uses c)"
  then show "usage_ok (usage_add d ow x) \<and> usage_config c (usage_add d ow x) \<and>
      uses (usage_add d ow x) = (if usage_filterKey c ow then uses c \<union> {ow} \<times> set (ys @ [x]) else uses c)"
    using usage_add_step [of d ow x] usage_filterKey_config [of c d] by (auto intro: usage_config_trans)
qed (use assms in simp)

lemma foldl_usage_remove:
  assumes "usage_ok c"
  shows "usage_ok (foldl (\<lambda>c e. usage_remove c ow e) c ks) \<and>
    usage_config c (foldl (\<lambda>c e. usage_remove c ow e) c ks) \<and>
    uses (foldl (\<lambda>c e. usage_remove c ow e) c ks) = uses c - {ow} \<times> set ks"
proof (rule foldl_rule [where I = "\<lambda>d ys. usage_ok d \<and> usage_config c d \<and> uses d = uses c - {ow} \<times> set ys"])
  fix d ys x
  assume "usage_ok d \<and> usage_config c d \<and> uses d = uses c - {ow} \<times> set ys"
  then show "usage_ok (usage_remove d ow x) \<and> usage_config c (usage_remove d ow x) \<and>
      uses (usage_remove d ow x) = uses c - {ow} \<times> set (ys @ [x])"
    using usage_remove_step [of d ow x] by (auto intro: usage_config_trans)
qed (use assms in simp)

lemma foldl_removeUsage:
  "uc_byOwner (foldl (\<lambda>c s. removeUsage c ow s) c ks) = uc_byOwner c \<and>
   usage_config c (foldl (\<lambda>c s. removeUsage c ow s) c ks) \<and>
   (\<forall>k. set (the_set (uc_byUsed (foldl (\<lambda>c s. removeUsage c ow s) c ks) k)) =
      set (the_set (uc_byUsed c k)) - (if k \<in> set ks then {ow} else {}))"
proof (induction ks arbitrary: c)
  case (Cons k ks)
  note removeUsage_sel [of c ow k]
  with Cons [of "removeUsage c ow k"] show ?case by (auto simp: removeUsage_sel(1,3) intro: usage_config_trans)
qed simp

lemma usage_DeleteOwner_step:
  assumes "usage_ok c"
  shows "usage_ok (usage_DeleteOwner c ow) \<and> usage_config c (usage_DeleteOwner c ow) \<and>
    uses (usage_DeleteOwner c ow) = {p \<in> uses c. fst p \<noteq> ow}"
  using assms foldl_removeUsage [of ow c "the_set (uc_byOwner c ow)"]
  by (auto simp: usage_DeleteOwner_def usage_ok_def usage_config_def uses_def Let_def split: if_splits)

text \<open>
  Renewing an owner: one that used nothing gets its usages, one that used something keeps exactly
  what it used, whatever it uses now.
\<close>

lemma RenewOwner_step:
  assumes "usage_ok c"
  shows "usage_ok (fst (RenewOwner c obj)) \<and> usage_config c (fst (RenewOwner c obj)) \<and>
    uses (fst (RenewOwner c obj)) = uses c \<union>
      (if (\<exists>k. (s_ClusterKey obj, k) \<in> uses c) \<or> \<not> usage_filterKey c (s_ClusterKey obj) then {}
       else {s_ClusterKey obj} \<times> set (uc_used c obj))"
proof -
  let ?ow = "s_ClusterKey obj"
  let ?old = "the_set (uc_byOwner c ?ow)" and ?new = "uc_used c obj"
  have old: "?old \<noteq> [] \<longleftrightarrow> (\<exists>k. (?ow, k) \<in> uses c)"
    by (cases ?old) (auto simp: uses_def)
  show ?thesis
  proof (cases "?old = []")
    case True
    with assms foldl_usage_add [OF assms, of ?ow ?new] old show ?thesis
      by (auto simp: RenewOwner_def Let_def)
  next
    case False
    let ?ad = "fst (DiffFrom ?new ?old)" and ?del = "snd (DiffFrom ?new ?old)"
    let ?c1 = "foldl (\<lambda>c e. usage_add c ?ow e) c ?ad"
    let ?c2 = "foldl (\<lambda>c e. usage_remove c ?ow e) ?c1 ?del"
    have eq: "fst (RenewOwner c obj) = ?c2"
      using False by (simp add: RenewOwner_def Let_def split_beta)
    have c1: "usage_ok ?c1" "usage_config c ?c1"
      "uses ?c1 = (if usage_filterKey c ?ow then uses c \<union> {?ow} \<times> set ?ad else uses c)"
      using foldl_usage_add [OF assms, of ?ow ?ad] by blast+
    have sub: "{?ow} \<times> set ?ad \<subseteq> uses c" by (auto simp: keyset_simps uses_def)
    have "uses ?c1 = uses c" using c1(3) sub by auto
    moreover have "uses c - {?ow} \<times> set ?del = uses c" by (auto simp: keyset_simps uses_def)
    ultimately have "usage_ok ?c2" "usage_config c ?c2" "uses ?c2 = uses c"
      using foldl_usage_remove [OF c1(1), of ?ow ?del] c1(2) by (auto intro: usage_config_trans)
    then show ?thesis unfolding eq using False old by simp
  qed
qed

lemma usage_Setup_ok: "usage_ok c \<Longrightarrow> usage_ok (usage_Setup c ows) \<and> usage_config c (usage_Setup c ows)"
  unfolding usage_Setup_def
  by (rule foldl_rule [where I = "\<lambda>d _. usage_ok d \<and> usage_config c d"])
    (auto dest: foldl_usage_add intro: usage_config_trans)

lemma usage_ok_new: "usage_ok (NewUsageCache u)"
  by (simp add: usage_ok_def NewUsageCache_def)

lemma usages_iff: "usage_ok c \<Longrightarrow> set (GetUsages c ow) = {k. (ow, k) \<in> uses c}"
  by (simp add: GetUsages_def uses_def)

lemma owners_iff: "usage_ok c \<Longrightarrow> set (GetOwnersFor c k []) = {ow. (ow, k) \<in> uses c}"
  by (auto simp: GetOwnersFor_def FilterKeysByGroupKinds_def uses_def usage_ok_def)

section \<open>Runs\<close>

datatype usage_op = USetup "SourceObject list" | URenew SourceObject | UDelete ClusterObjectKey

fun usage_step :: "UsageCache \<Rightarrow> usage_op \<Rightarrow> UsageCache" where
  "usage_step c (USetup ows) = usage_Setup c ows"
| "usage_step c (URenew obj) = fst (RenewOwner c obj)"
| "usage_step c (UDelete key) = usage_DeleteOwner c key"

lemma usage_step_ok: "usage_ok c \<Longrightarrow> usage_ok (usage_step c oper) \<and> usage_config c (usage_step c oper)"
  using usage_Setup_ok RenewOwner_step usage_DeleteOwner_step by (cases oper) auto

lemma usage_run_ok:
  "usage_ok (foldl usage_step (NewUsageCache u) opers) \<and>
   usage_config (NewUsageCache u) (foldl usage_step (NewUsageCache u) opers)"
  by (rule foldl_rule [where I = "\<lambda>d _. usage_ok d \<and> usage_config (NewUsageCache u) d"])
    (auto simp: usage_ok_new dest: usage_step_ok intro: usage_config_trans)

text \<open>
  After any sequence of setups, renewals and deletions, the two directions of the usage cache
  agree: a source is found for a load balancer exactly when the load balancer is found for the
  source.
\<close>

theorem usages_both_ways:
  "ow \<in> set (GetOwnersFor (foldl usage_step (NewUsageCache u) opers) k []) \<longleftrightarrow>
   k \<in> set (GetUsages (foldl usage_step (NewUsageCache u) opers) ow)"
  using usage_run_ok [of u opers] by (simp add: owners_iff usages_iff)

text \<open>
  C31. What a source is recorded to use is frozen. Whatever happened before, renewing a source that
  is recorded with some usage leaves all records as they are, even when it now uses something
  else; only after its record is deleted does renewing it record what it uses.
\<close>

theorem usages_frozen:
  assumes "c = foldl usage_step (NewUsageCache u) opers"
  shows "(GetUsages c (s_ClusterKey obj) \<noteq> [] \<longrightarrow>
      (\<forall>ow. set (GetUsages (fst (RenewOwner c obj)) ow) = set (GetUsages c ow))) \<and>
    set (GetUsages (fst (RenewOwner (usage_DeleteOwner c (s_ClusterKey obj)) obj)) (s_ClusterKey obj)) = set (u obj)"
proof -
  let ?key = "s_ClusterKey obj"
  let ?d = "usage_DeleteOwner c ?key"
  have ok: "usage_ok c" and cfg: "usage_config (NewUsageCache u) c"
    using usage_run_ok [of u opers] assms by simp_all
  have ne: "GetUsages c ?key \<noteq> [] \<longleftrightarrow> (\<exists>k. (?key, k) \<in> uses c)"
    using usages_iff [OF ok, of ?key] by (cases "GetUsages c ?key") auto
  have frozen: "set (GetUsages (fst (RenewOwner c obj)) ow) = set (GetUsages c ow)"
    if "GetUsages c ?key \<noteq> []" for ow
    using RenewOwner_step [OF ok, of obj] that ne by (simp add: usages_iff ok)
  have d: "usage_ok ?d" "usage_config c ?d" "\<not> (\<exists>k. (?key, k) \<in> uses ?d)"
    using usage_DeleteOwner_step [OF ok, of ?key] by auto
  have "uc_used ?d = u" "uc_filters ?d = []"
    using cfg d(2) by (simp_all add: usage_config_def NewUsageCache_def)
  then have "uses (fst (RenewOwner ?d obj)) = uses ?d \<union> {?key} \<times> set (u obj)"
    using RenewOwner_step [OF d(1), of obj] d(3) by (simp add: usage_filterKey_def)
  then have "set (GetUsages (fst (RenewOwner ?d obj)) ?key) = set (u obj)"
    using RenewOwner_step [OF d(1), of obj] d(3) by (auto simp: usages_iff)
  with frozen show ?thesis by blast
qed

theorem usages_frozen_witness:
  "set (GetUsages (fst (RenewOwner (foldl usage_step (NewUsageCache (\<lambda>s. [lb_ClusterKey sample_lb]))
       [URenew (sample_service ''src'')]) (sample_service ''src''\<lparr>s_data := OtherData\<rparr>)))
     (s_ClusterKey (sample_service ''src''))) =
   set (GetUsages (foldl usage_step (NewUsageCache (\<lambda>s. [lb_ClusterKey sample_lb])) [URenew (sample_service ''src'')])
     (s_ClusterKey (sample_service ''src'')))"
proof -
  let ?u = "\<lambda>s :: SourceObject. [lb_ClusterKey sample_lb]"
  let ?c = "foldl usage_step (NewUsageCache ?u) [URenew (sample_service ''src'')]"
  let ?obj = "sample_service ''src''\<lparr>s_data := OtherData\<rparr>"
  have key: "s_ClusterKey ?obj = s_ClusterKey (sample_service ''src'')" by (simp add: s_ClusterKey_def)
  have "GetUsages ?c (s_ClusterKey (sample_service ''src'')) \<noteq> []"
    by (simp add: RenewOwner_def NewUsageCache_def usage_add_def usage_filterKey_def GetUsages_def Let_def)
  with usages_frozen [OF refl, of ?u "[URenew (sample_service ''src'')]" ?obj] show ?thesis
    unfolding key by blast
qed

end
