(* ===== verification/Endpoint.thy ===== *)
theory Endpoint
  imports Slaves Usages
begin

text \<open>
  The endpoint of a source, after \<open>pkg/dnslb/endpoint/endpoint.go\<close> and \<open>resources/mod.go\<close>: what a new
  endpoint looks like, how an existing one is brought up to date, and how long it is valid.
  The labels computed for a new endpoint are never put on it, so it has none.
\<close>

section \<open>Validity\<close>

text \<open>
  \<open>UpdateDeadline\<close> answers a pointer. Its caller compares pointers, so the answers are kept apart:
  the pointer that was passed in, a new one, or nil.
\<close>

datatype deadline = Kept | Fresh time | NoDeadline

definition UpdateDeadline :: "time \<Rightarrow> duration option \<Rightarrow> time option \<Rightarrow> deadline" where
  "UpdateDeadline now d deadline =
     (case d of
        None \<Rightarrow> NoDeadline
      | Some dur \<Rightarrow>
          if dur = 0 then NoDeadline
          else (case deadline of
                  Some t \<Rightarrow> if 120 * Second < time_Sub t now then Kept else Fresh (now + dur)
                | None \<Rightarrow> Fresh (now + dur)))"

fun deadline_value :: "time option \<Rightarrow> deadline \<Rightarrow> time option" where
  "deadline_value old Kept = old"
| "deadline_value old (Fresh t) = Some t"
| "deadline_value old NoDeadline = None"

text \<open>\<open>t != o.Status.ValidUntil\<close>.\<close>

fun deadline_differs :: "time option \<Rightarrow> deadline \<Rightarrow> bool" where
  "deadline_differs old Kept = False"
| "deadline_differs old (Fresh t) = True"
| "deadline_differs old NoDeadline = (old \<noteq> None)"

section \<open>New endpoints\<close>

definition newEndpoint ::
  "(GroupKind \<Rightarrow> string) \<Rightarrow> string \<Rightarrow> time \<Rightarrow> DNSLoadBalancer \<Rightarrow> SourceObject \<Rightarrow> DNSLoadBalancerEndpoint" where
  "newEndpoint Version target now lb src =
     (let (ip, cname) = src_GetTargets src lb;
          n = UpdateDeadline now (EndpointValidityInterval (lb_spec lb)) None;
          m = \<lparr>m_cluster = target, m_namespace = m_namespace (lb_meta lb), m_name = '''',
               m_generateName = m_name (s_meta src) @ ''-'' @ ToLower (gk_kind (s_groupKind src)) @ ''-'',
               m_uid = '''', m_resourceVersion = '''', m_labels = None, m_annotations = Map.empty,
               m_finalizers = [], m_ownerReferences = [], m_creationTimestamp = 0, m_deletionTimestamp = None\<rparr>
      in \<lparr>ep_meta = fst (AddOwner Version m target src),
          ep_spec = \<lparr>LoadBalancerRef = m_name (lb_meta lb), IPAddress = ip, CName = cname\<rparr>,
          ep_status = \<lparr>eps_State = None, eps_Message = None, eps_Healthy = False,
            eps_ValidUntil = deadline_value None n\<rparr>\<rparr>)"

section \<open>Updates\<close>

text \<open>Labels are a map that can be nil; writing to a nil map panics, deleting from it does not.\<close>

definition AssureLabel :: "string \<Rightarrow> string \<Rightarrow> ObjectMeta \<times> bool \<Rightarrow> (ObjectMeta \<times> bool) outcome" where
  "AssureLabel name value = (\<lambda>(m, md).
     if GetLabel m name \<noteq> value
     then (if value = ''''
           then Ok (m\<lparr>m_labels := map_option (\<lambda>ls. ls(name := None)) (m_labels m)\<rparr>, True)
           else (case m_labels m of
                   None \<Rightarrow> Panic
                 | Some ls \<Rightarrow> Ok (m\<lparr>m_labels := Some (ls(name \<mapsto> value))\<rparr>, True)))
     else Ok (m, md))"

definition AddOwners ::
  "(GroupKind \<Rightarrow> string) \<Rightarrow> SourceObject list \<Rightarrow> ObjectMeta \<times> bool \<Rightarrow> ObjectMeta \<times> bool" where
  "AddOwners Version obs =
     (\<lambda>s. foldl (\<lambda>(m, md) o'. case AddOwner Version m (m_cluster m) o' of (m', b) \<Rightarrow> (m', if b then True else md)) s obs)"

definition updateEndpoint ::
  "(GroupKind \<Rightarrow> string) \<Rightarrow> time \<Rightarrow> DNSLoadBalancerEndpoint \<Rightarrow> DNSLoadBalancerEndpoint \<Rightarrow> DNSLoadBalancer \<Rightarrow>
   SourceObject \<Rightarrow> (DNSLoadBalancerEndpoint \<times> bool) outcome" where
  "updateEndpoint Version now oldep newep lb src =
     bind_outcome (AssureLabel ''controller'' (GetLabel (ep_meta newep) ''controller'') (ep_meta oldep, False)) (\<lambda>s.
     bind_outcome (AssureLabel ''source'' (GetLabel (ep_meta newep) ''source'') s) (\<lambda>s.
     bind_outcome (AssureLabel ''cluster'' (GetLabel (ep_meta newep) ''cluster'') s) (\<lambda>s.
       let (m, md) = AddOwners Version [src] s;
           (ip, md) = AssureStringValue md (IPAddress (ep_spec oldep)) (IPAddress (ep_spec newep));
           (cname, md) = AssureStringValue md (CName (ep_spec oldep)) (CName (ep_spec newep));
           (ref, md) = AssureStringValue md (LoadBalancerRef (ep_spec oldep)) (LoadBalancerRef (ep_spec newep));
           old = eps_ValidUntil (ep_status oldep);
           t = UpdateDeadline now (EndpointValidityInterval (lb_spec lb)) old;
           differs = deadline_differs old t
       in Ok (\<lparr>ep_meta = m, ep_spec = \<lparr>LoadBalancerRef = ref, IPAddress = ip, CName = cname\<rparr>,
               ep_status = (if differs then (ep_status oldep)\<lparr>eps_ValidUntil := deadline_value old t\<rparr>
                            else ep_status oldep)\<rparr>,
              md \<or> differs))))"

definition deleteEndpoint ::
  "api \<Rightarrow> SourceObject \<Rightarrow> DNSLoadBalancerEndpoint option \<Rightarrow> world \<Rightarrow> go_error option \<times> world" where
  "deleteEndpoint a src ep w =
     (case ep of
        None \<Rightarrow> (None, w)
      | Some ep \<Rightarrow>
          let name = ObjectName_String (meta_ObjectName (ep_meta ep));
              (err, w) = ep_Delete a ep w
          in case err of
               Some e \<Rightarrow>
                 if \<not> IsNotFound (Some e)
                 then (Some (OtherError (''error deleting load balancer endpoint '' @ tick name @ '': '' @ Error e)), w)
                 else (None, s_Event src EventTypeNormal ''sync'' (''dns load balancer endpoint '' @ name @ '' deleted'') w)
             | None \<Rightarrow> (None, s_Event src EventTypeNormal ''sync'' (''dns load balancer endpoint '' @ name @ '' deleted'') w))"

end
