(* ===== verification/EndpointReconciler.thy ===== *)
theory EndpointReconciler
  imports Endpoint
begin

text \<open>
  The endpoint controller, after \<open>pkg/dnslb/endpoint/endpoint_reconciler.go\<close> and
  \<open>pkg/dnslb/endpoint/controller.go\<close>: it keeps one endpoint in the target cluster for every source
  that is annotated with a load balancer. Its parameters: the version of a kind, the id of the
  target cluster, the name of its finalizer, the interval at which targets are checked, and the
  cache of load balancers. \<open>clock n\<close> is the \<open>n\<close>-th reading of the clock in one run.
\<close>

section \<open>The load balancer of a source\<close>

definition AnnotationLoadbalancer :: string where
  "AnnotationLoadbalancer = GroupName @ ''/dnsloadbalancer''"

text \<open>The name, and whether there is an annotation.\<close>

definition LBForSource :: "SourceObject \<Rightarrow> ObjectName option \<times> bool" where
  "LBForSource obj =
     (case m_annotations (s_meta obj) AnnotationLoadbalancer of
        None \<Rightarrow> (None, False)
      | Some v \<Rightarrow>
          (case Split CHR ''/'' v of
             [n] \<Rightarrow> (Some (NewObjectName2 (m_namespace (s_meta obj)) n), True)
           | [ns, n] \<Rightarrow> (Some (NewObjectName2 ns n), True)
           | _ \<Rightarrow> (None, True)))"

definition LBFunc :: "string \<Rightarrow> SourceObject \<Rightarrow> ClusterObjectKeySet" where
  "LBFunc clusterid obj =
     (case fst (LBForSource obj) of
        None \<Rightarrow> []
      | Some n \<Rightarrow> Add [] [ForCluster (ForGroupKind n LoadBalancerGroupKind) clusterid])"

section \<open>The reconciler\<close>

record config =
  cf_Version :: "GroupKind \<Rightarrow> string"
  cf_target :: string
  cf_finalizer :: string
  cf_period :: duration
  cf_lbs :: "ObjectName \<Rightarrow> go_error + DNSLoadBalancer"
  cf_range :: "ClusterObjectKey list \<Rightarrow> ClusterObjectKey list"

record sr_state =
  sr_slaves :: SlaveCache
  sr_usages :: UsageCache

definition NewState_sr :: "config \<Rightarrow> sr_state" where
  "NewState_sr cf = \<lparr>sr_slaves = NewSlaveCache, sr_usages = NewUsageCache (LBFunc (cf_target cf))\<rparr>"

definition sr_Setup :: "config \<Rightarrow> DNSLoadBalancerEndpoint list \<Rightarrow> SourceObject list \<Rightarrow> sr_state outcome" where
  "sr_Setup cf eps srcs =
     bind_outcome (setupSlaveCache eps) (\<lambda>slaves.
       Ok \<lparr>sr_slaves = slaves, sr_usages = usage_Setup (NewUsageCache (LBFunc (cf_target cf))) srcs\<rparr>)"

text \<open>\<open>IsValid\<close>: the load balancer's name and the source, each of which can be nil.\<close>

definition src_IsValid :: "config \<Rightarrow> SourceObject \<Rightarrow> ObjectName option \<times> SourceObject option" where
  "src_IsValid cf obj =
     (case SourceTypes registered (s_groupKind obj) of
        None \<Rightarrow> (None, None)
      | Some t \<Rightarrow>
          let src = (case SourceType_Get t obj of Inl _ \<Rightarrow> None | Inr s \<Rightarrow> Some s);
              (n, found) = LBForSource obj
          in case n of
               None \<Rightarrow> if found \<and> HasFinalizer (cf_finalizer cf) obj then (None, src) else (None, None)
             | Some _ \<Rightarrow> (n, src))"

definition sr_validate ::
  "config \<Rightarrow> ObjectName \<Rightarrow> SourceObject \<Rightarrow> world \<Rightarrow> DNSLoadBalancer option \<times> Status \<times> world" where
  "sr_validate cf ref src w =
     (case cf_lbs cf ref of
        Inl err \<Rightarrow>
          if IsNotFound (Some err)
          then let msg = ''dns loadbalancer '' @ tick (ObjectName_String ref) @ '' does not exist''
               in (None, RFailed (Some (OtherError msg)),
                   s_Event src EventTypeNormal AnnotationLoadbalancer msg w)
          else let msg = ''cannot get dns loadbalancer '' @ tick (ObjectName_String ref) @ '': '' @ Error err
               in (None, Delay (Some (OtherError msg)),
                   s_Event src EventTypeNormal AnnotationLoadbalancer msg w)
      | Inr lb \<Rightarrow>
          (case src_Validate src lb of
             (normal, Some err) \<Rightarrow> (None, if normal then Delay (Some err) else RFailed (Some err), w)
           | (_, None) \<Rightarrow> (Some lb, RSucceeded, w)))"

definition ep_event :: "SourceObject \<Rightarrow> DNSLoadBalancerEndpoint \<Rightarrow> string \<Rightarrow> world \<Rightarrow> world" where
  "ep_event src ep what w =
     s_Event src EventTypeNormal ''sync''
       (''dns load balancer endpoint '' @ ObjectName_String (meta_ObjectName (ep_meta ep)) @ '' '' @ what) w"

text \<open>
  The part of \<open>Reconcile\<close> after validation: the finalizer, then the creation of the endpoint or its
  update. An existing endpoint is the object the cache holds, so it is changed there at once,
  before the update is sent and whether it succeeds or not.
\<close>

definition sr_create ::
  "api \<Rightarrow> config \<Rightarrow> sr_state \<Rightarrow> SourceObject \<Rightarrow> DNSLoadBalancerEndpoint \<Rightarrow> world \<Rightarrow>
   (sr_state \<times> Status \<times> world) outcome" where
  "sr_create a cf st src newep w =
     bind_outcome (CreateSlave a (cf_Version cf) (sr_slaves st) src newep w) (\<lambda>(slaves, ep, err, w).
       let st = st\<lparr>sr_slaves := slaves\<rparr>
       in case err of
            Some e \<Rightarrow> Ok (st, Delay (Some (OtherError (''error creating load balancer endpoint: '' @ Error e))), w)
          | None \<Rightarrow> Ok (st, RescheduleAfter (cf_period cf) RSucceeded, ep_event src ep ''created'' w))"

definition sr_update ::
  "api \<Rightarrow> config \<Rightarrow> time \<Rightarrow> sr_state \<Rightarrow> DNSLoadBalancer \<Rightarrow> SourceObject \<Rightarrow> DNSLoadBalancerEndpoint \<Rightarrow>
   DNSLoadBalancerEndpoint \<Rightarrow> world \<Rightarrow> (sr_state \<times> Status \<times> world) outcome" where
  "sr_update a cf now st lb src ep newep w =
     bind_outcome (updateEndpoint (cf_Version cf) now ep newep lb src) (\<lambda>(ep', modified).
       let slaves = set_object (ep_ClusterKey ep) ep' (sr_slaves st); st = st\<lparr>sr_slaves := slaves\<rparr>
       in if modified
          then bind_outcome (UpdateSlave a slaves ep' w) (\<lambda>(slaves, ep'', err, w).
                 let st = st\<lparr>sr_slaves := slaves\<rparr>; name = tick (ObjectName_String (meta_ObjectName (ep_meta ep'')))
                 in case err of
                      Some e \<Rightarrow>
                        if IsConflict (Some e) then Ok (st, Repeat, w)
                        else Ok (st, Delay (Some (OtherError (''error updating load balancer endpoint '' @ name @ '': '' @ Error e))), w)
                    | None \<Rightarrow> Ok (st, RescheduleAfter (cf_period cf) RSucceeded, ep_event src ep'' ''updated'' w))
          else Ok (st, RescheduleAfter (cf_period cf) RSucceeded, w))"

definition sr_Reconcile ::
  "api \<Rightarrow> config \<Rightarrow> (nat \<Rightarrow> time) \<Rightarrow> sr_state \<Rightarrow> SourceObject \<Rightarrow> world \<Rightarrow> (sr_state \<times> Status \<times> world) outcome" where
  "sr_Reconcile a cf clock st obj w =
     bind_outcome (LookupSlaves (cf_range cf) (sr_slaves st) (s_ClusterKey obj) []) (\<lambda>found.
       let (ep, w) = AssertSingleSlave ep_meta (ep_Delete a) found None w;
           st = st\<lparr>sr_usages := fst (RenewOwner (sr_usages st) obj)\<rparr>
       in case src_IsValid cf obj of
            (Some ref, Some src) \<Rightarrow>
              (case sr_validate cf ref src w of
                 (Some lb, result, w) \<Rightarrow>
                   (case SetFinalizer a (cf_finalizer cf) src w of
                      (Some err, src, w) \<Rightarrow> Ok (st, Delay (Some err), w)
                    | (None, src, w) \<Rightarrow>
                        let newep = newEndpoint (cf_Version cf) (cf_target cf) (clock 0) lb src
                        in case ep of
                             None \<Rightarrow> sr_create a cf st src newep w
                           | Some ep \<Rightarrow> sr_update a cf (clock 1) st lb src ep newep w)
               | (None, result, w) \<Rightarrow>
                   let (_, w) = deleteEndpoint a src ep w in Ok (st, result, w))
          | (Some ref, None) \<Rightarrow> Panic
          | (None, _) \<Rightarrow>
              (case deleteEndpoint a obj ep w of
                 (Some err, w) \<Rightarrow> Ok (st, Delay (Some err), w)
               | (None, w) \<Rightarrow>
                   (case RemoveFinalizer a (cf_finalizer cf) obj w of
                      (err, obj, w) \<Rightarrow> Ok (st, DelayOnError err, w))))"

definition delete_step :: "api \<Rightarrow> SourceObject \<Rightarrow> bool \<times> world \<Rightarrow> DNSLoadBalancerEndpoint \<Rightarrow> bool \<times> world" where
  "delete_step a src = (\<lambda>(failed, w) ep.
     case deleteEndpoint a src (Some ep) w of
       (Some err, w) \<Rightarrow> (True, w)
     | (None, w) \<Rightarrow> (failed, w))"

definition sr_Delete ::
  "api \<Rightarrow> config \<Rightarrow> sr_state \<Rightarrow> SourceObject \<Rightarrow> world \<Rightarrow> (sr_state \<times> Status \<times> world) outcome" where
  "sr_Delete a cf st obj w =
     (case src_IsValid cf obj of
        (ref, Some src) \<Rightarrow>
          bind_outcome (LookupSlaves (cf_range cf) (sr_slaves st) (s_ClusterKey obj) []) (\<lambda>eps.
            let (failed, w) = foldl (delete_step a src) (False, w) eps
            in if failed then Ok (st, Delay (Some (OtherError ''some endpoint deletion failed'')), w)
               else (case RemoveFinalizer a (cf_finalizer cf) obj w of
                       (err, obj, w) \<Rightarrow> Ok (st, DelayOnError err, w)))
      | (ref, None) \<Rightarrow>
          Ok (st\<lparr>sr_usages := usage_DeleteOwner (sr_usages st) (s_ClusterKey obj)\<rparr>, RSucceeded, w))"

definition sr_Deleted :: "sr_state \<Rightarrow> ClusterObjectKey \<Rightarrow> sr_state \<times> Status" where
  "sr_Deleted st key = (st\<lparr>sr_usages := usage_DeleteOwner (sr_usages st) key\<rparr>, RSucceeded)"

end
