(* ===== verification/EndpointProps.thy ===== *)
theory EndpointProps
  imports EndpointReconciler
begin

text \<open>
  The properties of the endpoint controller: validity of endpoints, creation and the lookup that
  follows it, updates that settle, updates that get lost, and the deletion of endpoints together
  with the finalizer of their source.
\<close>

section \<open>Validity\<close>

lemma time_Sub_greater: "0 < d \<Longrightarrow> d < time_Sub t now \<Longrightarrow> now + d < t"
  by (auto simp: time_Sub_def max_def min_def split: if_splits)

text \<open>
  An endpoint of a load balancer with a validity interval of more than two minutes is valid for
  more than two minutes after every reconciliation, whatever its validity was before; so it does
  not expire as long as its source is reconciled every two minutes. Without an interval an
  endpoint is valid for ever.
\<close>

theorem validity_is_renewed:
  "(\<forall>dur. 120 * Second < dur \<longrightarrow>
     (\<exists>t. deadline_value old (UpdateDeadline now (Some dur) old) = Some t \<and> now + 120 * Second < t \<and>
        (deadline_differs old (UpdateDeadline now (Some dur) old) \<longrightarrow> t = now + dur))) \<and>
   (\<forall>d. d = None \<or> d = Some 0 \<longrightarrow> deadline_value old (UpdateDeadline now d old) = None)"
  by (auto simp: UpdateDeadline_def split: option.splits dest: time_Sub_greater [rotated])

theorem validity_is_renewed_witness:
  "\<exists>t. deadline_value (Some 5) (UpdateDeadline 0 (Some (5 * Minute)) (Some 5)) = Some t \<and> 120 * Second < t"
  using validity_is_renewed [of "Some 5" 0] by (auto dest!: spec [of _ "5 * Minute"])

section \<open>Updates\<close>

definition drop_label :: "string \<Rightarrow> ObjectMeta \<Rightarrow> ObjectMeta" where
  "drop_label n m =
     (if GetLabel m n \<noteq> '''' then m\<lparr>m_labels := map_option (\<lambda>ls. ls(n := None)) (m_labels m)\<rparr> else m)"

lemma AssureLabel_empty:
  "AssureLabel n '''' (m, md) = Ok (drop_label n m, md \<or> GetLabel m n \<noteq> '''')"
  by (auto simp: AssureLabel_def drop_label_def)

lemma GetLabel_drop [simp]: "GetLabel (drop_label n m) k = (if k = n then '''' else GetLabel m k)"
  by (auto simp: drop_label_def GetLabel_def split: option.splits)

lemma drop_label_id: "GetLabel m n = '''' \<Longrightarrow> drop_label n m = m"
  by (simp add: drop_label_def)

lemma drop_label_sel [simp]:
  "m_cluster (drop_label n m) = m_cluster m" "m_namespace (drop_label n m) = m_namespace m"
  "m_name (drop_label n m) = m_name m" "m_ownerReferences (drop_label n m) = m_ownerReferences m"
  "m_annotations (drop_label n m) = m_annotations m"
  by (simp_all add: drop_label_def)

definition bare_meta :: "ObjectMeta \<Rightarrow> ObjectMeta" where
  "bare_meta m = drop_label ''cluster'' (drop_label ''source'' (drop_label ''controller'' m))"

definition labelled :: "ObjectMeta \<Rightarrow> bool" where
  "labelled m \<longleftrightarrow> GetLabel m ''controller'' \<noteq> '''' \<or> GetLabel m ''source'' \<noteq> '''' \<or> GetLabel m ''cluster'' \<noteq> ''''"

lemma bare_meta_sel [simp]:
  "m_cluster (bare_meta m) = m_cluster m" "m_namespace (bare_meta m) = m_namespace m"
  "m_name (bare_meta m) = m_name m" "m_ownerReferences (bare_meta m) = m_ownerReferences m"
  "m_annotations (bare_meta m) = m_annotations m" "\<not> labelled (bare_meta m)"
  by (simp_all add: bare_meta_def labelled_def)

lemma bare_meta_id: "\<not> labelled m \<Longrightarrow> bare_meta m = m"
  by (simp add: bare_meta_def labelled_def drop_label_id)

lemma AddOwner_labels: "GetLabel (fst (AddOwner Version m c src)) n = GetLabel m n"
  using AddOwner_frame [of Version m c src] by (cases "AddOwner Version m c src") (simp add: GetLabel_def)

text \<open>The endpoint an update leads to.\<close>

definition updated ::
  "(GroupKind \<Rightarrow> string) \<Rightarrow> time \<Rightarrow> DNSLoadBalancerEndpoint \<Rightarrow> DNSLoadBalancerEndpointSpec \<Rightarrow> DNSLoadBalancer \<Rightarrow>
   SourceObject \<Rightarrow> DNSLoadBalancerEndpoint" where
  "updated Version now ep spec lb src =
     \<lparr>ep_meta = fst (AddOwner Version (bare_meta (ep_meta ep)) (m_cluster (ep_meta ep)) src),
      ep_spec = spec,
      ep_status = (ep_status ep)\<lparr>eps_ValidUntil := deadline_value (eps_ValidUntil (ep_status ep))
        (UpdateDeadline now (EndpointValidityInterval (lb_spec lb)) (eps_ValidUntil (ep_status ep)))\<rparr>\<rparr>"

lemma deadline_value_same: "\<not> deadline_differs old t \<Longrightarrow> deadline_value old t = old"
  by (cases t) auto

lemma updateEndpoint_eq:
  assumes "m_labels (ep_meta newep) = None"
  shows "updateEndpoint Version now ep newep lb src =
    Ok (updated Version now ep (ep_spec newep) lb src,
        labelled (ep_meta ep) \<or> snd (AddOwner Version (bare_meta (ep_meta ep)) (m_cluster (ep_meta ep)) src) \<or>
        ep_spec ep \<noteq> ep_spec newep \<or>
        deadline_differs (eps_ValidUntil (ep_status ep))
          (UpdateDeadline now (EndpointValidityInterval (lb_spec lb)) (eps_ValidUntil (ep_status ep))))"
proof -
  let ?old = "eps_ValidUntil (ep_status ep)"
  let ?t = "UpdateDeadline now (EndpointValidityInterval (lb_spec lb)) ?old"
  obtain m b where ao: "AddOwner Version (bare_meta (ep_meta ep)) (m_cluster (ep_meta ep)) src = (m, b)"
    by (meson surj_pair)
  have labels: "GetLabel (ep_meta newep) n = ''''" for n using assms by (simp add: GetLabel_def)
  have status: "(if deadline_differs ?old ?t then (ep_status ep)\<lparr>eps_ValidUntil := deadline_value ?old ?t\<rparr> else ep_status ep) =
      (ep_status ep)\<lparr>eps_ValidUntil := deadline_value ?old ?t\<rparr>"
    by (cases "ep_status ep") (auto simp: deadline_value_same)
  have spec: "ep_spec ep \<noteq> ep_spec newep \<longleftrightarrow> IPAddress (ep_spec ep) \<noteq> IPAddress (ep_spec newep) \<or>
      CName (ep_spec ep) \<noteq> CName (ep_spec newep) \<or> LoadBalancerRef (ep_spec ep) \<noteq> LoadBalancerRef (ep_spec newep)"
    "\<lparr>LoadBalancerRef = LoadBalancerRef (ep_spec newep), IPAddress = IPAddress (ep_spec newep),
      CName = CName (ep_spec newep)\<rparr> = ep_spec newep"
    by (cases "ep_spec ep"; cases "ep_spec newep"; auto)+
  show ?thesis
    using ao unfolding updateEndpoint_def updated_def labels
    by (auto simp: AssureLabel_empty bare_meta_def [symmetric] AddOwners_def labelled_def status spec Let_def)
qed

lemma newEndpoint_sel:
  "m_labels (ep_meta (newEndpoint Version target now lb src)) = None"
  "m_cluster (ep_meta (newEndpoint Version target now lb src)) = target"
  "m_namespace (ep_meta (newEndpoint Version target now lb src)) = m_namespace (lb_meta lb)"
  "ep_spec (newEndpoint Version target now lb src) =
     \<lparr>LoadBalancerRef = m_name (lb_meta lb), IPAddress = fst (src_GetTargets src lb), CName = snd (src_GetTargets src lb)\<rparr>"
  by (auto simp: newEndpoint_def AddOwner_def SetOwnerReference_def SetAnnotation_def Let_def split: prod.split)

lemma settles:
  assumes "recordable Version (bare_meta (ep_meta ep)) src"
    and "updateEndpoint Version now ep (newEndpoint Version target now0 lb src) lb src = Ok (ep', md)"
    and "\<forall>t. eps_ValidUntil (ep_status ep') = Some t \<longrightarrow> 120 * Second < time_Sub t now'"
  shows "updateEndpoint Version now' ep' (newEndpoint Version target now1 lb src) lb src = Ok (ep', False)"
proof -
  let ?spec = "ep_spec (newEndpoint Version target now0 lb src)"
  let ?d = "EndpointValidityInterval (lb_spec lb)"
  have ep': "ep' = updated Version now ep ?spec lb src"
    using assms(2) by (simp add: updateEndpoint_eq newEndpoint_sel)
  obtain m b where ao: "AddOwner Version (bare_meta (ep_meta ep)) (m_cluster (ep_meta ep)) src = (m, b)"
    by (meson surj_pair)
  have meta: "ep_meta ep' = m" using ao by (simp add: ep' updated_def)
  have again: "AddOwner Version m (m_cluster (ep_meta ep)) src = (m, False)"
    using AddOwner_both [OF assms(1)] ao by simp
  have cl: "m_cluster m = m_cluster (ep_meta ep)" using AddOwner_frame [OF ao] by simp
  have lab: "\<not> labelled m"
  proof -
    have "GetLabel m n = GetLabel (bare_meta (ep_meta ep)) n" for n
      using AddOwner_labels [of Version "bare_meta (ep_meta ep)" "m_cluster (ep_meta ep)" src] ao by simp
    then show ?thesis using bare_meta_sel(6) [of "ep_meta ep"] by (simp add: labelled_def)
  qed
  let ?v = "eps_ValidUntil (ep_status ep')"
  have spec: "ep_spec ep' = ?spec" by (simp add: ep' updated_def)
  have keep: "\<not> deadline_differs ?v (UpdateDeadline now' ?d ?v)"
  proof (cases "?d = None \<or> ?d = Some 0")
    case True
    then have "?v = None" by (auto simp: ep' updated_def UpdateDeadline_def)
    with True show ?thesis by (auto simp: UpdateDeadline_def)
  next
    case False
    then obtain dur where dur: "?d = Some dur" "dur \<noteq> 0" by auto
    then have "\<exists>t. ?v = Some t"
      by (cases "eps_ValidUntil (ep_status ep)") (simp_all add: ep' updated_def UpdateDeadline_def)
    then obtain t where "?v = Some t" by blast
    with dur assms(3) show ?thesis by (simp add: UpdateDeadline_def)
  qed
  have "updated Version now' ep' ?spec lb src = ep'"
  proof -
    have "fst (AddOwner Version (bare_meta (ep_meta ep')) (m_cluster (ep_meta ep')) src) = ep_meta ep'"
      unfolding meta bare_meta_id [OF lab] cl again by simp
    with spec deadline_value_same [OF keep] show ?thesis
      by (cases ep'; cases "ep_status ep'") (simp add: updated_def)
  qed
  moreover have "ep_spec (newEndpoint Version target now1 lb src) = ?spec" by (simp add: newEndpoint_sel)
  ultimately show ?thesis
    using lab spec keep cl again
    by (simp add: updateEndpoint_eq newEndpoint_sel(1) meta bare_meta_id [OF lab])
qed

text \<open>
  C23. Updates settle. Once an endpoint has been brought up to date for a load balancer and a
  source, bringing it up to date again finds nothing to change, as long as its validity does not
  run out within two minutes (or there is none).
\<close>

theorem update_settles:
  assumes "recordable Version (bare_meta (ep_meta ep)) src"
    and "updateEndpoint Version now ep (newEndpoint Version target now0 lb src) lb src = Ok (ep', md)"
    and "\<forall>t. eps_ValidUntil (ep_status ep') = Some t \<longrightarrow> 120 * Second < time_Sub t now'"
  shows "updateEndpoint Version now' ep' (newEndpoint Version target now1 lb src) lb src = Ok (ep', False)"
  by (rule settles [OF assms])

lemma sample_labels: "\<not> labelled (ep_meta (sample_ep n c))"
  by (simp add: labelled_def GetLabel_def sample_defs)

lemma sample_recordable: "recordable (\<lambda>_. ''v1'') (sample_meta n) (sample_service ''src'')"
proof -
  have "readable_key (s_ClusterKey (sample_service ''src''))"
    by (simp add: readable_key_def plain_def sample_service_def sample_meta_def)
  moreover have "AsRefFor (s_ClusterKey (sample_service ''src'')) ''target'' = ''src:/Service/ns/svc''"
    by (simp add: AsRefFor_def asString_def ObjectKey_String_def ObjectName_String_def sample_service_def sample_meta_def)
  ultimately show ?thesis by (simp add: recordable_def listable_def sample_meta_def TrimSpace_id is_space_def)
qed

theorem update_settles_witness:
  "\<exists>ep'. updateEndpoint (\<lambda>_. ''v1'') 0 (sample_ep ''ep1'' ''a'')
       (newEndpoint (\<lambda>_. ''v1'') ''target'' 0 sample_lb (sample_service ''src'')) sample_lb (sample_service ''src'') = Ok (ep', True) \<and>
     updateEndpoint (\<lambda>_. ''v1'') 9 ep'
       (newEndpoint (\<lambda>_. ''v1'') ''target'' 9 sample_lb (sample_service ''src'')) sample_lb (sample_service ''src'') = Ok (ep', False)"
proof -
  let ?V = "\<lambda>_ :: GroupKind. ''v1''" and ?s = "sample_service ''src''" and ?ep = "sample_ep ''ep1'' ''a''"
  let ?new = "\<lambda>n. newEndpoint ?V ''target'' n sample_lb ?s"
  have "src_GetTargets ?s sample_lb = (''10.0.0.9'', '''')"
    by (simp add: service_GetTargets_def status_target_def sample_service_def)
  then have "IPAddress (ep_spec (?new 0)) = ''10.0.0.9''" by (simp add: newEndpoint_sel)
  moreover have "IPAddress (ep_spec ?ep) = ''''" by (simp add: sample_ep_def)
  ultimately have ne: "ep_spec ?ep \<noteq> ep_spec (?new 0)" by auto
  let ?ep' = "updated ?V 0 ?ep (ep_spec (?new 0)) sample_lb ?s"
  have first: "updateEndpoint ?V 0 ?ep (?new 0) sample_lb ?s = Ok (?ep', True)"
    using ne by (simp add: updateEndpoint_eq newEndpoint_sel(1))
  have rec: "recordable ?V (bare_meta (ep_meta ?ep)) ?s"
    unfolding bare_meta_id [OF sample_labels] using sample_recordable [of "''ep1''"] by (simp add: sample_ep_def)
  have "eps_ValidUntil (ep_status ?ep') = None"
    by (simp add: updated_def UpdateDeadline_def sample_lb_def)
  with update_settles [where now' = 9 and ?now1.0 = 9, OF rec first] first show ?thesis by auto
qed

end
