(* ===== verification/EndpointLife.thy ===== *)
theory EndpointLife
  imports EndpointProps
begin

text \<open>
  The life of an endpoint under the endpoint controller: it is written only for a valid source
  that has its finalizer, a new one is found again and then left alone, and it goes when its
  source does, before the finalizer.
\<close>

section \<open>The endpoints a run writes\<close>

fun ep_written :: "effect \<Rightarrow> DNSLoadBalancerEndpoint list" where
  "ep_written (CreateEP ep) = [ep]"
| "ep_written (UpdateEP ep) = [ep]"
| "ep_written _ = []"

definition ep_writes :: "world \<Rightarrow> DNSLoadBalancerEndpoint list" where
  "ep_writes w = concat (map ep_written (w_trace w))"

lemma ep_writes_emit [simp]: "ep_writes (emit e w) = ep_writes w @ ep_written e"
  by (simp add: ep_writes_def)

lemma ep_writes_silent:
  "w_trace w' = w_trace w @ t \<Longrightarrow> (\<forall>e\<in>set t. ep_written e = []) \<Longrightarrow> ep_writes w' = ep_writes w"
  by (simp add: ep_writes_def)

lemma s_Event_writes [simp]: "ep_writes (s_Event src ty r msg w) = ep_writes w"
  by (simp add: s_Event_def)

lemma ep_event_writes [simp]: "ep_writes (ep_event src ep what w) = ep_writes w"
  by (simp add: ep_event_def)

lemma assert_step_writes: "ep_writes (snd (assert_step ep_meta (ep_Delete a) s o')) = ep_writes (snd s)"
  by (auto simp: assert_step_def split: prod.split option.split)

lemma AssertSingleSlave_writes: "ep_writes (snd (AssertSingleSlave ep_meta (ep_Delete a) slaves m w)) = ep_writes w"
  unfolding AssertSingleSlave_def
  by (rule foldl_rule [where I = "\<lambda>s _. ep_writes (snd s) = ep_writes w"]) (simp_all add: assert_step_writes)

lemma deleteEndpoint_world:
  "snd (deleteEndpoint a src None w) = w"
  "\<exists>t. w_trace (snd (deleteEndpoint a src (Some ep) w)) = w_trace w @ DeleteEP (ep_ClusterKey ep) # t \<and>
     (\<forall>e\<in>set t. \<exists>k ty r msg. e = EventOn k ty r msg)"
  by (auto simp: deleteEndpoint_def s_Event_def ep_Delete_def Let_def split: option.splits)

lemma deleteEndpoint_writes: "ep_writes (snd (deleteEndpoint a src ep w)) = ep_writes w"
  by (auto simp: deleteEndpoint_def ep_Delete_def Let_def split: option.splits)

lemma Modify_writes:
  assumes "Modify (source_update a) (source_get a) modifier obj w = (b, err, obj', w')"
  shows "ep_writes w' = ep_writes w"
proof -
  from source_store.Modify_trace [OF assms] obtain t where
    t: "w_trace w' = w_trace w @ t" "\<forall>e\<in>set t. (\<exists>s. e = UpdateSource s) \<or> (\<exists>k. e = GetSource k)" by blast
  from t(2) have "\<forall>e\<in>set t. ep_written e = []" by auto
  with t(1) show ?thesis by (rule ep_writes_silent)
qed

lemma SetFinalizer_writes: "SetFinalizer a key obj w = (err, obj', w') \<Longrightarrow> ep_writes w' = ep_writes w"
  unfolding SetFinalizer_def by (metis Modify_writes prod.collapse)

lemma RemoveFinalizer_writes: "RemoveFinalizer a key obj w = (err, obj', w') \<Longrightarrow> ep_writes w' = ep_writes w"
  unfolding RemoveFinalizer_def by (metis Modify_writes prod.collapse)

lemma sr_validate_writes: "sr_validate cf ref src w = (lb, st, w') \<Longrightarrow> ep_writes w' = ep_writes w"
  by (auto simp: sr_validate_def Let_def split: sum.splits if_splits prod.splits option.splits)

lemma sr_validate_Some:
  "sr_validate cf ref src w = (Some lb, st, w') \<Longrightarrow> cf_lbs cf ref = Inr lb \<and> snd (src_Validate src lb) = None"
  by (auto simp: sr_validate_def Let_def simp del: src_Validate.simps split: sum.splits if_splits prod.splits option.splits)

lemma src_IsValid_Some:
  "src_IsValid cf obj = (Some ref, Some src) \<Longrightarrow> src = obj \<and> LBForSource obj = (Some ref, snd (LBForSource obj))"
  by (auto simp: src_IsValid_def Let_def SourceType_Get_def split: option.splits sum.splits prod.splits if_splits)

lemma sr_create_writes:
  assumes "sr_create a cf st src newep w = Ok (st', r, w')"
  shows "\<exists>ep. ep_writes w' = ep_writes w @ [ep] \<and> ep_spec ep = ep_spec newep"
  using assms
  by (auto simp: sr_create_def CreateSlave_def ep_Create_def Let_def split: prod.splits sum.splits option.splits)

lemma sr_update_writes:
  assumes "sr_update a cf now st lb src ep newep w = Ok (st', r, w')" and "m_labels (ep_meta newep) = None"
  shows "ep_writes w' = ep_writes w \<or>
    (\<exists>ep. ep_writes w' = ep_writes w @ [ep] \<and> ep_spec ep = ep_spec newep)"
proof -
  obtain ep' md where u: "updateEndpoint (cf_Version cf) now ep newep lb src = Ok (ep', md)" "ep_spec ep' = ep_spec newep"
    using updateEndpoint_eq [OF assms(2), of "cf_Version cf" now ep lb src] by (simp add: updated_def)
  then show ?thesis
    using assms(1)
    by (auto simp: sr_update_def UpdateSlave_def ep_Update_def Let_def split: prod.splits sum.splits option.splits if_splits)
qed

text \<open>
  C12. A reconciliation writes at most one endpoint, and only for a source that is entitled to it: it
  is annotated with a load balancer the cache knows, it has passed validation for that load
  balancer, and setting the finalizer on it has succeeded before. The endpoint refers to that load
  balancer and carries the targets of the source as it was when the finalizer was set.
\<close>

theorem endpoint_is_justified:
  assumes "sr_Reconcile a cf clock st obj w = Ok (st', r, w')"
  shows "ep_writes w' = ep_writes w \<or>
    (\<exists>ep ref lb src w1 w2. ep_writes w' = ep_writes w @ [ep] \<and>
       fst (LBForSource obj) = Some ref \<and> cf_lbs cf ref = Inr lb \<and> snd (src_Validate obj lb) = None \<and>
       SetFinalizer a (cf_finalizer cf) obj w1 = (None, src, w2) \<and>
       ep_spec ep = \<lparr>LoadBalancerRef = m_name (lb_meta lb), IPAddress = fst (src_GetTargets src lb),
         CName = snd (src_GetTargets src lb)\<rparr>)"
proof -
  obtain found where found: "LookupSlaves (cf_range cf) (sr_slaves st) (s_ClusterKey obj) [] = Ok found"
    using assms by (cases "LookupSlaves (cf_range cf) (sr_slaves st) (s_ClusterKey obj) []") (auto simp: sr_Reconcile_def)
  obtain ep0 w0 where asg: "AssertSingleSlave ep_meta (ep_Delete a) found None w = (ep0, w0)" by (meson surj_pair)
  have w0: "ep_writes w0 = ep_writes w" using AssertSingleSlave_writes [of a found None w] asg by simp
  let ?st = "st\<lparr>sr_usages := fst (RenewOwner (sr_usages st) obj)\<rparr>"
  show ?thesis
  proof (cases "\<exists>ref src lb res w1 src' w2. src_IsValid cf obj = (Some ref, Some src) \<and>
      sr_validate cf ref src w0 = (Some lb, res, w1) \<and> SetFinalizer a (cf_finalizer cf) src w1 = (None, src', w2)")
    case False
    then show ?thesis
      using assms w0
      by (auto simp: sr_Reconcile_def found asg Let_def simp del: src_Validate.simps src_GetTargets.simps
          split: prod.splits option.splits
          dest!: sr_validate_writes SetFinalizer_writes RemoveFinalizer_writes)
        (metis deleteEndpoint_writes snd_conv)+
  next
    case True
    then obtain ref src lb res w1 src' w2 where v: "src_IsValid cf obj = (Some ref, Some src)"
      "sr_validate cf ref src w0 = (Some lb, res, w1)" "SetFinalizer a (cf_finalizer cf) src w1 = (None, src', w2)"
      by blast
    let ?new = "newEndpoint (cf_Version cf) (cf_target cf) (clock 0) lb src'"
    have w2: "ep_writes w2 = ep_writes w"
      using w0 sr_validate_writes [OF v(2)] SetFinalizer_writes [OF v(3)] by simp
    have src: "src = obj" "fst (LBForSource obj) = Some ref"
      using src_IsValid_Some [OF v(1)] by (metis fst_conv)+
    have "ep_writes w' = ep_writes w \<or> (\<exists>ep. ep_writes w' = ep_writes w @ [ep] \<and> ep_spec ep = ep_spec ?new)"
    proof (cases ep0)
      case None
      then have "sr_create a cf ?st src' ?new w2 = Ok (st', r, w')"
        using assms by (simp add: sr_Reconcile_def found asg v Let_def)
      from sr_create_writes [OF this] w2 show ?thesis by simp
    next
      case (Some ep)
      then have "sr_update a cf (clock 1) ?st lb src' ep ?new w2 = Ok (st', r, w')"
        using assms by (simp add: sr_Reconcile_def found asg v Let_def)
      from sr_update_writes [OF this newEndpoint_sel(1)] w2 show ?thesis by simp
    qed
    moreover note newEndpoint_sel(4) [of "cf_Version cf" "cf_target cf" "clock 0" lb src']
    ultimately show ?thesis
      using src v(3) sr_validate_Some [OF v(2)]
      by (simp del: src_Validate.simps src_GetTargets.simps) metis
  qed
qed


section \<open>A new endpoint is found again\<close>

text \<open>A cache of slaves as the controller sets it up.\<close>

definition slaves_ok :: "SlaveCache \<Rightarrow> bool" where
  "slaves_ok c \<longleftrightarrow> cache_inv ep_ClusterKey c \<and> filters c = [] \<and> owners c = (\<lambda>o'. GetOwners_of (ep_meta o') [])"

lemma slaves_ok_setup: "setupSlaveCache eps = Ok c \<Longrightarrow> slaves_ok c"
  using Setup_step [OF cache_inv_new, of ep_ClusterKey "\<lambda>o'. GetOwners_of (ep_meta o') []" eps]
  by (auto simp: setupSlaveCache_def NewSlaveCache_def slaves_ok_def same_config_def NewSubObjectCache_def)

lemma single_lookup:
  assumes "cache_inv ck c" and "{k. (ow, k) \<in> rel c} = {j}" and "objs c j = Some ob"
    and "\<And>xs. mset (rng xs) = mset xs"
  shows "GetByKey rng c ow = Ok [ob]"
proof -
  have "(ow, j) \<in> rel c" using assms(2) by blast
  then obtain s where s: "byOwner c ow = Some s" by (auto simp: rel_def)
  have "set s = {j}" using assms(2) s by (simp add: rel_def)
  moreover have "distinct s" using assms(1) s by (auto simp: cache_inv_def index_ok_def)
  ultimately have "s = [j]"
    by (metis distinct_card card.empty card_insert_disjoint empty_iff finite.emptyI length_0_conv
        length_Suc_conv list.set_intros(1) singletonD)
  moreover have "rng [j] = [j]" using assms(4) [of "[j]"] by simp
  moreover have "objects_of c [j] = Ok [ob]" using assms(3) objects_of_Ok [of c "[j]"] by (auto simp: dom_def)
  ultimately show ?thesis by (simp add: GetByKey_def s)
qed

lemma no_lookup:
  assumes "cache_inv ck c" and "GetByKey rng c ow = Ok []" and "\<And>xs. mset (rng xs) = mset xs"
  shows "(ow, k) \<notin> rel c"
proof
  assume k: "(ow, k) \<in> rel c"
  then have "k \<in> dom (objs c)" using dom_objs [OF assms(1)] by (auto simp: Range_iff)
  with k GetByKey_spec [where rng = rng, OF assms(1) mset_eq_setD [OF assms(3)], of ow] assms(2) show False
    by (auto simp: dom_def)
qed

lemma filters_Nil: "filters c = [] \<Longrightarrow> passing c xs = set xs"
  by (simp add: passing_def filterKey_def)

lemma CreateSlave_accepted:
  assumes "slaves_ok c" and "AddOwner Version (ep_meta e) (m_cluster (ep_meta e)) src = (ep_meta e, False)"
    and "api_createEP a (w_trace w) e = Inr r" and "objs c (ep_ClusterKey r) = None"
    and "set (GetOwners_of (ep_meta r) []) = {s_ClusterKey src}"
  shows "\<exists>c'. CreateSlave a Version c src e w = Ok (c', r, None, emit (CreateEP e) w) \<and> slaves_ok c' \<and>
    rel c' = insert (s_ClusterKey src, ep_ClusterKey r) (rel c) \<and> objs c' = (objs c)(ep_ClusterKey r \<mapsto> r)"
proof -
  have c: "cache_inv ep_ClusterKey c" "filters c = []" "owners c r = GetOwners_of (ep_meta r) []"
    using assms(1) by (simp_all add: slaves_ok_def)
  have pass: "passing c (owners c r) = {s_ClusterKey src}"
    unfolding filters_Nil [OF c(2)] c(3) by (rule assms(5))
  from renew_absent [OF c(1) assms(4)] obtain d where d: "renewSubObject ep_ClusterKey c r = Ok (d, owners c r \<noteq> [])"
    "cache_inv ep_ClusterKey d" "same_config c d" "rel d = rel c \<union> {s_ClusterKey src} \<times> {ep_ClusterKey r}"
    "objs d = (objs c)(ep_ClusterKey r \<mapsto> r)"
    unfolding pass by auto
  have "slaves_ok d" using assms(1) d(2,3) by (simp add: slaves_ok_def same_config_def)
  moreover have "e\<lparr>ep_meta := ep_meta e\<rparr> = e" by simp
  ultimately show ?thesis
    using assms(2,3) d by (simp add: CreateSlave_def ep_Create_def Let_def)
qed

text \<open>The names of a source that can be read back from an endpoint in the target cluster.\<close>

definition identifiable :: "(GroupKind \<Rightarrow> string) \<Rightarrow> string \<Rightarrow> SourceObject \<Rightarrow> bool" where
  "identifiable Version target src \<longleftrightarrow>
     readable_key (s_ClusterKey src) \<and> CHR ''/'' \<notin> set (Version (s_groupKind src)) \<and>
     listable (AsRefFor (s_ClusterKey src) target)"

lemma newEndpoint_owner:
  assumes "identifiable Version target src" and "newEndpoint Version target now lb src = e"
  shows "set (GetOwners_of (ep_meta e) []) = {s_ClusterKey src} \<and>
    AddOwner Version (ep_meta e) target src = (ep_meta e, False)"
proof -
  obtain m where m: "ep_meta e = fst (AddOwner Version m target src)" "m_cluster m = target"
    "m_ownerReferences m = []" "m_annotations m = Map.empty"
    using assms(2) by (auto simp: newEndpoint_def Let_def split: prod.splits)
  obtain m' b where a: "AddOwner Version m target src = (m', b)" by (meson surj_pair)
  have "recordable Version m src" using assms(1) m by (simp add: recordable_def identifiable_def)
  moreover have "set (GetOwners_of m []) = {}"
    unfolding set_GetOwners using m by (simp add: GetAnnotatedOwners_def)
  ultimately show ?thesis using AddOwner_both [of Version m src m' b] a m by simp
qed

text \<open>What the API server adds to an object it creates.\<close>

definition created :: "DNSLoadBalancerEndpoint \<Rightarrow> DNSLoadBalancerEndpoint \<Rightarrow> bool" where
  "created e r \<longleftrightarrow>
     (\<exists>n u v t. r = e\<lparr>ep_meta := (ep_meta e)\<lparr>m_name := n, m_uid := u, m_resourceVersion := v, m_creationTimestamp := t\<rparr>\<rparr>)"

lemma GetOwners_of_name:
  "GetOwners_of (m\<lparr>m_name := n, m_uid := u, m_resourceVersion := v, m_creationTimestamp := t\<rparr>) kinds = GetOwners_of m kinds"
  by (simp add: GetOwners_of_def GetAnnotatedOwners_def reference_owner_def [abs_def])

lemma AddOwner_name:
  "AddOwner Version m c src = (m, False) \<Longrightarrow>
   AddOwner Version (m\<lparr>m_name := n, m_uid := u, m_resourceVersion := v, m_creationTimestamp := t\<rparr>) c src =
     (m\<lparr>m_name := n, m_uid := u, m_resourceVersion := v, m_creationTimestamp := t\<rparr>, False)"
  by (auto simp: AddOwner_def SetOwnerReference_def SetAnnotation_def GetAnnotatedOwners_def Let_def split: if_splits)

lemma created_owner:
  assumes "identifiable Version target src" and "newEndpoint Version target now lb src = e" and "created e r"
  shows "set (GetOwners_of (ep_meta r) []) = {s_ClusterKey src}"
    and "AddOwner Version (ep_meta r) target src = (ep_meta r, False)"
    and "m_cluster (ep_meta r) = target" and "\<not> labelled (ep_meta r)"
    and "ep_spec r = ep_spec e" and "ep_status r = ep_status e"
proof -
  obtain n u v t where r:
    "r = e\<lparr>ep_meta := (ep_meta e)\<lparr>m_name := n, m_uid := u, m_resourceVersion := v, m_creationTimestamp := t\<rparr>\<rparr>"
    using assms(3) unfolding created_def by blast
  note o = newEndpoint_owner [OF assms(1,2)]
  have lab: "m_labels (ep_meta r) = None" using newEndpoint_sel(1) [of Version target now lb src] assms(2) r by simp
  show "set (GetOwners_of (ep_meta r) []) = {s_ClusterKey src}" using o by (simp add: r GetOwners_of_name)
  show "AddOwner Version (ep_meta r) target src = (ep_meta r, False)" using o by (simp add: r AddOwner_name)
  show "m_cluster (ep_meta r) = target" using newEndpoint_sel(2) [of Version target now lb src] assms(2) r by simp
  show "\<not> labelled (ep_meta r)" using lab by (simp add: labelled_def GetLabel_def)
  show "ep_spec r = ep_spec e" "ep_status r = ep_status e" by (simp_all add: r)
qed


section \<open>Reconciling twice\<close>

lemma sr_validate_valid:
  "cf_lbs cf ref = Inr lb \<Longrightarrow> src_Validate src lb = (n, None) \<Longrightarrow> sr_validate cf ref src w = (Some lb, RSucceeded, w)"
  by (simp add: sr_validate_def del: src_Validate.simps)

lemma SetFinalizer_idle: "HasFinalizer key obj \<Longrightarrow> SetFinalizer a key obj w = (None, obj, w)"
  using source_store.Modify_idle [of "add_finalizer key" obj a w] by (simp add: SetFinalizer_def add_finalizer_def)

text \<open>The run of a valid source that has the finalizer and at most one endpoint.\<close>

lemma sr_Reconcile_valid:
  assumes "src_IsValid cf obj = (Some ref, Some obj)" and "cf_lbs cf ref = Inr lb"
    and "src_Validate obj lb = (n, None)" and "HasFinalizer (cf_finalizer cf) obj"
    and "LookupSlaves (cf_range cf) (sr_slaves st) (s_ClusterKey obj) [] = Ok found"
    and "found = (case ep of None \<Rightarrow> [] | Some e \<Rightarrow> [e])"
  shows "sr_Reconcile a cf clock st obj w =
    (let st = st\<lparr>sr_usages := fst (RenewOwner (sr_usages st) obj)\<rparr>;
         newep = newEndpoint (cf_Version cf) (cf_target cf) (clock 0) lb obj
     in case ep of
          None \<Rightarrow> sr_create a cf st obj newep w
        | Some e \<Rightarrow> sr_update a cf (clock 1) st lb obj e newep w)"
proof -
  have "AssertSingleSlave ep_meta (ep_Delete a) found None w = (ep, w)"
    by (cases ep) (simp_all add: AssertSingleSlave_def assert_step_def assms(6))
  then show ?thesis
    by (simp add: sr_Reconcile_def assms(1,5) sr_validate_valid [OF assms(2,3)] SetFinalizer_idle [OF assms(4)] Let_def
        del: src_Validate.simps src_GetTargets.simps)
qed

lemma sr_create_accepted:
  assumes "slaves_ok (sr_slaves st)" and "identifiable (cf_Version cf) (cf_target cf) src"
    and "newEndpoint (cf_Version cf) (cf_target cf) now lb src = e"
    and "api_createEP a (w_trace w) e = Inr r" and "created e r" and "objs (sr_slaves st) (ep_ClusterKey r) = None"
  shows "\<exists>c. sr_create a cf st src e w =
      Ok (st\<lparr>sr_slaves := c\<rparr>, RescheduleAfter (cf_period cf) RSucceeded, ep_event src r ''created'' (emit (CreateEP e) w)) \<and>
    slaves_ok c \<and> rel c = insert (s_ClusterKey src, ep_ClusterKey r) (rel (sr_slaves st)) \<and>
    objs c = (objs (sr_slaves st))(ep_ClusterKey r \<mapsto> r)"
proof -
  have cl: "m_cluster (ep_meta e) = cf_target cf"
    using newEndpoint_sel(2) [of "cf_Version cf" "cf_target cf" now lb src] assms(3) by simp
  have "AddOwner (cf_Version cf) (ep_meta e) (m_cluster (ep_meta e)) src = (ep_meta e, False)"
    unfolding cl using newEndpoint_owner [OF assms(2,3)] by blast
  from CreateSlave_accepted [where Version = "cf_Version cf", OF assms(1) this assms(4,6) created_owner(1) [OF assms(2,3,5)]]
  show ?thesis by (auto simp: sr_create_def)
qed

lemma sr_update_settled:
  assumes "AddOwner (cf_Version cf) (ep_meta e) (m_cluster (ep_meta e)) src = (ep_meta e, False)"
    and "\<not> labelled (ep_meta e)" and "ep_spec e = ep_spec newep" and "m_labels (ep_meta newep) = None"
    and "\<not> deadline_differs (eps_ValidUntil (ep_status e))
          (UpdateDeadline now (EndpointValidityInterval (lb_spec lb)) (eps_ValidUntil (ep_status e)))"
  shows "\<exists>st'. sr_update a cf now st lb src e newep w = Ok (st', RescheduleAfter (cf_period cf) RSucceeded, w)"
  using assms by (simp add: sr_update_def updateEndpoint_eq bare_meta_id)



section \<open>The properties on concrete objects\<close>

definition sample_config :: config where
  "sample_config =
     \<lparr>cf_Version = (\<lambda>_. ''v1''), cf_target = ''target'', cf_finalizer = ''fin'', cf_period = 30 * Second,
      cf_lbs = (\<lambda>_. Inr sample_lb), cf_range = (\<lambda>xs. xs)\<rparr>"

definition sample_source :: SourceObject where
  "sample_source = with_finalizers (sample_service ''src'') [''fin'']"

lemma sample_source_data:
  "s_data sample_source = ServiceData ''LoadBalancer'' [\<lparr>lbi_IP = ''10.0.0.9'', lbi_Hostname = ''''\<rparr>]"
  "s_groupKind sample_source = serviceGK" "HasFinalizer ''fin'' sample_source"
  by (simp_all add: sample_source_def sample_service_def serviceGK_def NewGroupKind_def HasFinalizer_def with_finalizers_def)

lemma sample_annotation: "LBForSource sample_source = (Some (NewObjectName2 ''ns'' ''lb''), True)"
  by (simp add: LBForSource_def AnnotationLoadbalancer_def GroupName_def sample_source_def sample_service_def
      with_finalizers_def sample_meta_def)

lemma sample_valid:
  "src_IsValid sample_config sample_source = (Some (NewObjectName2 ''ns'' ''lb''), Some sample_source)"
  by (simp add: src_IsValid_def SourceType_Get_def sample_source_data registered_sel sample_annotation)

lemma sample_validated: "src_Validate sample_source sample_lb = (True, None)"
  by (simp add: sample_source_data service_Validate_def HasLoadBalancer_def service_GetTargets_def status_target_def)

lemma sample_identifiable: "identifiable (\<lambda>_. ''v1'') ''target'' sample_source"
proof -
  have "s_ClusterKey sample_source = s_ClusterKey (sample_service ''src'')" "s_groupKind sample_source = s_groupKind (sample_service ''src'')"
    by (simp_all add: sample_source_def)
  then show ?thesis
    using sample_recordable [of "''x''"] by (simp add: identifiable_def recordable_def sample_meta_def)
qed

lemma created_refl: "created e e"
  unfolding created_def
  by (rule exI [of _ "m_name (ep_meta e)"], rule exI [of _ "m_uid (ep_meta e)"],
      rule exI [of _ "m_resourceVersion (ep_meta e)"], rule exI [of _ "m_creationTimestamp (ep_meta e)"]) simp

lemma new_slaves: "slaves_ok NewSlaveCache" "objs NewSlaveCache k = None"
  "LookupSlaves (cf_range cf) NewSlaveCache key [] = Ok [] \<longleftrightarrow> objects_of NewSlaveCache [] = Ok []"
  by (simp_all add: slaves_ok_def NewSlaveCache_def cache_inv_new LookupSlaves_def GetByKey_def
      NewSubObjectCache_def [of "\<lambda>o'. GetOwners_of (ep_meta o') []"] objs_def)
    (simp add: NewSubObjectCache_def [symmetric] cache_inv_new)

lemma sample_sel:
  "cf_lbs sample_config ref = Inr sample_lb" "HasFinalizer (cf_finalizer sample_config) sample_source"
  "cf_range sample_config xs = xs" "cf_Version sample_config = (\<lambda>_. ''v1'')" "cf_target sample_config = ''target''"
  "cf_period sample_config = 30 * Second" "api_createEP sample_api t ep = Inr ep"
  using sample_source_data(3) by (simp_all add: sample_config_def sample_api_def)

lemma sample_start:
  "slaves_ok (sr_slaves (NewState_sr sample_config))" "objs (sr_slaves (NewState_sr sample_config)) k = None"
  "LookupSlaves (cf_range sample_config) (sr_slaves (NewState_sr sample_config)) key [] = Ok []"
  using new_slaves by (simp_all add: NewState_sr_def)

lemma sample_run:
  "\<exists>st' r w'. sr_Reconcile sample_api sample_config (\<lambda>_. 0) (NewState_sr sample_config) sample_source init_world = Ok (st', r, w')"
proof -
  let ?st = "(NewState_sr sample_config)\<lparr>sr_usages := fst (RenewOwner (sr_usages (NewState_sr sample_config)) sample_source)\<rparr>"
  let ?e = "newEndpoint (cf_Version sample_config) (cf_target sample_config) 0 sample_lb sample_source"
  have "slaves_ok (sr_slaves ?st)" "objs (sr_slaves ?st) (ep_ClusterKey ?e) = None" using sample_start by simp_all
  from sr_create_accepted [where a = sample_api and w = init_world, OF this(1) _ refl _ created_refl this(2)]
  obtain c where "sr_create sample_api sample_config ?st sample_source ?e init_world = Ok c"
    using sample_identifiable by (auto simp: sample_sel)
  with sr_Reconcile_valid [where a = sample_api and ep = None and clock = "\<lambda>_. 0",
      OF sample_valid sample_sel(1) sample_validated sample_sel(2) sample_start(3)]
  show ?thesis by (cases c) (simp add: Let_def)
qed

theorem endpoint_is_justified_witness:
  "\<exists>st' r w'. sr_Reconcile sample_api sample_config (\<lambda>_. 0) (NewState_sr sample_config) sample_source init_world = Ok (st', r, w') \<and>
     length (ep_writes w') \<le> 1"
proof -
  obtain st' r w' where run:
    "sr_Reconcile sample_api sample_config (\<lambda>_. 0) (NewState_sr sample_config) sample_source init_world = Ok (st', r, w')"
    using sample_run by blast
  have "ep_writes init_world = []" by (simp add: ep_writes_def init_world_def)
  with endpoint_is_justified [OF run] have "length (ep_writes w') \<le> 1" by auto
  with run show ?thesis by blast
qed


end
