(* ===== verification/EndpointDelete.thy ===== *)
theory EndpointDelete
  imports EndpointLife
begin

text \<open>
  How the endpoint controller lets go: what deleting a source removes and in which order, the
  sources it does nothing for, and the updates of endpoints that are lost when the API server
  refuses them.
\<close>

section \<open>Deleting the endpoints of a source\<close>

definition is_gone :: "go_error option \<Rightarrow> bool" where
  "is_gone err \<longleftrightarrow> err = None \<or> IsNotFound err"

text \<open>The \<open>i\<close>-th deletion, and what the API server answered to it.\<close>

definition deletion_at :: "api \<Rightarrow> DNSLoadBalancerEndpoint list \<Rightarrow> trace \<Rightarrow> nat \<Rightarrow> bool \<Rightarrow> bool" where
  "deletion_at a eps t i g \<longleftrightarrow>
     (\<exists>before after. t = before @ DeleteEP (ep_ClusterKey (eps ! i)) # after \<and>
        length (filter (\<lambda>e. \<exists>k. e = DeleteEP k) after) = length eps - Suc i \<and>
        is_gone (api_deleteEP a before (ep_ClusterKey (eps ! i))) = g)"

lemma deletion_at_more:
  assumes "deletion_at a eps t i g" and "i < length eps" and "\<forall>e\<in>set rest. \<not> (\<exists>k. e = DeleteEP k)"
  shows "deletion_at a (eps @ [ep]) (t @ DeleteEP (ep_ClusterKey ep) # rest) i g"
proof -
  obtain b r where t: "t = b @ DeleteEP (ep_ClusterKey (eps ! i)) # r"
    "length (filter (\<lambda>e. \<exists>k. e = DeleteEP k) r) = length eps - Suc i"
    "is_gone (api_deleteEP a b (ep_ClusterKey (eps ! i))) = g"
    using assms(1) unfolding deletion_at_def by blast
  have "filter (\<lambda>e. \<exists>k. e = DeleteEP k) rest = []" using assms(3) by (simp add: filter_empty_conv)
  with t assms(2) show ?thesis
    unfolding deletion_at_def
    by (intro exI [of _ b] exI [of _ "r @ DeleteEP (ep_ClusterKey ep) # rest"]) (auto simp: nth_append)
qed

lemma delete_step_eq:
  "\<exists>rest. delete_step a src (failed, w) ep =
     (failed \<or> \<not> is_gone (api_deleteEP a (w_trace w) (ep_ClusterKey ep)), snd (delete_step a src (failed, w) ep)) \<and>
   w_trace (snd (delete_step a src (failed, w) ep)) = w_trace w @ DeleteEP (ep_ClusterKey ep) # rest \<and>
   (\<forall>e\<in>set rest. \<exists>k ty r msg. e = EventOn k ty r msg)"
  by (auto simp: delete_step_def deleteEndpoint_def ep_Delete_def is_gone_def s_Event_def Let_def split: option.splits)

lemma delete_all:
  "foldl (delete_step a src) (False, w) eps = (failed, w') \<Longrightarrow>
   writes (w_trace w') = writes (w_trace w) @ map (\<lambda>ep. DeleteEP (ep_ClusterKey ep)) eps \<and>
   (failed \<longrightarrow> (\<exists>i<length eps. deletion_at a eps (w_trace w') i False)) \<and>
   (\<not> failed \<longrightarrow> (\<forall>i<length eps. deletion_at a eps (w_trace w') i True))"
proof (induction eps arbitrary: failed w' rule: rev_induct)
  case (snoc ep eps)
  obtain f0 w0 where f0: "foldl (delete_step a src) (False, w) eps = (f0, w0)" by (meson surj_pair)
  note IH = snoc.IH [OF f0]
  let ?g = "is_gone (api_deleteEP a (w_trace w0) (ep_ClusterKey ep))"
  have step: "delete_step a src (f0, w0) ep = (failed, w')" using snoc.prems f0 by simp
  from delete_step_eq [of a src f0 w0 ep, unfolded step snd_conv] obtain rest where
    rest: "failed = (f0 \<or> \<not> ?g)" "w_trace w' = w_trace w0 @ DeleteEP (ep_ClusterKey ep) # rest"
    "\<forall>e\<in>set rest. \<exists>k ty r msg. e = EventOn k ty r msg" by auto
  have silent: "writes rest = []" and nodel: "\<forall>e\<in>set rest. \<not> (\<exists>k. e = DeleteEP k)"
    using rest(3) by (auto simp: writes_def filter_empty_conv)
  have old: "deletion_at a (eps @ [ep]) (w_trace w') i g" if "deletion_at a eps (w_trace w0) i g" "i < length eps" for i g
    unfolding rest(2) using deletion_at_more [OF that nodel] .
  have new: "deletion_at a (eps @ [ep]) (w_trace w') (length eps) ?g"
    unfolding deletion_at_def rest(2) using nodel
    by (intro exI [of _ "w_trace w0"] exI [of _ rest]) (simp add: filter_empty_conv)
  have "writes (w_trace w') = writes (w_trace w) @ map (\<lambda>ep. DeleteEP (ep_ClusterKey ep)) (eps @ [ep])"
    using IH silent by (simp add: rest(2))
  moreover have "\<exists>i<length (eps @ [ep]). deletion_at a (eps @ [ep]) (w_trace w') i False" if "failed"
  proof (cases f0)
    case True
    with IH old show ?thesis by (metis length_append_singleton less_Suc_eq)
  next
    case False
    with that rest(1) have "\<not> ?g" by simp
    with new show ?thesis by (intro exI [of _ "length eps"]) simp
  qed
  moreover have "\<forall>i<length (eps @ [ep]). deletion_at a (eps @ [ep]) (w_trace w') i True" if "\<not> failed"
    using that rest(1) IH old new by (auto simp: less_Suc_eq)
  ultimately show ?case by blast
qed simp

lemma RemoveFinalizer_trace:
  assumes "RemoveFinalizer a key obj w = (err, obj', w')"
  shows "\<exists>t. w_trace w' = w_trace w @ t \<and> (\<forall>e\<in>set t. (\<exists>s. e = UpdateSource s) \<or> (\<exists>k. e = GetSource k))"
proof -
  obtain b where "Modify (source_update a) (source_get a) (drop_finalizer key) obj w = (b, err, obj', w')"
    using assms by (auto simp: RemoveFinalizer_def) (metis prod.collapse)
  from source_store.Modify_trace [OF this] show ?thesis by blast
qed

text \<open>
  C6. Deleting a source that is annotated with a load balancer: a deletion is sent for each of its
  endpoints, in order, and before anything else. The finalizer of the source is touched only when
  the API server has answered every one of them that the endpoint is gone; otherwise the deletion
  is tried again later.
\<close>

theorem delete_removes_endpoints_first:
  assumes "src_IsValid cf obj = (ref, Some src)"
    and "LookupSlaves (cf_range cf) (sr_slaves st) (s_ClusterKey obj) [] = Ok eps"
  shows "\<exists>r w1 w'. sr_Delete a cf st obj w = Ok (st, r, w') \<and>
    writes (w_trace w1) = writes (w_trace w) @ map (\<lambda>ep. DeleteEP (ep_ClusterKey ep)) eps \<and>
    ((\<exists>i<length eps. deletion_at a eps (w_trace w1) i False) \<and> w' = w1 \<and>
       r = Delay (Some (OtherError ''some endpoint deletion failed'')) \<or>
     (\<forall>i<length eps. deletion_at a eps (w_trace w1) i True) \<and>
       (\<exists>err obj'. RemoveFinalizer a (cf_finalizer cf) obj w1 = (err, obj', w') \<and> r = DelayOnError err))"
proof -
  obtain failed w1 where f: "foldl (delete_step a src) (False, w) eps = (failed, w1)" by (meson surj_pair)
  obtain err obj' w2 where rm: "RemoveFinalizer a (cf_finalizer cf) obj w1 = (err, obj', w2)" by (rule prod_cases3)
  note d = delete_all [OF f]
  show ?thesis
  proof (cases failed)
    case True
    then have "sr_Delete a cf st obj w = Ok (st, Delay (Some (OtherError ''some endpoint deletion failed'')), w1)"
      by (simp add: sr_Delete_def assms f)
    with d True show ?thesis by blast
  next
    case False
    then have "sr_Delete a cf st obj w = Ok (st, DelayOnError err, w2)"
      by (simp add: sr_Delete_def assms f rm)
    with d False rm show ?thesis by blast
  qed
qed

text \<open>A state in which the sample source has one endpoint.\<close>

abbreviation sample_endpoint :: DNSLoadBalancerEndpoint where
  "sample_endpoint \<equiv> newEndpoint (\<lambda>_. ''v1'') ''target'' 0 sample_lb sample_source"

lemma sample_slaves:
  "\<exists>st :: sr_state. slaves_ok (sr_slaves st) \<and> {k. (s_ClusterKey sample_source, k) \<in> rel (sr_slaves st)} = {ep_ClusterKey sample_endpoint} \<and>
     objs (sr_slaves st) (ep_ClusterKey sample_endpoint) = Some sample_endpoint"
proof -
  let ?st = "NewState_sr sample_config"
  from sr_create_accepted [where a = sample_api and cf = sample_config and w = init_world and src = sample_source
      and lb = sample_lb and now = 0, OF sample_start(1) _ refl _ created_refl sample_start(2)]
  obtain c where "slaves_ok c" "rel c = insert (s_ClusterKey sample_source, ep_ClusterKey sample_endpoint) (rel (sr_slaves ?st))"
    "objs c = (objs (sr_slaves ?st))(ep_ClusterKey sample_endpoint \<mapsto> sample_endpoint)"
    using sample_identifiable by (auto simp: sample_sel)
  then show ?thesis
    by (intro exI [of _ "?st\<lparr>sr_slaves := c\<rparr>"]) (simp add: NewState_sr_def NewSlaveCache_def rel_def NewSubObjectCache_def)
qed

lemma LookupSlaves_single:
  assumes "slaves_ok c" and "{k. (ow, k) \<in> rel c} = {j}" and "objs c j = Some ob"
    and "\<And>xs. mset (rng xs) = mset xs"
  shows "LookupSlaves rng c ow [] = Ok [ob]"
proof -
  have "cache_inv ep_ClusterKey c" using assms(1) by (simp add: slaves_ok_def)
  from LookupSlaves_all [OF single_lookup [where rng = rng, OF this assms(2,3,4)]] show ?thesis .
qed

theorem delete_removes_endpoints_first_witness:
  "\<exists>(st :: sr_state) r w' rest. sr_Delete sample_api sample_config st sample_source init_world = Ok (st, r, w') \<and>
     writes (w_trace w') = DeleteEP (ep_ClusterKey sample_endpoint) # rest"
proof -
  obtain st :: sr_state where st: "slaves_ok (sr_slaves st)"
    "{k. (s_ClusterKey sample_source, k) \<in> rel (sr_slaves st)} = {ep_ClusterKey sample_endpoint}"
    "objs (sr_slaves st) (ep_ClusterKey sample_endpoint) = Some sample_endpoint"
    using sample_slaves by blast
  have "LookupSlaves (cf_range sample_config) (sr_slaves st) (s_ClusterKey sample_source) [] = Ok [sample_endpoint]"
    by (rule LookupSlaves_single [OF st]) (simp add: sample_sel)
  from delete_removes_endpoints_first [where a = sample_api and w = init_world, OF sample_valid this]
  obtain r w1 w' where d: "sr_Delete sample_api sample_config st sample_source init_world = Ok (st, r, w')"
    "writes (w_trace w1) = [DeleteEP (ep_ClusterKey sample_endpoint)]"
    "w' = w1 \<or> (\<exists>err obj'. RemoveFinalizer sample_api (cf_finalizer sample_config) sample_source w1 = (err, obj', w'))"
    by (auto simp: init_world_def)
  from d(3) have "\<exists>rest. writes (w_trace w') = DeleteEP (ep_ClusterKey sample_endpoint) # rest"
    using d(2) by (auto dest!: RemoveFinalizer_trace)
  with d(1) show ?thesis by blast
qed

section \<open>Sources that lose their annotation\<close>

text \<open>
  C32. A source that is being deleted and has no load balancer annotation (any more) is not cleaned up:
  nothing is written for it, whatever endpoints the cache holds for it and even if it has the
  finalizer, so its endpoints stay and the API server waits for the finalizer for ever. The
  annotation has to be reconciled away before the deletion.
\<close>

theorem delete_without_annotation:
  assumes "m_annotations (s_meta obj) AnnotationLoadbalancer = None"
  shows "sr_Delete a cf st obj w =
      Ok (st\<lparr>sr_usages := usage_DeleteOwner (sr_usages st) (s_ClusterKey obj)\<rparr>, RSucceeded, w)"
proof -
  have "src_IsValid cf obj = (None, None)"
    using assms by (auto simp: src_IsValid_def LBForSource_def split: option.split)
  then show ?thesis by (simp add: sr_Delete_def)
qed

theorem delete_without_annotation_witness:
  "\<exists>(st :: sr_state) st' obj. HasFinalizer (cf_finalizer sample_config) obj \<and>
     LookupSlaves (cf_range sample_config) (sr_slaves st) (s_ClusterKey obj) [] = Ok [sample_endpoint] \<and>
     sr_Delete sample_api sample_config st obj init_world = Ok (st', RSucceeded, init_world) \<and>
     sr_slaves st' = sr_slaves st"
proof -
  obtain st :: sr_state where st: "slaves_ok (sr_slaves st)"
    "{k. (s_ClusterKey sample_source, k) \<in> rel (sr_slaves st)} = {ep_ClusterKey sample_endpoint}"
    "objs (sr_slaves st) (ep_ClusterKey sample_endpoint) = Some sample_endpoint"
    using sample_slaves by blast
  have found: "LookupSlaves (cf_range sample_config) (sr_slaves st) (s_ClusterKey sample_source) [] = Ok [sample_endpoint]"
    by (rule LookupSlaves_single [OF st]) (simp add: sample_sel)
  let ?obj = "sample_source\<lparr>s_meta := (s_meta sample_source)\<lparr>m_annotations := Map.empty\<rparr>\<rparr>"
  let ?st' = "st\<lparr>sr_usages := usage_DeleteOwner (sr_usages st) (s_ClusterKey ?obj)\<rparr>"
  have "s_ClusterKey ?obj = s_ClusterKey sample_source" by (simp add: s_ClusterKey_def meta_ClusterKey_def)
  with found have "LookupSlaves (cf_range sample_config) (sr_slaves st) (s_ClusterKey ?obj) [] = Ok [sample_endpoint]" by metis
  moreover have "HasFinalizer (cf_finalizer sample_config) ?obj"
    using sample_sel(2) by (simp add: HasFinalizer_def)
  moreover have "m_annotations (s_meta ?obj) AnnotationLoadbalancer = None" by simp
  from delete_without_annotation [OF this]
  have "sr_Delete sample_api sample_config st ?obj init_world = Ok (?st', RSucceeded, init_world)" .
  moreover have "sr_slaves ?st' = sr_slaves st" by simp
  ultimately show ?thesis by blast
qed

section \<open>Updates that are lost\<close>

lemma updated_key: "ep_ClusterKey (updated Version now ep spec lb src) = ep_ClusterKey ep"
proof -
  obtain m b where a: "AddOwner Version (bare_meta (ep_meta ep)) (m_cluster (ep_meta ep)) src = (m, b)"
    by (meson surj_pair)
  from AddOwner_frame [OF a] a show ?thesis
    by (simp add: ep_ClusterKey_def meta_ClusterKey_def updated_def)
qed

lemma slaves_ok_changed:
  assumes "slaves_ok c" and "objs c (ep_ClusterKey ep) = Some old"
  shows "slaves_ok (set_object (ep_ClusterKey ep) ep c)" "rel (set_object (ep_ClusterKey ep) ep c) = rel c"
    and "objs (set_object (ep_ClusterKey ep) ep c) (ep_ClusterKey ep) = Some ep"
proof -
  have inv: "cache_inv ep_ClusterKey c" using assms(1) by (simp add: slaves_ok_def)
  note s = set_object_step [OF inv refl, of ep]
  have "ep_ClusterKey ep \<in> Range (rel c)" using dom_objs [OF inv] assms(2) by blast
  with s show "objs (set_object (ep_ClusterKey ep) ep c) (ep_ClusterKey ep) = Some ep" by simp
  show "rel (set_object (ep_ClusterKey ep) ep c) = rel c" using s by blast
  show "slaves_ok (set_object (ep_ClusterKey ep) ep c)"
    using s assms(1) by (simp add: slaves_ok_def same_config_def)
qed

lemma sr_update_refused:
  assumes "updateEndpoint (cf_Version cf) now ep newep lb src = Ok (ep', True)" and "m_labels (ep_meta newep) = None"
    and "api_updateEP a (w_trace w) ep' = Inl err"
  shows "\<exists>msg. sr_update a cf now st lb src ep newep w =
    Ok (st\<lparr>sr_slaves := set_object (ep_ClusterKey ep) ep' (sr_slaves st)\<rparr>,
        if IsConflict (Some err) then Repeat else Delay (Some (OtherError msg)), emit (UpdateEP ep') w)"
  using assms(1,3) by (auto simp: sr_update_def UpdateSlave_def ep_Update_def Let_def)



text \<open>The sample source with another address, and an API server that refuses updates of endpoints.\<close>

definition sample_moved :: SourceObject where
  "sample_moved = sample_source\<lparr>s_data := ServiceData ''LoadBalancer'' [\<lparr>lbi_IP = ''10.0.0.8'', lbi_Hostname = ''''\<rparr>]\<rparr>"

definition sample_down :: api where
  "sample_down = sample_api\<lparr>api_updateEP := \<lambda>_ _. Inl (OtherError ''down'')\<rparr>"

lemma sample_moved_sel:
  "s_ClusterKey sample_moved = s_ClusterKey sample_source" "s_meta sample_moved = s_meta sample_source"
  "s_groupKind sample_moved = s_groupKind sample_source"
  "src_Validate sample_moved sample_lb = (True, None)" "src_GetTargets sample_moved sample_lb = (''10.0.0.8'', '''')"
  "HasFinalizer (cf_finalizer sample_config) sample_moved"
  using sample_sel(2)
  by (simp_all add: sample_moved_def s_ClusterKey_def HasFinalizer_def service_Validate_def HasLoadBalancer_def
      service_GetTargets_def status_target_def)

lemma sample_moved_valid: "src_IsValid sample_config sample_moved = (Some (NewObjectName2 ''ns'' ''lb''), Some sample_moved)"
proof -
  have "LBForSource sample_moved = LBForSource sample_source" unfolding LBForSource_def sample_moved_sel ..
  then show ?thesis
    by (simp add: src_IsValid_def SourceType_Get_def sample_source_data registered_sel sample_annotation sample_moved_sel)
qed

lemma sample_moved_recordable: "recordable (\<lambda>_. ''v1'') (bare_meta (ep_meta sample_endpoint)) sample_moved"
proof -
  have "\<not> labelled (ep_meta sample_endpoint)" by (simp add: labelled_def GetLabel_def newEndpoint_sel)
  moreover have "m_ownerReferences (ep_meta sample_endpoint) = []"
    by (simp add: newEndpoint_def AddOwner_def SetAnnotation_def sample_source_def sample_service_def Let_def
        split: prod.split)
  moreover have "m_cluster (ep_meta sample_endpoint) = ''target''" by (simp add: newEndpoint_sel)
  ultimately show ?thesis
    using sample_identifiable by (simp add: recordable_def identifiable_def bare_meta_id sample_moved_sel)
qed



end
