(* ===== verification/System.thy ===== *)
theory System
  imports DnsSource EndpointDelete
begin

text \<open>
  The two controllers together. The endpoint controller writes endpoints into the cluster of the load
  balancer, the DNS controller reads them there; between the two is only the API server. A valid source
  is published once both controllers have seen what the other did, and it is withdrawn when it is gone.
\<close>

section \<open>Endpoints enter and leave the state\<close>

lemma renew_other:
  assumes "cache_inv ck c" and "renewSubObject ck c ob = Ok (d, b)" and "ck ob \<noteq> k"
  shows "objs d k = objs c k"
proof (cases "objs c (ck ob)")
  case None
  from renew_absent [OF assms(1) None] assms(2,3) show ?thesis by (auto split: if_splits)
next
  case (Some old)
  from renew_present [OF assms(1) Some] assms(2,3) show ?thesis by auto
qed

lemma setup_absent:
  assumes "cache_inv ck c" and "objs c k = None" and "\<forall>ob\<in>set obs. ck ob \<noteq> k"
    and "for_each (\<lambda>c s. for_each (\<lambda>c o'. add ck c o' s) c (f s)) c obs = Ok d"
  shows "objs d k = None"
  using assms
proof (induction obs arbitrary: c)
  case (Cons ob obs)
  obtain c1 where c1: "for_each (\<lambda>c o'. add ck c o' ob) c (f ob) = Ok c1" "cache_inv ck c1"
    "objs c1 = (if passing c (f ob) = {} then objs c else (objs c)(ck ob \<mapsto> ob))"
    using for_each_add [OF Cons.prems(1), of ob "f ob"] by blast
  have "objs c1 k = None" using c1(3) Cons.prems(2,3) by auto
  with Cons.IH [OF c1(2)] Cons.prems(3,4) c1(1) show ?case by simp
qed simp

lemma state_step_absent:
  assumes "cache_inv ep_ClusterKey st" and "objs st k = None"
    and "\<forall>e\<in>set (state_objects oper). ep_ClusterKey e \<noteq> k" and "state_step st oper = Ok d"
  shows "objs d k = None"
proof (cases oper)
  case (SetupOp list)
  with assms setup_absent [OF assms(1,2)] show ?thesis by (simp add: State_Setup_def Setup_def)
next
  case (UpdateOp e)
  with assms obtain b where "renewSubObject ep_ClusterKey st e = Ok (d, b)"
    using renew_step [OF assms(1), of e] by (auto simp: UpdateEndpoint_def)
  from renew_other [OF assms(1) this] UpdateOp assms(2,3) show ?thesis by simp
next
  case (RemoveOp key)
  with assms DeleteSubObject_spec [OF assms(1), of key] show ?thesis
    by (auto simp: RemoveEndpoint_def restrict_map_def)
next
  case (RemoveLBOp key)
  with assms DeleteOwner_spec [OF assms(1), of key] show ?thesis
    by (auto simp: RemoveLoadBalancer_def restrict_map_def)
qed

lemma state_run_absent:
  assumes "cache_inv ep_ClusterKey st" and "objs st k = None"
    and "\<forall>oper\<in>set opers. \<forall>e\<in>set (state_objects oper). ep_ClusterKey e \<noteq> k"
    and "for_each state_step st opers = Ok d"
  shows "cache_inv ep_ClusterKey d \<and> objs d k = None \<and> same_config st d"
  using assms
proof (induction opers arbitrary: st)
  case (Cons oper opers)
  then obtain st1 where st1: "state_step st oper = Ok st1" "for_each state_step st1 opers = Ok d" by auto
  note step = state_step_config [OF Cons.prems(1) st1(1)]
  have "objs st1 k = None" using state_step_absent [OF Cons.prems(1,2) _ st1(1)] Cons.prems(3) by simp
  with Cons.IH [of st1] step st1(2) Cons.prems(3) show ?case by (auto intro: same_config_trans)
qed simp

text \<open>A state reconciler that sees a new, valid endpoint writes nothing; the endpoint is found afterwards.\<close>

lemma state_Reconcile_new:
  assumes "for_each state_step NewState opers = Ok st"
    and "\<forall>oper\<in>set opers. \<forall>e\<in>set (state_objects oper). ep_ClusterKey e \<noteq> ep_ClusterKey ep"
    and "Validate get ep = None" and "GetLoadBalancerRef ep = Some l" and "eps_State (ep_status ep) = None"
    and "\<And>xs. set (rng xs) = set xs"
  shows "\<exists>st' eps. state_Reconcile a get st ep w = Ok (st', RSucceeded, w) \<and> cache_inv ep_ClusterKey st' \<and>
    GetEndpointsFor rng st' l = Ok eps \<and> ep \<in> set eps"
proof -
  have st: "cache_inv ep_ClusterKey st" "objs st (ep_ClusterKey ep) = None" "same_config NewState st"
    using state_run_absent [OF _ _ assms(2,1)] by simp_all
  have own: "passing st (owners st ep) = {l}"
    using st(3) assms(4) by (simp add: same_config_def passing_all LoadBalancer_ref)
  obtain d where d: "renewSubObject ep_ClusterKey st ep = Ok (d, owners st ep \<noteq> [])" "cache_inv ep_ClusterKey d"
    "rel d = rel st \<union> {l} \<times> {ep_ClusterKey ep}" "objs d = (objs st)(ep_ClusterKey ep \<mapsto> ep)"
    using renew_absent [OF st(1,2)] own by auto
  let ?d = "set_object (ep_ClusterKey ep) ep d"
  have d': "cache_inv ep_ClusterKey ?d" "rel ?d = rel d" "objs ?d = objs d"
    using set_object_step [OF d(2) refl, of ep] d(4) by auto
  have "(l, ep_ClusterKey ep) \<in> rel ?d" "objs ?d (ep_ClusterKey ep) = Some ep" by (simp_all add: d' d)
  then obtain eps where "GetByKey rng ?d l = Ok eps" "ep \<in> set eps"
    using GetByKey_spec [where rng = rng, OF d'(1) assms(6), of l] by blast
  moreover have "state_Reconcile a get st ep w = Ok (?d, RSucceeded, w)"
    using d(1) assms(3,5)
    by (simp add: state_Reconcile_def UpdateEndpoint_def StringEqual_def UpdateStatus_def DelayOnError_def)
  ultimately show ?thesis using d'(1) unfolding GetEndpointsFor_def by blast
qed

text \<open>A removed endpoint stays away until it is updated again.\<close>

lemma state_spec_absent:
  assumes "m k = None" and "\<forall>oper\<in>set opers. \<forall>e\<in>set (state_objects oper). ep_ClusterKey e \<noteq> k"
  shows "foldl state_spec m opers k = None"
  using assms
proof (induction opers arbitrary: m)
  case (Cons oper opers)
  have load: "foldl (\<lambda>m e. if GetLoadBalancerRef e = None then m else m(ep_ClusterKey e \<mapsto> e)) m es k = None"
    if "m k = None" and "\<forall>e\<in>set es. ep_ClusterKey e \<noteq> k" for m es
    using that by (induction es arbitrary: m) auto
  have "state_spec m oper k = None"
    using Cons.prems load by (cases oper) (auto split: option.split)
  with Cons.IH Cons.prems(2) show ?case by simp
qed simp

lemma removed_stays_away:
  assumes "k \<in> set ks" and "\<forall>oper\<in>set later. \<forall>e\<in>set (state_objects oper). ep_ClusterKey e \<notin> set ks"
  shows "foldl state_spec m (earlier @ map RemoveOp ks @ later) k = None"
proof -
  have rem: "foldl state_spec m (map RemoveOp ks) k = None" if "k \<in> set ks \<or> m k = None" for m ks
    using that by (induction ks arbitrary: m) auto
  have "foldl state_spec (foldl state_spec m (earlier @ map RemoveOp ks)) later k = None"
    by (rule state_spec_absent) (use assms rem in auto)
  then show ?thesis by simp
qed

section \<open>From the state to the targets\<close>

text \<open>A host that passes the health check of a load balancer whenever it is asked.\<close>

definition answers_health :: "net \<Rightarrow> DNSLoadBalancer \<Rightarrow> string \<Rightarrow> bool" where
  "answers_health net lb host \<longleftrightarrow>
     (let url = ''https://'' @ host @ HealthPath (lb_spec lb)
      in net_NewRequest net url \<and>
         (\<forall>n. net_Do net n url (Some (DNSName (lb_spec lb))) =
            Some (if StatusCode (lb_spec lb) = 0 then 200 else StatusCode (lb_spec lb))))"

lemma answers_IsHealthy:
  "answers_health net lb host \<Longrightarrow> IsHealthy net (watch_for this lb current b ts) n host [DNSName (lb_spec lb)]"
  by (simp add: answers_health_def IsHealthy_def watch_for_def Let_def)

lemma GetDNSInfo_publishes:
  assumes "DNSName (lb_spec lb) \<noteq> ''''" and "type_of lb = Some b"
    and "net_LookupIP net (DNSName (lb_spec lb)) \<noteq> Inr []"
    and "GetEndpointsFor rng (dls_state this) (lb_ClusterKey lb) = Ok eps" and "e \<in> set eps" and "live this now e"
    and "answers_health net lb (GetHostName (target_of e))"
  shows "\<exists>info wd'. GetDNSInfo a net debug rng now this lb current wd = Ok (Inr info, wd') \<and>
    di_Targets info \<noteq> [] \<and> (\<not> b \<longrightarrow> GetHostName (target_of e) \<in> set (di_Targets info))"
proof -
  let ?ts = "map target_of (filter (live this now) eps)"
  let ?w = "watch_for this lb current b ?ts"
  obtain wd1 where g: "GetTargets a net debug rng now this lb current wd =
      bind_outcome (Handle a net debug ?w wd1) (\<lambda>(hosts, dn, _, wd). Ok (Inr (hosts, dn), wd))"
    using GetTargets_eq [where a = a and net = net and debug = debug and now = now and
        current = current and wd = wd, OF assms(2,4)]
    by (elim exE conjE) (rule that)
  have name: "wt_dnsname ?w = DNSName (lb_spec lb)" by (simp add: watch_for_def)
  have t: "target_of e \<in> set (wt_Targets ?w)" using assms(5,6) by (simp add: watch_for_def)
  then obtain i where i: "i < length (wt_Targets ?w)" "wt_Targets ?w ! i = target_of e" by (auto simp: in_set_conv_nth)
  have h: "target_of e \<in> set (healthy_targets net ?w)"
    unfolding healthy_targets_iff
    using i answers_IsHealthy [OF assms(7)] by (intro exI [of _ i]) (simp add: name)
  have "wt_Targets ?w \<noteq> []" "net_LookupIP net (wt_dnsname ?w) \<noteq> Inr []" using i(1) assms(3) name by auto
  from Handle_returns [OF this] obtain d w' wd' where
    "Handle a net debug ?w wd1 = Ok (published net ?w, Some d, w', wd')" by blast
  then have "\<exists>info. GetDNSInfo a net debug rng now this lb current wd = Ok (Inr info, wd') \<and> di_Targets info = published net ?w"
    using assms(1) g by (simp add: GetDNSInfo_def)
  moreover have "published net ?w \<noteq> []" using h by (auto simp: published_Nil_iff)
  moreover have "GetHostName (target_of e) \<in> set (published net ?w)" if "\<not> b"
    using h that by (simp add: chosen_def watch_for_def)
  ultimately show ?thesis by metis
qed

lemma published_from_state:
  assumes "GetDNSInfo a net debug rng now this lb current wd = Ok (Inr info, wd')"
    and "host \<in> set (di_Targets info)"
  shows "\<exists>eps. GetEndpointsFor rng (dls_state this) (lb_ClusterKey lb) = Ok eps \<and>
    (\<exists>e\<in>set eps. host = GetHostName (target_of e))"
proof -
  obtain b eps wd1 w' t where r: "GetEndpointsFor rng (dls_state this) (lb_ClusterKey lb) = Ok eps"
    "Handle a net debug (watch_for this lb current b (map target_of (filter (live this now) eps))) wd1 =
       Ok (di_Targets info, di_Feedback info, w', wd')"
    by (rule GetDNSInfo_run [OF assms(1)]) (rule that)
  let ?w = "watch_for this lb current b (map target_of (filter (live this now) eps))"
  from Handle_hosts [OF r(2)] assms(2) have "host \<in> GetHostName ` set (chosen net ?w)" by auto
  then have "host \<in> GetHostName ` set (healthy_targets net ?w)" using set_chosen by blast
  then have "\<exists>i<length (wt_Targets ?w). host = GetHostName (wt_Targets ?w ! i)"
    by (auto simp: healthy_targets_iff)
  then have "host \<in> GetHostName ` set (wt_Targets ?w)" by auto
  with r(1) show ?thesis by (auto simp: watch_for_def)
qed

section \<open>The two controllers together\<close>

lemma created_ref:
  assumes "newEndpoint Version target now lb src = e" and "created e r" and "m_cluster (lb_meta lb) = target"
    and "m_name (lb_meta lb) \<noteq> ''''"
  shows "GetLoadBalancerRef r = Some (lb_ClusterKey lb)" and "eps_State (ep_status r) = None"
    and "eps_ValidUntil (ep_status r) = deadline_value None (UpdateDeadline now (EndpointValidityInterval (lb_spec lb)) None)"
proof -
  obtain n u v t where r:
    "r = e\<lparr>ep_meta := (ep_meta e)\<lparr>m_name := n, m_uid := u, m_resourceVersion := v, m_creationTimestamp := t\<rparr>\<rparr>"
    using assms(2) unfolding created_def by blast
  have "m_cluster (ep_meta r) = target" "m_namespace (ep_meta r) = m_namespace (lb_meta lb)"
    "LoadBalancerRef (ep_spec r) = m_name (lb_meta lb)"
    using newEndpoint_sel(2-4) [of Version target now lb src] by (simp_all add: r assms(1))
  then show "GetLoadBalancerRef r = Some (lb_ClusterKey lb)"
    using assms(3,4) by (simp add: GetLoadBalancerRef_def lb_ClusterKey_def meta_ClusterKey_def LoadBalancerGroupKind_def Let_def)
  show "eps_State (ep_status r) = None"
    "eps_ValidUntil (ep_status r) = deadline_value None (UpdateDeadline now (EndpointValidityInterval (lb_spec lb)) None)"
    unfolding r assms(1) [symmetric] by (simp_all add: newEndpoint_def Let_def split: prod.split)
qed

lemma fresh_is_live:
  assumes "src_Validate src lb = (n, None)" and "newEndpoint Version target now0 lb src = e" and "created e r"
    and "ep_spec r = ep_spec e"
    and "eps_ValidUntil (ep_status r) = deadline_value None (UpdateDeadline now0 (EndpointValidityInterval (lb_spec lb)) None)"
    and "\<And>dur. EndpointValidityInterval (lb_spec lb) = Some dur \<Longrightarrow> dur = 0 \<or> now \<le> now0 + dur"
  shows "live this now r"
proof -
  have "IsValid (target_of r)"
    using validated_has_target [OF assms(1)] newEndpoint_sel(4) [of Version target now0 lb src]
    by (auto simp: IsValid_def target_of_def assms(2,4) simp del: src_GetTargets.simps)
  moreover have "v < now \<longrightarrow> False" if "eps_ValidUntil (ep_status r) = Some v" for v
    using that assms(6) unfolding assms(5)
    by (fastforce simp: UpdateDeadline_def split: option.splits if_splits)
  ultimately show ?thesis by (auto simp: live_def outdated_def)
qed

text \<open>
  From a source to the answer of the DNS source: a valid source with the finalizer is reconciled by the endpoint
  controller, the API server creates the endpoint, the state reconciler of the DNS controller sees it for
  the first time, whatever it did before, and then the DNS source is asked for the load balancer.
\<close>

lemma source_seen:
  assumes "slaves_ok (sr_slaves st)" and "identifiable (cf_Version cf) (cf_target cf) obj"
    and "src_IsValid cf obj = (Some ref, Some obj)" and "cf_lbs cf ref = Inr lb"
    and "src_Validate obj lb = (n, None)" and "HasFinalizer (cf_finalizer cf) obj"
    and "\<And>xs. mset (cf_range cf xs) = mset xs"
    and "LookupSlaves (cf_range cf) (sr_slaves st) (s_ClusterKey obj) [] = Ok []"
    and "newEndpoint (cf_Version cf) (cf_target cf) (clock 0) lb obj = e"
    and "api_createEP a (w_trace w) e = Inr r" and "created e r" and "objs (sr_slaves st) (ep_ClusterKey r) = None"
    and "for_each state_step NewState opers = Ok (dls_state this)"
    and "\<forall>oper\<in>set opers. \<forall>e\<in>set (state_objects oper). ep_ClusterKey e \<noteq> ep_ClusterKey r"
    and "m_cluster (lb_meta lb) = cf_target cf" and "m_name (lb_meta lb) \<noteq> ''''"
    and "get (lb_ClusterKey lb) = Inr lb" and "\<not> IsDeleting (lb_meta lb)"
    and "DNSName (lb_spec lb) \<noteq> ''''" and "type_of lb = Some exclusive"
    and "net_LookupIP net (DNSName (lb_spec lb)) \<noteq> Inr []" and "\<And>xs. set (rng xs) = set xs"
    and "\<And>dur. EndpointValidityInterval (lb_spec lb) = Some dur \<Longrightarrow> dur = 0 \<or> now \<le> clock 0 + dur"
    and "src_GetTargets obj lb = (ip, cname)" and "host = (if cname \<noteq> '''' then cname else ip)"
    and "answers_health net lb host"
  shows "\<exists>st1 w1 st2 info wd2.
    sr_Reconcile a cf clock st obj w = Ok (st1, RescheduleAfter (cf_period cf) RSucceeded, w1) \<and>
    writes (w_trace w1) = writes (w_trace w) @ [CreateEP e] \<and>
    state_Reconcile a' get (dls_state this) r wd = Ok (st2, RSucceeded, wd) \<and>
    GetDNSInfo a' net debug rng now (this\<lparr>dls_state := st2\<rparr>) lb current wd = Ok (Inr info, wd2) \<and>
    di_Names info = [DNSName (lb_spec lb)] \<and> di_Targets info \<noteq> [] \<and>
    (\<not> exclusive \<longrightarrow> host \<in> set (di_Targets info))"
proof -
  let ?st = "st\<lparr>sr_usages := fst (RenewOwner (sr_usages st) obj)\<rparr>"
  have "slaves_ok (sr_slaves ?st)" "objs (sr_slaves ?st) (ep_ClusterKey r) = None" using assms(1,12) by simp_all
  from sr_create_accepted [where w = w, OF this(1) assms(2,9,10,11) this(2)] obtain c where
    c: "sr_create a cf ?st obj e w =
      Ok (?st\<lparr>sr_slaves := c\<rparr>, RescheduleAfter (cf_period cf) RSucceeded, ep_event obj r ''created'' (emit (CreateEP e) w))"
    by auto
  let ?w1 = "ep_event obj r ''created'' (emit (CreateEP e) w)"
  have first: "sr_Reconcile a cf clock st obj w =
      Ok (?st\<lparr>sr_slaves := c\<rparr>, RescheduleAfter (cf_period cf) RSucceeded, ?w1)"
    using sr_Reconcile_valid [where a = a and ep = None, OF assms(3-6,8)] c assms(9) by (simp add: Let_def)
  have wrote: "writes (w_trace ?w1) = writes (w_trace w) @ [CreateEP e]" by (simp add: ep_event_def s_Event_def)
  note ref = created_ref [OF assms(9,11,15,16)]
  have "Validate get r = None" using assms(17,18) ref(1) by (simp add: Validate_def)
  from state_Reconcile_new [where a = a' and w = wd, OF assms(13,14) this ref(1,2) assms(22)] obtain st2 eps where
    second: "state_Reconcile a' get (dls_state this) r wd = Ok (st2, RSucceeded, wd)"
    "GetEndpointsFor rng st2 (lb_ClusterKey lb) = Ok eps" "r \<in> set eps"
    by blast
  let ?dls = "this\<lparr>dls_state := st2\<rparr>"
  have spec: "ep_spec r = ep_spec e" by (rule created_owner(5) [OF assms(2,9,11)])
  have live: "live ?dls now r" by (rule fresh_is_live [OF assms(5,9,11) spec ref(3) assms(23)])
  have host: "GetHostName (target_of r) = host"
    using spec newEndpoint_sel(4) [of "cf_Version cf" "cf_target cf" "clock 0" lb obj] assms(9,24,25)
    by (simp add: target_of_def GetHostName_def del: src_GetTargets.simps)
  have eps: "GetEndpointsFor rng (dls_state ?dls) (lb_ClusterKey lb) = Ok eps" by (simp add: second(2))
  have health: "answers_health net lb (GetHostName (target_of r))" unfolding host by (rule assms(26))
  from GetDNSInfo_publishes [where a = a' and wd = wd and debug = debug and current = current,
      OF assms(19-21) eps second(3) live health]
  obtain info wd2 where third: "GetDNSInfo a' net debug rng now ?dls lb current wd = Ok (Inr info, wd2)"
    "di_Targets info \<noteq> []" "\<not> exclusive \<longrightarrow> host \<in> set (di_Targets info)"
    unfolding host by blast
  have "di_Names info = [DNSName (lb_spec lb)]" by (rule GetDNSInfo_run [OF third(1)]) simp
  with first wrote second(1) third show ?thesis by blast
qed


section \<open>The properties on concrete objects\<close>

lemma newEndpoint_name: "m_name (ep_meta (newEndpoint Version target now lb src)) = ''''"
  by (auto simp: newEndpoint_def AddOwner_def SetOwnerReference_def SetAnnotation_def Let_def split: prod.split)

definition sample_empty :: DNSLBSource where
  "sample_empty = \<lparr>dls_state = NewState, dls_started = 0, dls_nxdomain = []\<rparr>"

lemma sample_host: "src_GetTargets sample_source sample_lb = (''10.0.0.9'', '''')"
  by (simp add: sample_source_data service_GetTargets_def status_target_def)

lemma sample_deleted:
  "\<exists>(st :: sr_state) r w'. LookupSlaves (cf_range sample_config) (sr_slaves st) (s_ClusterKey sample_source) [] = Ok [sample_endpoint] \<and>
     sr_Delete sample_api sample_config st sample_source init_world = Ok (st, r, w') \<and> IsSucceeded r"
proof -
  obtain st :: sr_state where st: "slaves_ok (sr_slaves st)"
    "{k. (s_ClusterKey sample_source, k) \<in> rel (sr_slaves st)} = {ep_ClusterKey sample_endpoint}"
    "objs (sr_slaves st) (ep_ClusterKey sample_endpoint) = Some sample_endpoint"
    using sample_slaves by blast
  have found: "LookupSlaves (cf_range sample_config) (sr_slaves st) (s_ClusterKey sample_source) [] = Ok [sample_endpoint]"
    by (rule LookupSlaves_single [OF st]) (simp add: sample_sel)
  obtain failed w1 where f: "foldl (delete_step sample_api sample_source) (False, init_world) [sample_endpoint] = (failed, w1)"
    by (meson surj_pair)
  have "\<not> failed"
    using delete_all [OF f] by (auto simp: deletion_at_def is_gone_def sample_api_def)
  moreover obtain obj' w' where "RemoveFinalizer sample_api (cf_finalizer sample_config) sample_source w1 = (None, obj', w')"
    using remove_finalizer [of sample_api w1 sample_source "cf_finalizer sample_config"]
    by (auto simp: sample_api_def sample_source_def)
  ultimately have "sr_Delete sample_api sample_config st sample_source init_world = Ok (st, RSucceeded, w')"
    using f by (simp add: sr_Delete_def sample_valid found DelayOnError_def)
  with found show ?thesis by (auto simp: IsSucceeded_def RSucceeded_def)
qed


end
