(* ===== verification/DnsWrites.thy ===== *)
theory DnsWrites
  imports DnsReconciler System
begin

text \<open>
  What the steps of the DNS source controller write. Only three of them write DNS entries; everything else,
  the DNS source and its feedback included, is silent about them. The sequence of writes of a whole
  run is put together from these facts.
\<close>

section \<open>Silent steps\<close>

fun entry_write :: "effect \<Rightarrow> bool" where
  "entry_write (CreateEntry _) = True"
| "entry_write (UpdateEntry _) = True"
| "entry_write (DeleteEntry _) = True"
| "entry_write _ = False"

abbreviation silent :: "world \<Rightarrow> world \<Rightarrow> bool" where
  "silent \<equiv> adds (\<lambda>e. \<not> entry_write e)"

lemma silent_s_Event [simp]: "silent w (s_Event obj ty reason msg w)"
  by (simp add: s_Event_def)

lemma silent_lb_Event [simp]: "silent w (lb_Event lb ty reason msg w)"
  by (simp add: lb_Event_def)

lemma silent_then_event: "silent u w \<Longrightarrow> silent u (lb_Event lb ty reason msg w)"
  by (rule adds_trans [OF _ silent_lb_Event])

lemma silent_lb_UpdateState: "lb_UpdateState a lb state msg w = (b, err, lb', w') \<Longrightarrow> silent w w'"
  using lb_UpdateState_world [of a lb state msg w] by (auto split: if_splits)

lemma status_effects_quiet: "\<not> entry_write e" if "e \<in> set (status_effects rng d state msg)"
  using that by (auto simp: status_effects_def lb_effects_def ep_effects_def split: if_splits)

lemma silent_updateStatus: "silent w (snd (updateStatus a rng state msg (d, w)))"
  by (rule addsI [OF updateStatus_trace]) (auto dest: status_effects_quiet)

lemma silent_emitPendingEvent: "silent w (snd (emitPendingEvent (d, w)))"
  by (auto simp: emitPendingEvent_def Let_def intro!: silent_then_event)

lemma silent_after_emit: "silent w (snd (updateStatus a rng state msg (emitPendingEvent (d, w))))"
  using silent_emitPendingEvent [of w d] silent_updateStatus [of "snd (emitPendingEvent (d, w))" a rng state msg "fst (emitPendingEvent (d, w))"]
  by (auto intro: adds_trans)

lemma silent_Error: "silent w (snd (DNSDone_Error a b err (d, w)))"
proof -
  have upd: "silent v (updateLoadBalancerStatus a d' b state msg v)" for v d' state msg
    by (rule addsI [OF updateLoadBalancerStatus_trace]) (auto simp: lb_effects_def split: if_splits)
  show ?thesis
  proof (cases "dd_done d")
    case False
    show ?thesis unfolding DNSDone_Error_def Let_def prod.case if_not_P [OF False] snd_conv DNSDone_Event_def
      by (rule adds_trans [OF silent_lb_Event upd])
  qed (simp add: DNSDone_Error_def)
qed

lemma silent_feedback: "silent w (snd (feedback a rng call (d, w)))"
  by (cases call) (simp_all add: silent_after_emit silent_Error)

lemma silent_notify: "silent (rn_world r) (rn_world (notify env call r))"
  using silent_feedback [of "rn_world r" "ev_api env" "ev_eps env" call]
  by (auto simp: notify_def split: option.split prod.split) (metis snd_conv)

lemma notify_slaves [simp]: "rn_slaves (notify env call r) = rn_slaves r"
  by (simp add: notify_def split: option.split prod.split)

lemma silent_SetFinalizer: "SetFinalizer a key obj w = (err, obj', w') \<Longrightarrow> silent w w'"
  and silent_RemoveFinalizer: "RemoveFinalizer a key obj w = (err, obj', w') \<Longrightarrow> silent w w'"
proof -
  have "silent w w'" if "Modify (source_update a) (source_get a) modifier obj w = (b, err, obj', w')" for modifier b
    using source_store.Modify_trace [OF that] unfolding adds_def by fastforce
  then show "SetFinalizer a key obj w = (err, obj', w') \<Longrightarrow> silent w w'"
    "RemoveFinalizer a key obj w = (err, obj', w') \<Longrightarrow> silent w w'"
    unfolding SetFinalizer_def RemoveFinalizer_def by (metis prod.collapse)+
qed

lemma silent_remove_finalizers: "remove_finalizers a names obj w = (err, obj', w') \<Longrightarrow> silent w w'"
proof (induction names arbitrary: obj w)
  case (Cons name names)
  then obtain e o1 w1 where s: "RemoveFinalizer a name obj w = (e, o1, w1)" by (meson prod_cases3)
  then show ?case
    using Cons silent_RemoveFinalizer [OF s] by (cases e) (auto intro: adds_trans)
qed auto

lemma silent_dns_SetFinalizer: "dns_SetFinalizer a rng this obj w = (err, obj', w') \<Longrightarrow> silent w w'"
  by (auto simp: dns_SetFinalizer_def Let_def dest!: silent_SetFinalizer silent_remove_finalizers
      split: prod.splits option.splits if_splits intro: adds_trans)

lemma silent_dns_RemoveFinalizer: "dns_RemoveFinalizer a rng this obj w = (err, obj', w') \<Longrightarrow> silent w w'"
  by (auto simp: dns_RemoveFinalizer_def Let_def dest!: silent_RemoveFinalizer silent_remove_finalizers split: if_splits)

section \<open>The DNS source\<close>

lemma silent_IsSingleton: "silent w (snd (IsSingleton a lb w))"
  by (auto simp: IsSingleton_def lb_UpdateState_world Let_def)

lemma silent_Handle: "Handle a net debug wt w = Ok (hosts, d, wt', w') \<Longrightarrow> silent w w'"
  using handle_trace_cases [of a net debug wt w hosts d wt' w'] by (auto simp: adds_def lb_effects_def)

lemma silent_GetTargets: "GetTargets a net debug rng now this lb current w = Ok (r, w') \<Longrightarrow> silent w w'"
proof -
  assume g: "GetTargets a net debug rng now this lb current w = Ok (r, w')"
  let ?wd0 = "snd (IsSingleton a lb w)"
  note first = silent_IsSingleton [of w a lb]
  show "silent w w'"
  proof (cases "type_of lb")
    case None
    with g first show ?thesis by (auto simp: GetTargets_def NewWatch_eq)
  next
    case (Some b)
    then obtain eps where eps: "GetEndpointsFor rng (dls_state this) (lb_ClusterKey lb) = Ok eps"
      using g by (auto simp: GetTargets_def NewWatch_eq)
    let ?w0 = "watch_for this lb current b []"
    obtain wd1 where c: "foldl (collect_step a this now) (?w0, ?wd0) eps =
        (?w0\<lparr>wt_Targets := wt_Targets ?w0 @ map target_of (filter (live this now) eps)\<rparr>, wd1)"
      "w_trace wd1 = w_trace ?wd0 @ concat (map (cleanup_effects this now (wt_DNSLB ?w0)) eps)"
      using collect_eq by blast
    from c(2) have second: "silent ?wd0 wd1"
      by (rule addsI) (auto simp: cleanup_effects_def split: if_splits)
    from g Some eps c(1) obtain hosts d wt' where
      "Handle a net debug (?w0\<lparr>wt_Targets := wt_Targets ?w0 @ map target_of (filter (live this now) eps)\<rparr>) wd1 =
        Ok (hosts, d, wt', w')"
      by (auto simp: GetTargets_def NewWatch_eq)
    from adds_trans [OF first adds_trans [OF second silent_Handle [OF this]]] show ?thesis .
  qed
qed

lemma silent_GetDNSInfo: "GetDNSInfo a net debug rng now this lb current w = Ok (r, w') \<Longrightarrow> silent w w'"
proof -
  assume g: "GetDNSInfo a net debug rng now this lb current w = Ok (r, w')"
  show "silent w w'"
  proof (cases "DNSName (lb_spec lb) = ''''")
    case True
    with g show ?thesis by (auto simp: GetDNSInfo_def lb_UpdateState_world)
  next
    case False
    with g obtain x w1 where t: "GetTargets a net debug rng now this lb current w = Ok (x, w1)"
      and "w1 = w'" by (auto simp: GetDNSInfo_def) (auto split: sum.splits)
    with silent_GetTargets [OF t] show ?thesis by simp
  qed
qed

lemma silent_getDNSInfo: "getDNSInfo env this s lb current w = Ok (r, w') \<Longrightarrow> silent w w'"
proof -
  assume g: "getDNSInfo env this s lb current w = Ok (r, w')"
  let ?found = "current\<lparr>cs_AnnotatedNames := annotated_names (lb_meta lb)\<rparr>"
  show "silent w w'"
  proof (cases "IsResponsibleFor (sc_classes this) (lb_meta lb)")
    case True
    with g obtain x w1 where t: "GetDNSInfo (ev_api env) (ev_net env) (ev_debug env) (ev_keys env) (ev_now env) s lb ?found w = Ok (x, w1)"
      and c: "(case x of Inl err \<Rightarrow> Ok ((None, Some err), w1)
         | Inr info \<Rightarrow>
             let (info, err) = annotated_info (lb_meta lb) (info\<lparr>di_Names := filter (\<lambda>d. \<not> exclude this d) (di_Names info)\<rparr>)
             in Ok ((Some info, err), w1)) = Ok (r, w')"
      by (auto simp: getDNSInfo_def)
    from c have "w1 = w'" by (cases x) (simp_all add: Let_def split: prod.splits)
    with silent_GetDNSInfo [OF t] show ?thesis by simp
  qed (use g in \<open>simp add: getDNSInfo_def\<close>)
qed

text \<open>What is taken over from the answer of the source.\<close>

lemma annotated_info_same:
  "di_Names (fst (annotated_info m info)) = di_Names info" "di_Targets (fst (annotated_info m info)) = di_Targets info"
  by (simp_all add: annotated_info_def Let_def split: sum.split)

lemma getDNSInfo_Some:
  assumes "getDNSInfo env this s lb current w = Ok ((Some info, err), w')"
  obtains found info' where "IsResponsibleFor (sc_classes this) (lb_meta lb)"
    "GetDNSInfo (ev_api env) (ev_net env) (ev_debug env) (ev_keys env) (ev_now env) s lb found w = Ok (Inr info', w')"
    "di_Names info = filter (\<lambda>d. \<not> exclude this d) (di_Names info')" "di_Targets info = di_Targets info'"
proof -
  let ?found = "current\<lparr>cs_AnnotatedNames := annotated_names (lb_meta lb)\<rparr>"
  have resp: "IsResponsibleFor (sc_classes this) (lb_meta lb)"
    using assms by (auto simp: getDNSInfo_def split: if_splits)
  with assms obtain x w1 where
    t: "GetDNSInfo (ev_api env) (ev_net env) (ev_debug env) (ev_keys env) (ev_now env) s lb ?found w = Ok (x, w1)"
    and c: "(case x of Inl err \<Rightarrow> Ok ((None, Some err), w1)
       | Inr info \<Rightarrow>
           let (info, err) = annotated_info (lb_meta lb) (info\<lparr>di_Names := filter (\<lambda>d. \<not> exclude this d) (di_Names info)\<rparr>)
           in Ok ((Some info, err), w1)) = Ok ((Some info, err), w')"
    by (auto simp: getDNSInfo_def)
  from c obtain info' where "x = Inr info'" "w1 = w'"
    "annotated_info (lb_meta lb) (info'\<lparr>di_Names := filter (\<lambda>d. \<not> exclude this d) (di_Names info')\<rparr>) = (info, err)"
    by (cases x) (simp_all add: Let_def split: prod.splits)
  with t resp have r: "IsResponsibleFor (sc_classes this) (lb_meta lb)"
    "GetDNSInfo (ev_api env) (ev_net env) (ev_debug env) (ev_keys env) (ev_now env) s lb ?found w = Ok (Inr info', w')"
    "annotated_info (lb_meta lb) (info'\<lparr>di_Names := filter (\<lambda>d. \<not> exclude this d) (di_Names info')\<rparr>) = (info, err)"
    by simp_all
  from r(3) annotated_info_same [of "lb_meta lb" "info'\<lparr>di_Names := filter (\<lambda>d. \<not> exclude this d) (di_Names info')\<rparr>"]
  show thesis by (intro that [OF r(1,2)]) simp_all
qed

end
