(* ===== verification/DnsProps.thy ===== *)
theory DnsProps
  imports DnsWrites
begin

text \<open>
  What the DNS source controller makes of the answers of the DNS source for load balancers: which entries it
  writes, when it stops writing, and in which order it takes things down. One of its writes takes the owner
  from an entry.
\<close>

section \<open>The entries that are written\<close>

text \<open>An effect agrees with an answer of the source: the entries that are sent have its names and targets.\<close>

fun sent_for :: "DNSInfo \<Rightarrow> effect \<Rightarrow> bool" where
  "sent_for info (CreateEntry e) \<longleftrightarrow>
     entry_name e \<in> set (di_Names info) \<and> set (des_Targets (de_spec e)) = set (di_Targets info) \<and> di_Targets info \<noteq> []"
| "sent_for info (UpdateEntry e) \<longleftrightarrow> set (des_Targets (de_spec e)) = set (di_Targets info)"
| "sent_for info _ \<longleftrightarrow> True"

lemma silent_sent_for: "silent w w' \<Longrightarrow> adds (sent_for info) w w'"
  by (erule adds_mono) (rename_tac e, case_tac e, simp_all)

text \<open>The order in which a set of strings is visited is an order of its elements.\<close>

definition keeps_elements :: "dns_env \<Rightarrow> bool" where
  "keeps_elements env \<longleftrightarrow> (\<forall>xs. mset (ev_strings env xs) = mset xs)"

lemma keeps_elements_set: "keeps_elements env \<Longrightarrow> set (ev_strings env xs) = set xs"
  unfolding keeps_elements_def by (metis set_mset_mset)

lemma keeps_elements_single:
  assumes "keeps_elements env"
  shows "ev_strings env [] = []" and "ev_strings env [x] = [x]"
proof -
  have "mset (ev_strings env []) = {#}" "mset (ev_strings env [x]) = {#x#}"
    using assms by (simp_all add: keeps_elements_def)
  then show "ev_strings env [] = []" "ev_strings env [x] = [x]" by simp_all
qed

lemma AssureStringSet_set:
  "(\<forall>xs. set (rng xs) = set xs) \<Longrightarrow> set (fst (AssureStringSet rng md old value)) = set value"
  by (auto simp: AssureStringSet_def Equals_def NewStringSet_def list_all_iff)

lemma entry_modifier_sel:
  "entry_name (fst (entry_modifier env this info e)) = entry_name e"
  "de_ClusterKey (fst (entry_modifier env this info e)) = de_ClusterKey e"
  "m_ownerReferences (de_meta (fst (entry_modifier env this info e))) = m_ownerReferences (de_meta e)"
  by (simp_all add: entry_modifier_def Let_def entry_name_def de_ClusterKey_def meta_ClusterKey_def split: prod.split)

lemma entry_modifier_targets:
  assumes "keeps_elements env"
  shows "set (des_Targets (de_spec (fst (entry_modifier env this info e)))) = set (di_Targets info)"
proof -
  have "\<exists>md. des_Targets (de_spec (fst (entry_modifier env this info e))) =
    fst (AssureStringSet (ev_strings env) md (des_Targets (de_spec e)) (di_Targets info))"
    by (simp add: entry_modifier_def Let_def case_prod_unfold) blast
  then show ?thesis
    using AssureStringSet_set [of "ev_strings env"] assms by (auto simp: keeps_elements_set)
qed

lemma new_entry_sel [simp]:
  "entry_name (new_entry env this obj info n) = n"
  "des_Targets (de_spec (new_entry env this obj info n)) = ev_strings env (di_Targets info)"
  "m_cluster (de_meta (new_entry env this obj info n)) = sc_cluster this"
  by (simp_all add: new_entry_def entry_name_def)

lemma create_entry_sent:
  assumes "createEntryFor env this obj info n r = Ok (err, r')" and "n \<in> set (di_Names info)" and "di_Targets info \<noteq> []"
    and "keeps_elements env"
  shows "adds (sent_for info) (rn_world r) (rn_world r')"
proof -
  let ?e = "(new_entry env this obj info n)\<lparr>de_meta := fst (AddOwner (sc_Version this)
      (de_meta (new_entry env this obj info n)) (sc_cluster this) obj)\<rparr>"
  obtain c e er w where s: "CreateEntrySlave (ev_api env) (sc_Version this) (rn_slaves r) obj (new_entry env this obj info n)
      (rn_world r) = Ok (c, e, er, w)"
    using assms(1) by (auto simp: createEntryFor_def)
  then have w: "w = emit (CreateEntry ?e) (rn_world r)"
    by (auto simp: CreateEntrySlave_def de_Create_def Let_def split: sum.splits)
  have sent: "adds (sent_for info) (rn_world r) w"
    using assms(2-4) unfolding w by (intro adds_emit) (simp add: entry_name_def new_entry_def keeps_elements_set)
  have quiet: "silent w (rn_world r')"
  proof (cases er)
    case None
    let ?r = "r\<lparr>rn_slaves := c, rn_world := s_Event obj EventTypeNormal ''reconcile''
      (''created dns entry object '' @ ObjectName_String (meta_ObjectName (de_meta e))) w\<rparr>"
    have "r' = notify env (Pending n '''') ?r" using assms(1) s None by (simp add: createEntryFor_def)
    with adds_trans [OF silent_s_Event silent_notify [of ?r, simplified]] show ?thesis by simp
  next
    case (Some x)
    let ?r = "r\<lparr>rn_slaves := c, rn_world := w\<rparr>"
    have "r' = notify env (Failed n x) ?r" using assms(1) s Some by (simp add: createEntryFor_def)
    with silent_notify [of ?r] show ?thesis by simp
  qed
  show ?thesis by (rule adds_trans [OF sent silent_sent_for [OF quiet]])
qed

lemma delete_entry_sent: "adds (sent_for info) (rn_world (snd s)) (rn_world (snd (delete_entry_step env obj s e)))"
  by (cases s) (auto simp: delete_entry_step_def deleteEntry_def de_Delete_def s_Event_def adds_def split: prod.split option.split)

lemma update_entry_sent:
  assumes "keeps_elements env"
  shows "adds (sent_for info) (rn_world r) (rn_world (snd (updateEntry env this info e r)))"
proof -
  obtain md err e' w where m: "Modify (de_update (ev_api env)) (de_get (ev_api env)) (entry_modifier env this info) e (rn_world r) =
      (md, err, e', w)" by (meson prod_cases4)
  from de_store.Modify_trace [OF m] obtain t where "w_trace w = w_trace (rn_world r) @ t"
    "\<forall>x\<in>set t. (\<exists>d. x = UpdateEntry (fst (entry_modifier env this info d))) \<or> (\<exists>d. x = GetEntry (de_ClusterKey d))" by blast
  then have "adds (sent_for info) (rn_world r) w"
    by (intro addsI [of w]) (auto simp: entry_modifier_targets [OF assms])
  with m show ?thesis by (simp add: updateEntry_def)
qed

lemma update_step_sent:
  "keeps_elements env \<Longrightarrow> adds (sent_for info) (rn_world (snd (snd s))) (rn_world (snd (snd (update_step env this info s e))))"
  using update_entry_sent [of env info "snd (snd s)" this e] by (cases s) (auto simp: update_step_def split: prod.split)

lemma write_entries_sent:
  assumes "write_entries env this obj slaves info r = Ok (m, errs, r')" and "keeps_elements env"
  shows "adds (sent_for info) (rn_world r) (rn_world r')"
proof -
  obtain s where s: "(if di_Targets info = [] then Ok ([], r)
      else for_each (create_step env this obj info) ([], r) (missing_names env slaves info)) = Ok s"
    and rest: "(m, errs, r') = (let (errs, r) = foldl (delete_entry_step env obj) s (obsolete_entries slaves info)
      in foldl (update_step env this info) (Map.empty, errs, r) (current_entries slaves info))"
    using assms(1) by (auto simp: write_entries_def Let_def split: prod.splits if_splits)
  have "adds (sent_for info) (rn_world r) (rn_world (snd s))"
  proof (cases "di_Targets info = []")
    case False
    with s have run: "for_each (create_step env this obj info) ([], r) (missing_names env slaves info) = Ok s" by simp
    have names: "set (missing_names env slaves info) \<subseteq> set (di_Names info)"
      using assms(2) by (auto simp: missing_names_def keeps_elements_set)
    have "adds (sent_for info) (rn_world (snd ([] :: go_error list, r))) (rn_world (snd s))"
    proof (rule adds_for_each [OF run, where g = "\<lambda>s. rn_world (snd s)"])
      fix s n s'
      assume step: "create_step env this obj info s n = Ok s'" and n: "n \<in> set (missing_names env slaves info)"
      obtain errs r1 where s: "s = (errs, r1)" by (cases s)
      with step obtain err r2 where c: "createEntryFor env this obj info n r1 = Ok (err, r2)" and "snd s' = r2"
        by (auto simp: create_step_def)
      with create_entry_sent [OF c _ False assms(2)] n names show "adds (sent_for info) (rn_world (snd s)) (rn_world (snd s'))"
        by (auto simp: s)
    qed
    then show ?thesis by simp
  qed (use s in auto)
  moreover have "adds (sent_for info) (rn_world (snd s))
      (rn_world (snd (foldl (delete_entry_step env obj) s (obsolete_entries slaves info))))"
    by (rule adds_foldl [where g = "\<lambda>s. rn_world (snd s)"]) (rule delete_entry_sent)
  moreover have "adds (sent_for info) (rn_world (snd d)) (rn_world (snd (snd (foldl (update_step env this info)
      (Map.empty, fst d, snd d) (current_entries slaves info)))))" for d
    using adds_foldl [where g = "\<lambda>s. rn_world (snd (snd s))" and s = "(Map.empty, fst d, snd d)" and P = "sent_for info" and
        f = "update_step env this info", OF update_step_sent [OF assms(2)]] by simp
  moreover have "rn_world r' = rn_world (snd (snd (foldl (update_step env this info)
      (Map.empty, fst (foldl (delete_entry_step env obj) s (obsolete_entries slaves info)),
        snd (foldl (delete_entry_step env obj) s (obsolete_entries slaves info))) (current_entries slaves info))))"
    using arg_cong [OF rest, of "\<lambda>x. rn_world (snd (snd x))"] by (simp add: case_prod_unfold Let_def)
  ultimately show ?thesis by (metis adds_trans)
qed

lemma conclude_silent: "silent (rn_world (snd (snd s))) (rn_world (snd (conclude env found info s)))"
proof -
  obtain m errs r where s: "s = (m, errs, r)" by (cases s)
  have "silent (rn_world r) (rn_world (foldl (report_step env found m) r ns))" for ns
    by (rule adds_foldl [where g = rn_world]) (simp add: report_step_def silent_notify split: option.split)
  then show ?thesis
    unfolding s by (auto simp: conclude_def Let_def silent_notify intro: adds_trans [OF _ silent_notify])
qed

lemma conclude_sent: "adds (sent_for info) (rn_world (snd (snd s))) (rn_world (snd (conclude env found info s)))"
  by (rule silent_sent_for [OF conclude_silent])

lemma publish_sent:
  assumes "publish env this st lb slaves found info w = Ok (st', status, w')" and "keeps_elements env"
  shows "adds (sent_for info) w w'"
proof -
  let ?fin = "(if di_Names info \<noteq> [] \<and> requireFinalizer this lb then dns_SetFinalizer else dns_RemoveFinalizer)
      (ev_api env) (ev_strings env) this (lb_object lb) w"
  obtain err obj w1 where f: "?fin = (err, obj, w1)" by (meson prod_cases3)
  have one: "adds (sent_for info) w w1"
    using f silent_dns_SetFinalizer silent_dns_RemoveFinalizer by (intro silent_sent_for) (auto split: if_splits)
  show ?thesis
  proof (cases err)
    case None
    let ?r = "\<lparr>rn_slaves = dr_slaves st, rn_feedback = di_Feedback info, rn_world = w1\<rparr>"
    obtain s where wr: "write_entries env this obj slaves info ?r = Ok s"
      and w': "w' = rn_world (snd (conclude env found info s))"
      using assms(1) f None by (auto simp: publish_def Let_def case_prod_unfold)
    obtain m errs r' where s: "s = (m, errs, r')" by (cases s)
    have "adds (sent_for info) w1 (rn_world r')"
      using write_entries_sent [OF wr [unfolded s] assms(2)] by simp
    with conclude_sent [of info s env found] have "adds (sent_for info) w1 w'"
      unfolding s w' by (simp add: adds_trans [of _ _ "rn_world r'"])
    with one show ?thesis by (rule adds_trans)
  next
    case (Some e)
    with assms(1) f one show ?thesis by (auto simp: publish_def Let_def)
  qed
qed

lemma current_state_deletes:
  assumes "current_state env slaves w = Ok (found, w')"
  shows "adds (\<lambda>e. \<exists>k. e = DeleteEntry k) w w'"
proof -
  have step: "adds (\<lambda>e. \<exists>k. e = DeleteEntry k) (snd s) (snd (assert_step de_meta (de_Delete (ev_api env)) s x))" for s x
    by (auto simp: assert_step_def de_Delete_def adds_def split: prod.split option.split)
  have asg: "adds (\<lambda>e. \<exists>k. e = DeleteEntry k) w (snd (AssertSingleSlave de_meta (de_Delete (ev_api env)) slaves m w))" for m w
    unfolding AssertSingleSlave_def using adds_foldl [where g = snd and s = "(None, w)", OF step] by simp
  have "adds (\<lambda>e. \<exists>k. e = DeleteEntry k) (snd s) (snd s')" if "current_step env slaves s n = Ok s'" for s n s'
    using that asg [of "snd s" "Some (DNSNameMatcher n)"]
    by (auto simp: current_step_def split: prod.splits option.splits)
  from adds_for_each [where g = snd, OF assms [unfolded current_state_def] this] show ?thesis by simp
qed

section \<open>Vanished load balancers\<close>

lemma start_steps:
  "w_trace (foldl (vanished_step cached main) w ks) =
     w_trace w @ map EnqueueKey (filter (\<lambda>k. ck_cluster k = main \<and> IsNotFound (cached k)) ks)"
  by (induction ks arbitrary: w) (simp_all add: vanished_step_def)

text \<open>
  At the start exactly those load balancers of the main cluster are queued that own an entry and do not exist any more,
  so that \<open>dns_Deleted\<close> deletes their entries.
\<close>

lemma vanished_owners_are_queued:
  assumes "cache_inv de_ClusterKey this" and "set visited = dom (byOwner this)"
  shows "\<exists>t. w_trace (entry_Start visited cached main clusters this w) = w_trace w @ t \<and>
    set t = EnqueueKey ` {k. (\<exists>e. (k, e) \<in> rel this) \<and> ck_groupKind k = LoadBalancerGroupKind \<and>
      ck_cluster k \<in> set clusters \<and> ck_cluster k = main \<and> IsNotFound (cached k)}"
proof -
  have owner: "byOwner this k \<noteq> None \<longleftrightarrow> (\<exists>e. (k, e) \<in> rel this)" for k
    using byOwner_None [OF assms(1), of k] by (auto simp: rel_def) blast
  have eq: "set (filter (\<lambda>k. ck_cluster k = main \<and> IsNotFound (cached k)) (all_entry_masters visited clusters this)) =
      {k. byOwner this k \<noteq> None \<and> ck_groupKind k = LoadBalancerGroupKind \<and>
        ck_cluster k \<in> set clusters \<and> ck_cluster k = main \<and> IsNotFound (cached k)}"
    using assms(2) by (auto simp: all_entry_masters_def filterKeysByClusters_def GetAllOwners_def)
  have "set (map EnqueueKey (filter (\<lambda>k. ck_cluster k = main \<and> IsNotFound (cached k)) (all_entry_masters visited clusters this))) =
      EnqueueKey ` {k. (\<exists>e. (k, e) \<in> rel this) \<and> ck_groupKind k = LoadBalancerGroupKind \<and>
        ck_cluster k \<in> set clusters \<and> ck_cluster k = main \<and> IsNotFound (cached k)}"
    unfolding list.set_map eq owner ..
  then show ?thesis unfolding entry_Start_def start_steps by blast
qed

section \<open>The first entry of a load balancer\<close>

lemma no_finalizer_to_remove:
  assumes "\<forall>c. finalizer (sc_finalizer this) c \<notin> set (m_finalizers (s_meta obj))"
  shows "dns_RemoveFinalizer a rng this obj w = (None, obj, w)"
proof -
  have idle: "RemoveFinalizer a (finalizer (sc_finalizer this) c) obj w = (None, obj, w)" for c
  proof -
    have "drop_finalizer (finalizer (sc_finalizer this) c) obj = (obj, False)"
      using assms by (simp add: drop_finalizer_def HasFinalizer_iff)
    from source_store.Modify_idle [of "drop_finalizer (finalizer (sc_finalizer this) c)" obj a w, OF this] show ?thesis by (simp add: RemoveFinalizer_def)
  qed
  then have "remove_finalizers a (map (finalizer (sc_finalizer this)) cs) obj w = (None, obj, w)" for cs
    by (induction cs) simp_all
  with idle show ?thesis by (simp add: dns_RemoveFinalizer_def Let_def)
qed

lemma createEntryFor_accepted:
  assumes "cache_inv de_ClusterKey (rn_slaves r)" and "\<And>tr e. \<exists>x. api_createEntry (ev_api env) tr e = Inr x"
  shows "\<exists>e r'. createEntryFor env this obj info n r = Ok (None, r') \<and>
    w_trace (emit (CreateEntry e) (rn_world r)) = w_trace (rn_world r) @ [CreateEntry e] \<and>
    silent (emit (CreateEntry e) (rn_world r)) (rn_world r') \<and>
    de_spec e = de_spec (new_entry env this obj info n)"
proof -
  let ?e = "(new_entry env this obj info n)\<lparr>de_meta := fst (AddOwner (sc_Version this)
      (de_meta (new_entry env this obj info n)) (sc_cluster this) obj)\<rparr>"
  obtain x where x: "api_createEntry (ev_api env) (w_trace (rn_world r)) ?e = Inr x" using assms(2) by blast
  obtain c b where c: "renewSubObject de_ClusterKey (rn_slaves r) x = Ok (c, b)"
    using renew_step [OF assms(1)] by blast
  let ?w = "emit (CreateEntry ?e) (rn_world r)"
  let ?r = "r\<lparr>rn_slaves := c, rn_world := s_Event obj EventTypeNormal ''reconcile''
      (''created dns entry object '' @ ObjectName_String (meta_ObjectName (de_meta x))) ?w\<rparr>"
  have "createEntryFor env this obj info n r = Ok (None, notify env (Pending n '''') ?r)"
    using x c by (simp add: createEntryFor_def CreateEntrySlave_def de_Create_def Let_def)
  moreover have "silent ?w (rn_world (notify env (Pending n '''') ?r))"
    by (rule adds_trans [of _ _ "rn_world ?r"]) (simp, rule silent_notify)
  ultimately show ?thesis by (intro exI [of _ ?e] exI) auto
qed

lemma silent_filter: "silent w w' \<Longrightarrow> filter entry_write (w_trace w') = filter entry_write (w_trace w)"
  by (auto simp: adds_def)

lemma conclude_clean:
  "di_Names info \<noteq> [] \<Longrightarrow> fst (conclude env found info (m, [], r)) = RSucceeded"
  by (simp add: conclude_def)

text \<open>
  A load balancer the controller is responsible for, of the cluster the entries live in, whose name is not excluded and that has
  neither entries nor a finalizer of the controller.
\<close>

definition unpublished :: "dns_env \<Rightarrow> sourceReconciler \<Rightarrow> EntryCache \<Rightarrow> DNSLoadBalancer \<Rightarrow> bool" where
  "unpublished env this entries lb \<longleftrightarrow>
     cache_inv de_ClusterKey entries \<and> GetByKey (ev_keys env) entries (lb_ClusterKey lb) = Ok [] \<and>
     IsResponsibleFor (sc_classes this) (lb_meta lb) \<and> \<not> exclude this (DNSName (lb_spec lb)) \<and>
     m_cluster (lb_meta lb) = sc_cluster this \<and>
     (\<forall>c. finalizer (sc_finalizer this) c \<notin> set (m_finalizers (lb_meta lb)))"

lemma first_entry:
  assumes "keeps_elements env" and "unpublished env this (dr_slaves st) lb"
    and "\<And>tr e. \<exists>x. api_createEntry (ev_api env) tr e = Inr x"
    and "GetDNSInfo (ev_api env) (ev_net env) (ev_debug env) (ev_keys env) (ev_now env) (dr_source st) lb
      \<lparr>cs_Names = Map.empty, cs_Targets = [], cs_AnnotatedNames = annotated_names (lb_meta lb)\<rparr> w = Ok (Inr info, wd)"
    and "di_Targets info \<noteq> []"
  shows "\<exists>st' w' e. dns_Reconcile env this st lb w = Ok (st', RSucceeded, w') \<and>
    filter entry_write (w_trace w') = filter entry_write (w_trace w) @ [CreateEntry e] \<and>
    entry_name e = DNSName (lb_spec lb) \<and> set (des_Targets (de_spec e)) = set (di_Targets info)"
proof -
  note lb = assms(2) [unfolded unpublished_def]
  let ?n = "DNSName (lb_spec lb)"
  let ?found = "\<lparr>cs_Names = Map.empty, cs_Targets = [], cs_AnnotatedNames = []\<rparr>"
  have names: "di_Names info = [?n]" by (rule GetDNSInfo_run [OF assms(4)]) simp
  have current: "current_state env [] w = Ok (?found, w)"
    by (simp add: current_state_def keeps_elements_single [OF assms(1)] NewStringSet_def Add_def)
  obtain info' err where i: "annotated_info (lb_meta lb) (info\<lparr>di_Names := filter (\<lambda>d. \<not> exclude this d) (di_Names info)\<rparr>) = (info', err)"
    by (meson surj_pair)
  with annotated_info_same [of "lb_meta lb" "info\<lparr>di_Names := filter (\<lambda>d. \<not> exclude this d) (di_Names info)\<rparr>"]
  have info': "di_Names info' = [?n]" "di_Targets info' = di_Targets info"
    using lb names by simp_all
  have get: "getDNSInfo env this (dr_source st) lb ?found w = Ok ((Some info', err), wd)"
    using lb assms(4) i by (simp add: getDNSInfo_def)
  let ?w3 = "case err of None \<Rightarrow> wd | Some e \<Rightarrow> lb_Event lb EventTypeWarning ''reconcile'' (Error e) wd"
  have quiet: "silent w ?w3"
    using silent_getDNSInfo [OF get] by (cases err) (simp_all add: silent_then_event)
  let ?r = "\<lparr>rn_slaves = dr_slaves st, rn_feedback = di_Feedback info', rn_world = ?w3\<rparr>"
  obtain e r where c: "createEntryFor env this (lb_object lb) info' ?n ?r = Ok (None, r)"
    "silent (emit (CreateEntry e) ?w3) (rn_world r)" "de_spec e = de_spec (new_entry env this (lb_object lb) info' ?n)"
    using createEntryFor_accepted [of ?r env this "lb_object lb" info' ?n] lb assms(3) by auto
  let ?last = "conclude env ?found info' (Map.empty, [], r)"
  have fin: "dns_RemoveFinalizer (ev_api env) (ev_strings env) this (lb_object lb) ?w3 = (None, lb_object lb, ?w3)"
    by (rule no_finalizer_to_remove) (use lb in \<open>simp add: lb_object_def\<close>)
  have wr: "write_entries env this (lb_object lb) [] info' ?r = Ok (Map.empty, [], r)"
    using assms(5) c(1)
    by (simp add: write_entries_def missing_names_def obsolete_entries_def current_entries_def info'
        keeps_elements_single [OF assms(1)] create_step_def)
  have status: "fst ?last = RSucceeded" by (rule conclude_clean) (simp add: info')
  have "publish env this st lb [] ?found info' ?w3 = Ok (st\<lparr>dr_slaves := rn_slaves (snd ?last)\<rparr>, RSucceeded, rn_world (snd ?last))"
    using lb status fin wr by (simp add: publish_def requireFinalizer_def case_prod_unfold Let_def)
  with lb current get
  have run: "dns_Reconcile env this st lb w = Ok (st\<lparr>dr_slaves := rn_slaves (snd ?last)\<rparr>, RSucceeded, rn_world (snd ?last))"
    by (simp add: dns_Reconcile_def)
  have "silent (rn_world r) (rn_world (snd ?last))" by (rule conclude_silent [of "(Map.empty, [], r)", simplified])
  from silent_filter [OF quiet] silent_filter [OF adds_trans [OF c(2) this]]
  have "filter entry_write (w_trace (rn_world (snd ?last))) = filter entry_write (w_trace w) @ [CreateEntry e]" by simp
  moreover have "entry_name e = ?n" "set (des_Targets (de_spec e)) = set (di_Targets info)"
    using new_entry_sel(1,2) [of env this "lb_object lb" info' ?n] c(3)
    by (simp_all add: entry_name_def keeps_elements_set [OF assms(1)] info')
  ultimately show ?thesis using run by blast
qed

text \<open>
  A host may be published for a load balancer: it belongs to an endpoint the state holds for the load balancer, which
  is not outdated, and a request to it got the status code the load balancer asks for.
\<close>

definition healthy_host :: "dns_env \<Rightarrow> dns_state \<Rightarrow> DNSLoadBalancer \<Rightarrow> string \<Rightarrow> bool" where
  "healthy_host env st lb host \<longleftrightarrow>
     (\<exists>eps. GetEndpointsFor (ev_keys env) (dls_state (dr_source st)) (lb_ClusterKey lb) = Ok eps \<and>
       (\<exists>ep\<in>set eps. host = GetHostName (target_of ep) \<and> host \<noteq> '''' \<and>
          \<not> outdated (dr_source st) (ev_now env) ep \<and>
          (\<exists>n. net_Do (ev_net env) n (''https://'' @ host @ HealthPath (lb_spec lb)) (Some (DNSName (lb_spec lb))) =
             Some (if StatusCode (lb_spec lb) = 0 then 200 else StatusCode (lb_spec lb)))))"

text \<open>What a reconciliation writes: nothing for a name, or what an answer of the DNS source says.\<close>

lemma dns_Reconcile_writes:
  assumes "dns_Reconcile env this st lb w = Ok (st', status, w')" and "keeps_elements env"
  shows "adds (\<lambda>e. \<forall>x. e \<noteq> CreateEntry x \<and> e \<noteq> UpdateEntry x) w w' \<or>
    (\<exists>i i' found w1 w2. adds (sent_for i) w w' \<and> IsResponsibleFor (sc_classes this) (lb_meta lb) \<and>
       GetDNSInfo (ev_api env) (ev_net env) (ev_debug env) (ev_keys env) (ev_now env) (dr_source st) lb found w1 = Ok (Inr i', w2) \<and>
       di_Names i = filter (\<lambda>d. \<not> exclude this d) (di_Names i') \<and> di_Targets i = di_Targets i')"
proof -
  obtain slaves found w1 info err w2 where run:
    "current_state env slaves w = Ok (found, w1)"
    "getDNSInfo env this (dr_source st) lb found w1 = Ok ((info, err), w2)"
    and rest: "(let w = (case err of None \<Rightarrow> w2 | Some e \<Rightarrow> lb_Event lb EventTypeWarning ''reconcile'' (Error e) w2)
       in case info of
            None \<Rightarrow> Ok (st, (case err of None \<Rightarrow> Stop RSucceeded | Some e \<Rightarrow> RFailed (Some e)), w)
          | Some info \<Rightarrow> publish env this st lb slaves found info w) = Ok (st', status, w')"
    using assms(1) unfolding dns_Reconcile_def by (auto split: prod.splits)
  let ?w3 = "case err of None \<Rightarrow> w2 | Some e \<Rightarrow> lb_Event lb EventTypeWarning ''reconcile'' (Error e) w2"
  have "adds (\<lambda>e. \<not> entry_write e) w2 ?w3" by (cases err) simp_all
  with silent_getDNSInfo [OF run(2)] have quiet: "silent w1 ?w3" by (rule adds_trans)
  show ?thesis
  proof (cases info)
    case None
    then have "w' = ?w3" using rest by (simp add: Let_def)
    have "adds (\<lambda>e. \<forall>x. e \<noteq> CreateEntry x \<and> e \<noteq> UpdateEntry x) w w1"
      by (rule adds_mono [OF current_state_deletes [OF run(1)]]) auto
    moreover have "adds (\<lambda>e. \<forall>x. e \<noteq> CreateEntry x \<and> e \<noteq> UpdateEntry x) w1 w'"
      unfolding \<open>w' = ?w3\<close> by (rule adds_mono [OF quiet]) auto
    ultimately have "adds (\<lambda>e. \<forall>x. e \<noteq> CreateEntry x \<and> e \<noteq> UpdateEntry x) w w'" by (rule adds_trans)
    then show ?thesis by blast
  next
    case (Some i)
    then have "publish env this st lb slaves found i ?w3 = Ok (st', status, w')" using rest by (simp add: Let_def)
    note last = publish_sent [OF this assms(2)]
    have "adds (sent_for i) w w1" by (rule adds_mono [OF current_state_deletes [OF run(1)]]) auto
    from adds_trans [OF this adds_trans [OF silent_sent_for [OF quiet] last]] have "adds (sent_for i) w w'" .
    obtain found' i' where r: "IsResponsibleFor (sc_classes this) (lb_meta lb)"
      "GetDNSInfo (ev_api env) (ev_net env) (ev_debug env) (ev_keys env) (ev_now env) (dr_source st) lb found' w1 = Ok (Inr i', w2)"
      "di_Names i = filter (\<lambda>d. \<not> exclude this d) (di_Names i')" "di_Targets i = di_Targets i'"
      by (rule getDNSInfo_Some [OF run(2)[unfolded Some]])
    with \<open>adds (sent_for i) w w'\<close> show ?thesis by blast
  qed
qed

text \<open>
  C9. Everything that is published in the DNS is justified. A reconciliation of a load balancer creates entries only
  for the name of the load balancer, which is not an excluded one, and only when there are targets. Every
  entry it creates or updates, whatever the server answers, has as targets only hosts of endpoints that the state
  holds for this load balancer, that are not outdated and that answered their health check with the status code
  the load balancer asks for; in exclusive mode at most one. For a load balancer of a class the controller is not responsible
  for, no entry is created or updated.
\<close>

theorem dns_entries_are_justified:
  assumes "dns_Reconcile env this st lb w = Ok (st', status, w')" and "keeps_elements env"
  shows "\<exists>t. w_trace w' = w_trace w @ t \<and>
    (\<forall>e. CreateEntry e \<in> set t \<longrightarrow> entry_name e = DNSName (lb_spec lb) \<and> \<not> exclude this (entry_name e) \<and> des_Targets (de_spec e) \<noteq> []) \<and>
    (\<forall>e. CreateEntry e \<in> set t \<or> UpdateEntry e \<in> set t \<longrightarrow>
       IsResponsibleFor (sc_classes this) (lb_meta lb) \<and>
       (type_of lb = Some True \<longrightarrow> card (set (des_Targets (de_spec e))) \<le> 1) \<and>
       (\<forall>host\<in>set (des_Targets (de_spec e)). healthy_host env st lb host))"
proof -
  consider (quiet) "adds (\<lambda>e. \<forall>x. e \<noteq> CreateEntry x \<and> e \<noteq> UpdateEntry x) w w'"
    | (sent) i i' found w1 w2 where "adds (sent_for i) w w'" "IsResponsibleFor (sc_classes this) (lb_meta lb)"
      "GetDNSInfo (ev_api env) (ev_net env) (ev_debug env) (ev_keys env) (ev_now env) (dr_source st) lb found w1 = Ok (Inr i', w2)"
      "di_Names i = filter (\<lambda>d. \<not> exclude this d) (di_Names i')" "di_Targets i = di_Targets i'"
    using dns_Reconcile_writes [OF assms] by blast
  then show ?thesis
  proof cases
    case quiet
    then obtain t where "w_trace w' = w_trace w @ t" "\<forall>e\<in>set t. \<forall>x. e \<noteq> CreateEntry x \<and> e \<noteq> UpdateEntry x"
      unfolding adds_def by blast
    then show ?thesis by (intro exI [of _ t]) auto
  next
    case sent
    from sent(1) obtain t where t: "w_trace w' = w_trace w @ t" "\<forall>e\<in>set t. sent_for i e" unfolding adds_def by blast
    note r = sent(2-5)
    note just = published_targets_justified [OF r(2)]
    have "card (set (di_Targets i)) \<le> 1" if "type_of lb = Some True"
      using just that card_length [of "di_Targets i"] by (simp add: r(4))
    moreover have hosts: "\<forall>host\<in>set (di_Targets i'). healthy_host env st lb host"
      using just unfolding healthy_host_def by blast
    ultimately have targets: "(type_of lb = Some True \<longrightarrow> card (set (des_Targets (de_spec e))) \<le> 1) \<and>
       (\<forall>host\<in>set (des_Targets (de_spec e)). healthy_host env st lb host)"
      if "set (des_Targets (de_spec e)) = set (di_Targets i)" for e
      using hosts that r(4) \<open>type_of lb = Some True \<Longrightarrow> card (set (di_Targets i)) \<le> 1\<close> by simp
    have created: "\<forall>e. CreateEntry e \<in> set t \<longrightarrow>
        entry_name e = DNSName (lb_spec lb) \<and> \<not> exclude this (entry_name e) \<and> des_Targets (de_spec e) \<noteq> []"
      using t(2) conjunct1 [OF just] by (fastforce simp: r(3) split: if_splits)
    have "set (des_Targets (de_spec e)) = set (di_Targets i)" if "CreateEntry e \<in> set t \<or> UpdateEntry e \<in> set t" for e
      using that t(2) by auto
    from targets [OF this] r(1) have written: "\<forall>e. CreateEntry e \<in> set t \<or> UpdateEntry e \<in> set t \<longrightarrow>
       IsResponsibleFor (sc_classes this) (lb_meta lb) \<and>
       (type_of lb = Some True \<longrightarrow> card (set (des_Targets (de_spec e))) \<le> 1) \<and>
       (\<forall>host\<in>set (des_Targets (de_spec e)). healthy_host env st lb host)"
      by blast
    show ?thesis by (rule exI [of _ t], intro conjI t(1) created written)
  qed
qed

text \<open>A run that creates the first entry of the sample load balancer.\<close>

definition sample_env :: dns_env where
  "sample_env =
     \<lparr>ev_api = sample_api, ev_net = sample_net_ok, ev_debug = False, ev_keys = (\<lambda>ks. ks), ev_strings = (\<lambda>xs. xs),
      ev_eps = (\<lambda>m. m), ev_now = 1, ev_later = 1\<rparr>"

definition sample_reconciler :: sourceReconciler where
  "sample_reconciler = NewSourceReconciler (\<lambda>_. '''') [] ''dns'' ''target'' ''target'' (\<lambda>_. ''v1'')"

definition sample_dns :: "DNSLBSource \<Rightarrow> dns_state" where
  "sample_dns s = \<lparr>dr_slaves = NewEntryCache, dr_source = s\<rparr>"

lemma sample_env_sel [simp]:
  "ev_api sample_env = sample_api" "ev_net sample_env = sample_net_ok" "ev_debug sample_env = False"
  "ev_keys sample_env = (\<lambda>ks. ks)" "ev_strings sample_env = (\<lambda>xs. xs)" "ev_now sample_env = 1" "keeps_elements sample_env"
  by (simp_all add: sample_env_def keeps_elements_def)

lemma sample_reconciler_sel [simp]:
  "IsResponsibleFor (sc_classes sample_reconciler) (lb_meta sample_lb)" "\<not> exclude sample_reconciler n"
  "sc_cluster sample_reconciler = ''target''" "sc_targetclass sample_reconciler = ''''"
  by (simp_all add: sample_reconciler_def NewSourceReconciler_def NewClasses_def IsResponsibleFor_def annotation_def
      exclude_def NewStringSet_def Add_def DEFAULT_CLASS_def sample_lb_def sample_meta_def Let_def)

lemma sample_dns_cache [simp]:
  "cache_inv de_ClusterKey (dr_slaves (sample_dns s))" "GetByKey rng (dr_slaves (sample_dns s)) k = Ok []"
  "dr_source (sample_dns s) = s"
  by (simp add: sample_dns_def NewEntryCache_def cache_inv_new)
    (simp_all add: sample_dns_def NewEntryCache_def GetByKey_def NewSubObjectCache_def)

lemma sample_lb_sel [simp]:
  "m_cluster (lb_meta sample_lb) = ''target''" "m_finalizers (lb_meta sample_lb) = []"
  "DNSName (lb_spec sample_lb) = ''lb.example.org''"
  by (simp_all add: sample_lb_def sample_meta_def)

lemma sample_unpublished: "unpublished sample_env sample_reconciler (dr_slaves (sample_dns s)) sample_lb"
  by (simp add: unpublished_def)

lemma sample_answer:
  "\<exists>info wd. GetDNSInfo sample_api sample_net_ok False (\<lambda>ks. ks) 1 sample_dls sample_lb current init_world = Ok (Inr info, wd) \<and>
     di_Targets info \<noteq> []"
proof -
  have "live sample_dls 1 (sample_ep ''ep1'' ''a'')"
    by (simp add: live_def target_of_def IsValid_host GetHostName_def outdated_def sample_ep_def)
  moreover have "answers_health sample_net_ok sample_lb (GetHostName (target_of (sample_ep ''ep1'' ''a'')))"
    by (simp add: answers_health_def sample_net_ok_def sample_lb_def target_of_def GetHostName_def sample_ep_def)
  moreover have "net_LookupIP sample_net_ok (DNSName (lb_spec sample_lb)) \<noteq> Inr []" by (simp add: sample_net_ok_def)
  ultimately show ?thesis
    using GetDNSInfo_publishes [where a = sample_api and debug = False and current = current and wd = init_world,
        OF _ sample_dls_type _ sample_dls_lookup, of sample_net_ok "sample_ep ''ep1'' ''a''" 1] by simp
qed

lemma sample_first_entry:
  "\<exists>st' w' e. dns_Reconcile sample_env sample_reconciler (sample_dns sample_dls) sample_lb init_world = Ok (st', RSucceeded, w') \<and>
     filter entry_write (w_trace w') = [CreateEntry e] \<and> entry_name e = ''lb.example.org''"
proof -
  obtain info wd where i: "GetDNSInfo sample_api sample_net_ok False (\<lambda>ks. ks) 1 sample_dls sample_lb
      \<lparr>cs_Names = Map.empty, cs_Targets = [], cs_AnnotatedNames = annotated_names (lb_meta sample_lb)\<rparr> init_world = Ok (Inr info, wd)"
    "di_Targets info \<noteq> []" using sample_answer by blast
  have accept: "\<exists>x. api_createEntry (ev_api sample_env) tr e = Inr x" for tr e by (simp add: sample_api_def)
  show ?thesis
    using first_entry [of sample_env sample_reconciler "sample_dns sample_dls" sample_lb init_world info wd] i accept
    by (auto simp: init_world_def sample_unpublished)
qed

theorem dns_entries_are_justified_witness:
  "\<exists>st' status w' e. dns_Reconcile sample_env sample_reconciler (sample_dns sample_dls) sample_lb init_world = Ok (st', status, w') \<and>
     CreateEntry e \<in> set (w_trace w') \<and> entry_name e = ''lb.example.org'' \<and> card (set (des_Targets (de_spec e))) \<le> 1 \<and>
     (\<forall>host\<in>set (des_Targets (de_spec e)). healthy_host sample_env (sample_dns sample_dls) sample_lb host)"
proof -
  obtain st' w' e where r: "dns_Reconcile sample_env sample_reconciler (sample_dns sample_dls) sample_lb init_world = Ok (st', RSucceeded, w')"
    "filter entry_write (w_trace w') = [CreateEntry e]" "entry_name e = ''lb.example.org''"
    using sample_first_entry by blast
  have "CreateEntry e \<in> set (filter entry_write (w_trace w'))" by (simp add: r(2))
  then have e: "CreateEntry e \<in> set (w_trace w')" by simp
  have "w_trace init_world = []" by (simp add: init_world_def)
  with dns_entries_are_justified [OF r(1)] e have "card (set (des_Targets (de_spec e))) \<le> 1"
    "\<forall>host\<in>set (des_Targets (de_spec e)). healthy_host sample_env (sample_dns sample_dls) sample_lb host"
    by (auto simp: sample_dls_type)
  with r(1,3) e show ?thesis by blast
qed

end
