(* ===== verification/Published.thy ===== *)
theory Published
  imports DnsProps
begin

text \<open>
  The endpoint controller and the DNS controller with its reconciler together: from a source to the DNS entry of
  its name, and how the entries go when the load balancer goes.
\<close>

section \<open>From a source to a DNS entry\<close>

text \<open>
  C2. From a source to its name. A valid source with the finalizer is reconciled by the endpoint controller, the
  API server creates the endpoint, the state reconciler of the DNS controller sees it for the first time, whatever it
  did before, and then the load balancer is reconciled by the DNS controller. If the host of the source answers
  its health checks, the endpoint is not outdated at that time and the load balancer has no entry yet,
  exactly one DNS entry is written: a new one, for the name of the load balancer, with at least one target, and in balanced
  mode the address or host name of the source is among the targets. Seeing the endpoint writes nothing, so the endpoint
  controller is not woken up again by it.
\<close>

theorem source_reaches_dns:
  assumes "slaves_ok (sr_slaves st)" and "identifiable (cf_Version cf) (cf_target cf) obj"
    and "src_IsValid cf obj = (Some ref, Some obj)" and "cf_lbs cf ref = Inr lb"
    and "src_Validate obj lb = (n, None)" and "HasFinalizer (cf_finalizer cf) obj"
    and "\<And>xs. mset (cf_range cf xs) = mset xs"
    and "LookupSlaves (cf_range cf) (sr_slaves st) (s_ClusterKey obj) [] = Ok []"
    and "newEndpoint (cf_Version cf) (cf_target cf) (clock 0) lb obj = e"
    and "api_createEP a (w_trace w) e = Inr r" and "created e r" and "objs (sr_slaves st) (ep_ClusterKey r) = None"
    and "for_each state_step NewState opers = Ok (dls_state this)"
    and "\<forall>oper\<in>set opers. \<forall>e\<in>set (state_objects oper). ep_ClusterKey e \<noteq> ep_ClusterKey r"
    and "m_cluster (lb_meta lb) = cf_target cf" and "m_name (lb_meta lb) \<noteq> ''''"
    and "get (lb_ClusterKey lb) = Inr lb" and "\<not> IsDeleting (lb_meta lb)"
    and "DNSName (lb_spec lb) \<noteq> ''''" and "type_of lb = Some exclusive"
    and "net_LookupIP (ev_net env) (DNSName (lb_spec lb)) \<noteq> Inr []" and "\<And>xs. set (ev_keys env xs) = set xs"
    and "\<And>dur. EndpointValidityInterval (lb_spec lb) = Some dur \<Longrightarrow> dur = 0 \<or> ev_now env \<le> clock 0 + dur"
    and "src_GetTargets obj lb = (ip, cname)" and "host = (if cname \<noteq> '''' then cname else ip)"
    and "answers_health (ev_net env) lb host"
    and "keeps_elements env" and "unpublished env dns entries lb"
    and "\<And>tr e. \<exists>x. api_createEntry (ev_api env) tr e = Inr x"
  shows "\<exists>st1 w1 st2 st3 e' wd'.
    sr_Reconcile a cf clock st obj w = Ok (st1, RescheduleAfter (cf_period cf) RSucceeded, w1) \<and>
    writes (w_trace w1) = writes (w_trace w) @ [CreateEP e] \<and>
    state_Reconcile (ev_api env) get (dls_state this) r wd = Ok (st2, RSucceeded, wd) \<and>
    dns_Reconcile env dns \<lparr>dr_slaves = entries, dr_source = this\<lparr>dls_state := st2\<rparr>\<rparr> lb wd = Ok (st3, RSucceeded, wd') \<and>
    filter entry_write (w_trace wd') = filter entry_write (w_trace wd) @ [CreateEntry e'] \<and>
    entry_name e' = DNSName (lb_spec lb) \<and> des_Targets (de_spec e') \<noteq> [] \<and>
    (\<not> exclusive \<longrightarrow> host \<in> set (des_Targets (de_spec e')))"
proof -
  note seen = source_seen [where a = a and a' = "ev_api env" and w = w and wd = wd and clock = clock and debug = "ev_debug env" and
      net = "ev_net env" and rng = "ev_keys env" and now = "ev_now env" and get = get and
      current = "\<lparr>cs_Names = Map.empty, cs_Targets = [], cs_AnnotatedNames = annotated_names (lb_meta lb)\<rparr>", OF assms(1-26)]
  obtain st1 w1 st2 info wd2 where first:
    "sr_Reconcile a cf clock st obj w = Ok (st1, RescheduleAfter (cf_period cf) RSucceeded, w1)"
    "writes (w_trace w1) = writes (w_trace w) @ [CreateEP e]"
    "state_Reconcile (ev_api env) get (dls_state this) r wd = Ok (st2, RSucceeded, wd)"
    and second: "GetDNSInfo (ev_api env) (ev_net env) (ev_debug env) (ev_keys env) (ev_now env) (this\<lparr>dls_state := st2\<rparr>) lb
      \<lparr>cs_Names = Map.empty, cs_Targets = [], cs_AnnotatedNames = annotated_names (lb_meta lb)\<rparr> wd = Ok (Inr info, wd2)"
    "di_Targets info \<noteq> []" "\<not> exclusive \<longrightarrow> host \<in> set (di_Targets info)"
    using seen by blast
  let ?dns = "\<lparr>dr_slaves = entries, dr_source = this\<lparr>dls_state := st2\<rparr>\<rparr>"
  from first_entry [of env dns ?dns lb wd info wd2, OF assms(27) _ assms(29) _ second(2)] assms(28) second(1)
  obtain st3 wd' e' where "dns_Reconcile env dns ?dns lb wd = Ok (st3, RSucceeded, wd')"
    "filter entry_write (w_trace wd') = filter entry_write (w_trace wd) @ [CreateEntry e']"
    "entry_name e' = DNSName (lb_spec lb)" "set (des_Targets (de_spec e')) = set (di_Targets info)"
    by auto
  with first second(2,3) show ?thesis by fastforce
qed

theorem source_reaches_dns_witness:
  "\<exists>st1 w1 st2 st3 e e' wd'.
    sr_Reconcile sample_api sample_config (\<lambda>_. 0) (NewState_sr sample_config) sample_source init_world =
      Ok (st1, RescheduleAfter (30 * Second) RSucceeded, w1) \<and>
    state_Reconcile sample_api (\<lambda>_. Inr sample_lb) NewState e init_world = Ok (st2, RSucceeded, init_world) \<and>
    dns_Reconcile sample_env sample_reconciler (sample_dns (sample_empty\<lparr>dls_state := st2\<rparr>)) sample_lb init_world =
      Ok (st3, RSucceeded, wd') \<and>
    filter entry_write (w_trace wd') = [CreateEntry e'] \<and> entry_name e' = ''lb.example.org''"
proof -
  let ?e = "newEndpoint (cf_Version sample_config) (cf_target sample_config) 0 sample_lb sample_source"
  have health: "answers_health (ev_net sample_env) sample_lb ''10.0.0.9''"
    by (simp add: answers_health_def sample_net_ok_def sample_lb_def)
  have run: "for_each state_step NewState [] = Ok (dls_state sample_empty)" by (simp add: sample_empty_def)
  have lb: "m_cluster (lb_meta sample_lb) = cf_target sample_config" "m_name (lb_meta sample_lb) \<noteq> ''''"
    "\<not> IsDeleting (lb_meta sample_lb)" "DNSName (lb_spec sample_lb) \<noteq> ''''"
    "net_LookupIP (ev_net sample_env) (DNSName (lb_spec sample_lb)) \<noteq> Inr []"
    by (simp_all add: sample_lb_def sample_meta_def sample_sel IsDeleting_def sample_net_ok_def)
  have ident: "identifiable (cf_Version sample_config) (cf_target sample_config) sample_source"
    using sample_identifiable by (simp add: sample_sel)
  have rngs: "mset (cf_range sample_config xs) = mset xs" "set (ev_keys sample_env xs) = set xs" for xs :: "ClusterObjectKey list"
    by (simp_all add: sample_sel)
  have valid: "dur = 0 \<or> ev_now sample_env \<le> 0 + dur" if "EndpointValidityInterval (lb_spec sample_lb) = Some dur" for dur
    using that by (simp add: sample_lb_def)
  have accept: "\<exists>x. api_createEntry (ev_api sample_env) tr e = Inr x" for tr e by (simp add: sample_api_def)
  from source_reaches_dns [where a = sample_api and w = init_world and wd = init_world and
      clock = "\<lambda>_. 0" and r = ?e and e = ?e and opers = "[]" and get = "\<lambda>_. Inr sample_lb" and env = sample_env and
      dns = sample_reconciler and entries = NewEntryCache,
      OF sample_start(1) ident sample_valid sample_sel(1) sample_validated sample_sel(2) rngs(1) sample_start(3) refl
        sample_sel(7) created_refl sample_start(2) run _ lb(1,2) refl lb(3,4) sample_dls_type lb(5) rngs(2) valid
        sample_host refl] health accept sample_unpublished [unfolded sample_dns_def]
  show ?thesis by (auto simp: sample_sel sample_empty_def sample_dns_def init_world_def)
qed

section \<open>Deleting the entries of a load balancer\<close>

definition deletions :: "DNSEntry list \<Rightarrow> trace" where
  "deletions es = map (\<lambda>e. DeleteEntry (de_ClusterKey e)) es"

text \<open>The server's answer to the \<open>i\<close>-th of the deletions says that the entry is gone.\<close>

definition entry_gone :: "api \<Rightarrow> trace \<Rightarrow> DNSEntry list \<Rightarrow> nat \<Rightarrow> bool" where
  "entry_gone a t es i \<longleftrightarrow> is_gone (api_deleteEntry a (t @ deletions (take i es)) (de_ClusterKey (es ! i)))"

lemma drop_all:
  "\<exists>w1. foldl (drop_step env) (False, w) es = (\<exists>i<length es. \<not> entry_gone (ev_api env) (w_trace w) es i, w1) \<and>
     w_trace w1 = w_trace w @ deletions es"
proof (induction es rule: rev_induct)
  case (snoc e es)
  then obtain w1 where w1: "foldl (drop_step env) (False, w) es = (\<exists>i<length es. \<not> entry_gone (ev_api env) (w_trace w) es i, w1)"
    "w_trace w1 = w_trace w @ deletions es" by blast
  have old: "entry_gone (ev_api env) (w_trace w) (es @ [e]) i = entry_gone (ev_api env) (w_trace w) es i" if "i < length es" for i
    using that by (simp add: entry_gone_def nth_append)
  have new: "entry_gone (ev_api env) (w_trace w) (es @ [e]) (length es) =
      is_gone (api_deleteEntry (ev_api env) (w_trace w @ deletions es) (de_ClusterKey e))"
    by (simp add: entry_gone_def)
  have "(\<exists>i<length (es @ [e]). \<not> entry_gone (ev_api env) (w_trace w) (es @ [e]) i) =
      ((\<exists>i<length es. \<not> entry_gone (ev_api env) (w_trace w) es i) \<or>
       \<not> entry_gone (ev_api env) (w_trace w) (es @ [e]) (length es))"
    using old by (auto simp: less_Suc_eq)
  with w1 new show ?case
    by (auto simp: drop_step_def de_Delete_def deletions_def is_gone_def)
qed (simp add: deletions_def)

text \<open>
  C10. Deleting a load balancer: a deletion is sent for each of its DNS entries, in order, and before
  anything else. Its finalizer is touched only when the API server has answered every one of
  them that the entry is gone; otherwise the deletion is tried again later.
\<close>

theorem dns_deletes_entries_first:
  assumes "GetByKey (ev_keys env) (dr_slaves st) (lb_ClusterKey lb) = Ok es"
  shows "\<exists>status w1 w'. dns_Delete env this st lb w = Ok (st, status, w') \<and>
    w_trace w1 = w_trace w @ map (\<lambda>e. DeleteEntry (de_ClusterKey e)) es \<and>
    ((\<exists>i<length es. \<not> entry_gone (ev_api env) (w_trace w) es i) \<and> w' = w1 \<and> status = Delay None \<or>
     (\<forall>i<length es. entry_gone (ev_api env) (w_trace w) es i) \<and>
       (\<exists>err obj. dns_RemoveFinalizer (ev_api env) (ev_strings env) this (lb_object lb) w1 = (err, obj, w') \<and>
          status = DelayOnError err))"
proof -
  obtain w1 where w1: "foldl (drop_step env) (False, w) es = (\<exists>i<length es. \<not> entry_gone (ev_api env) (w_trace w) es i, w1)"
    "w_trace w1 = w_trace w @ deletions es" using drop_all by blast
  obtain err obj w2 where fin: "dns_RemoveFinalizer (ev_api env) (ev_strings env) this (lb_object lb) w1 = (err, obj, w2)"
    by (meson prod_cases3)
  show ?thesis
  proof (cases "\<exists>i<length es. \<not> entry_gone (ev_api env) (w_trace w) es i")
    case True
    with assms w1 show ?thesis by (auto simp: dns_Delete_def deletions_def)
  next
    case False
    with assms w1 fin show ?thesis by (auto simp: dns_Delete_def deletions_def)
  qed
qed

lemma lb_object_key [simp]: "s_ClusterKey (lb_object lb) = lb_ClusterKey lb"
  by (simp add: lb_object_def s_ClusterKey_def lb_ClusterKey_def)

definition sample_entry :: DNSEntry where
  "sample_entry =
     (let e = new_entry sample_env sample_reconciler (lb_object sample_lb)
            \<lparr>di_Names = [''lb.example.org''], di_TTL = None, di_Interval = None, di_Targets = [''a''], di_Feedback = None\<rparr> ''lb.example.org''
      in e\<lparr>de_meta := (de_meta e)\<lparr>m_name := ''e1'',
            m_ownerReferences := [GetOwnerReference (\<lambda>_. ''v1beta1'') (lb_object sample_lb)]\<rparr>\<rparr>)"

definition sample_entries :: EntryCache where
  "sample_entries = (case renewSubObject de_ClusterKey NewEntryCache sample_entry of Panic \<Rightarrow> NewEntryCache | Ok (c, _) \<Rightarrow> c)"

lemma sample_entry_owner: "GetOwners_of (de_meta sample_entry) [] = [lb_ClusterKey sample_lb]"
proof -
  have meta: "m_cluster (de_meta sample_entry) = ''target''" "m_namespace (de_meta sample_entry) = ''ns''"
    "m_annotations (de_meta sample_entry) = Map.empty"
    "m_ownerReferences (de_meta sample_entry) = [GetOwnerReference (\<lambda>_. ''v1beta1'') (lb_object sample_lb)]"
    by (simp_all add: sample_entry_def new_entry_def Let_def lb_object_def sample_lb_def sample_meta_def
        sample_reconciler_def NewSourceReconciler_def NewClasses_def)
  have "readable_key (s_ClusterKey (lb_object sample_lb))"
    by (simp add: readable_key_def plain_def lb_ClusterKey_def meta_ClusterKey_def LoadBalancerGroupKind_def
        GroupName_def LoadBalancerResourceKind_def sample_lb_def sample_meta_def)
  moreover have "m_cluster (s_meta (lb_object sample_lb)) = ''target''" "m_namespace (s_meta (lb_object sample_lb)) = ''ns''"
    by (simp_all add: lb_object_def sample_lb_def sample_meta_def)
  ultimately have "reference_owner (de_meta sample_entry) (GetOwnerReference (\<lambda>_. ''v1beta1'') (lb_object sample_lb)) = lb_ClusterKey sample_lb"
    using reference_of_source [of "lb_object sample_lb" "\<lambda>_. ''v1beta1''" "de_meta sample_entry"] meta(1,2) by simp
  then show ?thesis
    by (simp add: GetOwners_of_def meta GetAnnotatedOwners_def FilterKeysByGroupKinds_def Add_def keyset_add_def)
qed

lemma sample_entries_lookup: "GetByKey (\<lambda>ks. ks) sample_entries (lb_ClusterKey sample_lb) = Ok [sample_entry]"
  by (simp add: sample_entries_def renewSubObject_def NewEntryCache_def NewSubObjectCache_def sample_entry_owner
      add_def filterKey_def keyset_add_def GetByKey_def Let_def)

theorem dns_deletes_entries_first_witness:
  "\<exists>w'. dns_Delete sample_env sample_reconciler \<lparr>dr_slaves = sample_entries, dr_source = sample_dls\<rparr> sample_lb init_world =
     Ok (\<lparr>dr_slaves = sample_entries, dr_source = sample_dls\<rparr>, RSucceeded, w') \<and>
     DeleteEntry (de_ClusterKey sample_entry) \<in> set (w_trace w')"
proof -
  let ?st = "\<lparr>dr_slaves = sample_entries, dr_source = sample_dls\<rparr>"
  have found: "GetByKey (ev_keys sample_env) (dr_slaves ?st) (lb_ClusterKey sample_lb) = Ok [sample_entry]"
    by (simp add: sample_entries_lookup)
  have gone: "entry_gone (ev_api sample_env) t es i" for t es i
    by (simp add: entry_gone_def is_gone_def sample_api_def)
  obtain status w1 w' where run:
    "dns_Delete sample_env sample_reconciler ?st sample_lb init_world = Ok (?st, status, w')"
    "w_trace w1 = w_trace init_world @ map (\<lambda>e. DeleteEntry (de_ClusterKey e)) [sample_entry]"
    "\<exists>err obj. dns_RemoveFinalizer (ev_api sample_env) (ev_strings sample_env) sample_reconciler (lb_object sample_lb) w1 =
       (err, obj, w') \<and> status = DelayOnError err"
    using dns_deletes_entries_first [OF found, of sample_reconciler init_world] gone by blast
  have "dns_RemoveFinalizer (ev_api sample_env) (ev_strings sample_env) sample_reconciler (lb_object sample_lb) w1 =
      (None, lb_object sample_lb, w1)"
    by (rule no_finalizer_to_remove) (simp add: lb_object_def)
  with run show ?thesis by (auto simp: DelayOnError_def)
qed

section \<open>The owner of an entry in another cluster\<close>

text \<open>What the server makes of an object it creates.\<close>

definition entry_created :: "DNSEntry \<Rightarrow> DNSEntry \<Rightarrow> bool" where
  "entry_created e x \<longleftrightarrow>
     (\<exists>n u v t. x = e\<lparr>de_meta := (de_meta e)\<lparr>m_name := n, m_uid := u, m_resourceVersion := v, m_creationTimestamp := t\<rparr>\<rparr>)"

lemma GetOwners_of_created:
  "GetOwners_of (m\<lparr>m_name := n, m_uid := u, m_resourceVersion := v, m_creationTimestamp := t\<rparr>) kinds = GetOwners_of m kinds"
  by (simp add: GetOwners_of_def reference_owner_def [abs_def] GetAnnotatedOwners_def)

lemma no_annotations_no_owners:
  "m_annotations m = Map.empty \<Longrightarrow> m_ownerReferences m = [] \<Longrightarrow> GetOwners_of m [] = []"
  by (simp add: GetOwners_of_def GetAnnotatedOwners_def FilterKeysByGroupKinds_def Add_def)

lemma entry_modifier_annotated:
  assumes "sc_targetclass this = ''''" and "m_annotations (de_meta e) \<noteq> Map.empty"
  shows "snd (entry_modifier env this info e)"
    and "m_annotations (de_meta (fst (entry_modifier env this info e))) = Map.empty"
  using assms
  by (simp_all add: entry_modifier_def Let_def case_prod_unfold AssureStringSet_def AssureInt64PtrPtr_def split: option.split)

text \<open>An entry that has its owner by an annotation only: created so in another cluster, and what an update makes of it.\<close>

definition annotated_entry :: "DNSLoadBalancer \<Rightarrow> DNSEntry \<Rightarrow> bool" where
  "annotated_entry lb x \<longleftrightarrow>
     lb_ClusterKey lb \<in> set (GetOwners_of (de_meta x) []) \<and> m_ownerReferences (de_meta x) = [] \<and>
     m_annotations (de_meta x) \<noteq> Map.empty"

lemma foreign_owner_is_annotated:
  assumes "readable_key (lb_ClusterKey lb)" and "listable (AsRefFor (lb_ClusterKey lb) (m_cluster m))"
    and "m_cluster (lb_meta lb) \<noteq> m_cluster m" and "m_ownerReferences m = []"
    and "entry_created (e\<lparr>de_meta := fst (AddOwner Version m (m_cluster m) (lb_object lb))\<rparr>) x"
  shows "annotated_entry lb x"
proof -
  obtain m' b where m': "AddOwner Version m (m_cluster m) (lb_object lb) = (m', b)" by (meson surj_pair)
  have foreign: "\<not> (m_namespace (s_meta (lb_object lb)) = m_namespace m \<and> m_cluster (s_meta (lb_object lb)) = m_cluster m)"
    using assms(3) by (simp add: lb_object_def)
  have "set (GetOwners_of m' []) = insert (lb_ClusterKey lb) (set (GetOwners_of m []))"
    using AddOwner_foreign [OF _ _ foreign m'] assms(1,2) by simp
  then have owner: "lb_ClusterKey lb \<in> set (GetOwners_of m' [])" by simp
  have "ck_cluster (lb_ClusterKey lb) \<noteq> m_cluster m"
    using assms(3) by (simp add: lb_ClusterKey_def meta_ClusterKey_def)
  then have refs: "m_ownerReferences m' = []"
    using m' assms(4) by (auto simp: AddOwner_def SetAnnotation_def Let_def split: if_splits)
  with owner have "m_annotations m' \<noteq> Map.empty" using no_annotations_no_owners [of m'] by auto
  with owner refs assms(5) show ?thesis
    by (auto simp: annotated_entry_def entry_created_def m' GetOwners_of_created)
qed

lemma update_drops_owner:
  assumes "annotated_entry lb x" and "sc_targetclass this = ''''" and "\<And>tr e. \<exists>z. api_updateEntry (ev_api env) tr e = Inr z"
  shows "\<exists>y r3. updateEntry env this info x r2 = ((True, None), r3) \<and>
    w_trace (rn_world r3) = w_trace (rn_world r2) @ [UpdateEntry y] \<and>
    entry_name y = entry_name x \<and> GetOwners_of (de_meta y) [] = []"
proof -
  have "m_annotations (de_meta x) \<noteq> Map.empty" using assms(1) by (simp add: annotated_entry_def)
  note mod = entry_modifier_annotated [OF assms(2) this, of env info]
  obtain y where y: "entry_modifier env this info x = (y, True)" using mod(1) by (cases "entry_modifier env this info x") auto
  obtain z where z: "api_updateEntry (ev_api env) (w_trace (rn_world r2)) y = Inr z" using assms(3) by blast
  have upd: "Modify (de_update (ev_api env)) (de_get (ev_api env)) (entry_modifier env this info) x (rn_world r2) =
      (True, None, z, emit (UpdateEntry y) (rn_world r2))"
    by (rule de_store.Modify_accepted [of "entry_modifier env this info" x y, OF y]) (simp add: de_update_def z)
  have "m_ownerReferences (de_meta x) = []" using assms(1) by (simp add: annotated_entry_def)
  then have "GetOwners_of (de_meta y) [] = []"
    using mod(2) entry_modifier_sel(3) [of env this info x] y by (intro no_annotations_no_owners) simp_all
  moreover have "entry_name y = entry_name x" using entry_modifier_sel(1) [of env this info x] by (simp add: y)
  ultimately show ?thesis using upd by (simp add: updateEntry_def)
qed

lemma ownerless_is_not_found:
  "GetOwners_of (de_meta y) [] = [] \<Longrightarrow> setupEntryCache [y] = Ok NewEntryCache \<and> GetByKey rng NewEntryCache key = Ok []"
  by (simp add: setupEntryCache_def Setup_def NewEntryCache_def NewSubObjectCache_def GetByKey_def)



section \<open>Updates of entries settle\<close>

lemma AssureStringSet_cases:
  "AssureStringSet rng md old value = (if set value = set old then (old, md) else (rng value, True))"
  by (auto simp: AssureStringSet_def Equals_def NewStringSet_def list_all_iff)

lemma AssureInt64PtrPtr_eq: "AssureInt64PtrPtr md old ptr = (ptr, md \<or> old \<noteq> ptr)"
  by (cases old; cases ptr) (auto simp: AssureInt64PtrPtr_def)

text \<open>What an entry has to look like, as far as the reconciler decides; the order of the same targets is left.\<close>

definition wanted_entry :: "dns_env \<Rightarrow> sourceReconciler \<Rightarrow> DNSInfo \<Rightarrow> DNSEntry \<Rightarrow> DNSEntry" where
  "wanted_entry env this info e =
     e\<lparr>de_meta := (de_meta e)\<lparr>m_annotations :=
          (if sc_targetclass this \<noteq> '''' then [CLASS_ANNOTATION \<mapsto> sc_targetclass this] else Map.empty)\<rparr>,
       de_spec := (de_spec e)\<lparr>des_TTL := di_TTL info, des_CNameLookupInterval := di_Interval info,
          des_Targets := (if set (di_Targets info) = set (des_Targets (de_spec e)) then des_Targets (de_spec e)
                          else ev_strings env (di_Targets info))\<rparr>\<rparr>"

lemma entry_modifier_eq:
  assumes "keeps_elements env"
  shows "entry_modifier env this info e = (wanted_entry env this info e, wanted_entry env this info e \<noteq> e)"
proof -
  have differ: "ev_strings env (di_Targets info) \<noteq> ts" if "set (di_Targets info) \<noteq> set ts" for ts
    using that keeps_elements_set [OF assms, of "di_Targets info"] by metis
  obtain m sp st where e: "e = \<lparr>de_meta = m, de_spec = sp, de_status = st\<rparr>" by (cases e)
  show ?thesis
    unfolding e using differ
    by (cases m; cases sp)
      (auto simp: entry_modifier_def wanted_entry_def AssureInt64PtrPtr_eq AssureStringSet_cases Let_def
        map_upd_nonempty [symmetric])
qed

lemma wanted_entry_idem:
  "keeps_elements env \<Longrightarrow> wanted_entry env this info (wanted_entry env this info e) = wanted_entry env this info e"
  by (simp add: wanted_entry_def keeps_elements_set)



end
