(* ===== verification/Crds.thy ===== *)
theory Crds
  imports Api
begin

text \<open>
  The custom resource definitions (\<open>pkg/crds/crds.go\<close>, \<open>resources/apiextensions/crds.go\<close> of the controller
  library), and their creation in a cluster.
\<close>

section \<open>Definitions of custom resources\<close>

record CustomResourceColumnDefinition =
  ccd_Name :: string
  ccd_Type :: string
  ccd_Description :: string
  ccd_JSONPath :: string

datatype ResourceScope = ClusterScoped | NamespaceScoped

text \<open>The fields the code sets; \<open>crd_Status\<close> says that there is a status subresource.\<close>

record CustomResourceDefinition =
  crd_Name :: string
  crd_Group :: string
  crd_Version :: string
  crd_Scope :: ResourceScope
  crd_Plural :: string
  crd_Kind :: string
  crd_ShortNames :: "string list"
  crd_Status :: bool
  crd_AdditionalPrinterColumns :: "CustomResourceColumnDefinition list"

definition create_crd_object ::
  "bool \<Rightarrow> string \<Rightarrow> string \<Rightarrow> string \<Rightarrow> string \<Rightarrow> string \<Rightarrow> bool \<Rightarrow> CustomResourceColumnDefinition list \<Rightarrow>
   CustomResourceDefinition" where
  "create_crd_object status groupName version rkind rplural shortName namespaces columns =
     \<lparr>crd_Name = rplural @ ''.'' @ groupName, crd_Group = groupName, crd_Version = version,
      crd_Scope = (if namespaces then NamespaceScoped else ClusterScoped), crd_Plural = rplural, crd_Kind = rkind,
      crd_ShortNames = (if shortName = '''' then [] else [shortName]), crd_Status = status,
      crd_AdditionalPrinterColumns = columns @
        [\<lparr>ccd_Name = ''AGE'', ccd_Type = ''date'', ccd_Description = '''', ccd_JSONPath = ''.metadata.creationTimestamp''\<rparr>]\<rparr>"

definition CreateCRDObject where
  "CreateCRDObject = create_crd_object False"

definition CreateCRDObjectWithStatus where
  "CreateCRDObjectWithStatus = create_crd_object True"

definition LoadBalancerResourcePlural :: string where
  "LoadBalancerResourcePlural = ''dnsloadbalancers''"

definition LoadBalancerEndpointResourcePlural :: string where
  "LoadBalancerEndpointResourcePlural = ''dnsloadbalancerendpoints''"

definition LoadBalancerCRDName :: string where
  "LoadBalancerCRDName = LoadBalancerResourcePlural @ ''.'' @ GroupName"

definition LoadBalancerEndpointCRDName :: string where
  "LoadBalancerEndpointCRDName = LoadBalancerEndpointResourcePlural @ ''.'' @ GroupName"

abbreviation column :: "string \<Rightarrow> string \<Rightarrow> string \<Rightarrow> string \<Rightarrow> CustomResourceColumnDefinition" where
  "column n d t p \<equiv> \<lparr>ccd_Name = n, ccd_Type = t, ccd_Description = d, ccd_JSONPath = p\<rparr>"

definition DNSLBCRD :: CustomResourceDefinition where
  "DNSLBCRD =
     CreateCRDObject GroupName ''v1beta1'' LoadBalancerResourceKind LoadBalancerResourcePlural ''dnlb'' True
       [column ''DNSNAME'' ''DNS Name of loadbalancer'' ''string'' ''.spec.dnsname'',
        column ''TYPE'' ''Type of loadbalancer'' ''string'' ''.spec.type'',
        column ''STATUS'' ''loadbalancer state'' ''string'' ''.status.state'']"

definition DNSLBEPCRD :: CustomResourceDefinition where
  "DNSLBEPCRD =
     CreateCRDObject GroupName ''v1beta1'' LoadBalancerEndpointResourceKind LoadBalancerEndpointResourcePlural ''dnslbep'' True
       [column ''DNSLB'' ''Loadbalancer'' ''string'' ''.spec.loadbalancer'',
        column ''HEALTHY'' ''Health status of endpoint'' ''boolean'' ''.status.healthy'',
        column ''STATUS'' ''Assigned to Loadbalancer'' ''string'' ''.status.state'']"

section \<open>Creation\<close>

text \<open>
  A condition of the status of a definition, as far as the code looks. The poll reads the definition every
  five seconds for a minute: \<open>answers\<close> are what the reads give, the last one before the time is over.
\<close>

datatype crd_condition = Established bool | NamesAccepted bool string | OtherCondition

text \<open>The loop over the conditions: ready, an error, or \<open>None\<close> to look again.\<close>

fun check_conditions :: "crd_condition list \<Rightarrow> go_error option option" where
  "check_conditions [] = None"
| "check_conditions (Established True # conds) = Some None"
| "check_conditions (NamesAccepted False reason # conds) = Some (Some (OtherError (''Name conflict: '' @ reason)))"
| "check_conditions (cond # conds) = check_conditions conds"

fun poll_ready :: "(go_error + crd_condition list) list \<Rightarrow> go_error option" where
  "poll_ready [] = Some (OtherError ''timed out waiting for the condition'')"
| "poll_ready (Inl err # answers) = Some err"
| "poll_ready (Inr conds # answers) = (case check_conditions conds of Some r \<Rightarrow> r | None \<Rightarrow> poll_ready answers)"

definition WaitCRDReady :: "(go_error + crd_condition list) list \<Rightarrow> go_error option" where
  "WaitCRDReady answers =
     (case poll_ready answers of
        None \<Rightarrow> None
      | Some err \<Rightarrow> Some (OtherError (''wait CRD created failed: '' @ Error err)))"

text \<open>What the API server of a cluster does: the outcome of the creation, where an existing definition is told apart.\<close>

datatype create_answer = Created | AlreadyExists | CreateFailed go_error

record crd_server =
  cs_create :: "CustomResourceDefinition \<Rightarrow> create_answer"
  cs_reads :: "string \<Rightarrow> (go_error + crd_condition list) list"

definition CreateCRDFromObject :: "crd_server \<Rightarrow> CustomResourceDefinition \<Rightarrow> go_error option" where
  "CreateCRDFromObject cluster crd =
     (case cs_create cluster crd of
        CreateFailed err \<Rightarrow> Some (OtherError (''failed to create CRD '' @ crd_Name crd @ '': '' @ Error err))
      | _ \<Rightarrow> WaitCRDReady (cs_reads cluster (crd_Name crd)))"

lemma check_conditions_established:
  "check_conditions conds = Some None \<Longrightarrow> Established True \<in> set conds"
  "check_conditions conds = None \<Longrightarrow> Established True \<notin> set conds"
  by (induction conds rule: check_conditions.induct) auto

text \<open>When the creation reports no error, the definition was established at the last read.\<close>

lemma created_is_ready:
  assumes "CreateCRDFromObject cluster crd = None"
  shows "\<exists>xs conds ys. cs_reads cluster (crd_Name crd) = xs @ Inr conds # ys \<and> Established True \<in> set conds \<and>
    (\<forall>x\<in>set xs. \<exists>c. x = Inr c \<and> Established True \<notin> set c)"
proof -
  have "\<exists>xs conds ys. answers = xs @ Inr conds # ys \<and> Established True \<in> set conds \<and>
      (\<forall>x\<in>set xs. \<exists>c. x = Inr c \<and> Established True \<notin> set c)" if "poll_ready answers = None" for answers
    using that
  proof (induction answers rule: poll_ready.induct)
    case (3 conds answers)
    show ?case
    proof (cases "check_conditions conds")
      case None
      with 3 obtain xs c ys where "answers = xs @ Inr c # ys" "Established True \<in> set c"
        "\<forall>x\<in>set xs. \<exists>c. x = Inr c \<and> Established True \<notin> set c" by auto
      with check_conditions_established(2) [OF None]
      have "Inr conds # answers = (Inr conds # xs) @ Inr c # ys \<and> Established True \<in> set c \<and>
          (\<forall>x\<in>set (Inr conds # xs). \<exists>c. x = Inr c \<and> Established True \<notin> set c)" by auto
      then show ?thesis by blast
    next
      case (Some r)
      with 3 have "Established True \<in> set conds" by (auto simp: check_conditions_established)
      then have "Inr conds # answers = [] @ Inr conds # answers \<and> Established True \<in> set conds \<and>
          (\<forall>x\<in>set []. \<exists>c. x = Inr c \<and> Established True \<notin> set c)" by simp
      then show ?thesis by blast
    qed
  qed simp_all
  with assms show ?thesis by (auto simp: CreateCRDFromObject_def WaitCRDReady_def split: create_answer.splits option.splits)
qed

end
