(* ===== verification/Resource.thy ===== *)
theory Resource
  imports Objects
begin

text \<open>
  The objects of the clusters, as the controller library hands them to the controllers: a wrapper
  (\<open>resources.Object\<close>) whose data has one of several types. The accessors of
  \<open>pkg/dnslb/utils/ep.go\<close> and \<open>pkg/dnslb/utils/lb.go\<close> take the data out by a type assertion, which
  panics for data of another type; the functions that make a wrapper check the type first and answer
  nil.
\<close>

section \<open>Objects\<close>

datatype Object = OSource SourceObject | OLoadBalancer DNSLoadBalancer | OEndpoint DNSLoadBalancerEndpoint

fun o_meta :: "Object \<Rightarrow> ObjectMeta" where
  "o_meta (OSource s) = s_meta s"
| "o_meta (OLoadBalancer lb) = lb_meta lb"
| "o_meta (OEndpoint ep) = ep_meta ep"

fun o_ClusterKey :: "Object \<Rightarrow> ClusterObjectKey" where
  "o_ClusterKey (OSource s) = s_ClusterKey s"
| "o_ClusterKey (OLoadBalancer lb) = lb_ClusterKey lb"
| "o_ClusterKey (OEndpoint ep) = ep_ClusterKey ep"

abbreviation o_GroupKind :: "Object \<Rightarrow> GroupKind" where
  "o_GroupKind x \<equiv> ck_groupKind (o_ClusterKey x)"

section \<open>Wrappers\<close>

fun DNSLoadBalancerEndpoint_data :: "Object \<Rightarrow> DNSLoadBalancerEndpoint outcome" where
  "DNSLoadBalancerEndpoint_data (OEndpoint ep) = Ok ep"
| "DNSLoadBalancerEndpoint_data _ = Panic"

fun IsA_endpoint :: "Object \<Rightarrow> bool" where
  "IsA_endpoint (OEndpoint _) = True"
| "IsA_endpoint _ = False"

definition DNSLoadBalancerEndpoint_of :: "Object \<Rightarrow> Object option" where
  "DNSLoadBalancerEndpoint_of x = (if IsA_endpoint x then Some x else None)"

definition ep_Spec :: "Object \<Rightarrow> DNSLoadBalancerEndpointSpec outcome" where
  "ep_Spec x = bind_outcome (DNSLoadBalancerEndpoint_data x) (\<lambda>e. Ok (ep_spec e))"

definition ep_Status :: "Object \<Rightarrow> DNSLoadBalancerEndpointStatus outcome" where
  "ep_Status x = bind_outcome (DNSLoadBalancerEndpoint_data x) (\<lambda>e. Ok (ep_status e))"

definition GetCName :: "Object \<Rightarrow> string outcome" where
  "GetCName x = bind_outcome (DNSLoadBalancerEndpoint_data x) (\<lambda>e. Ok (CName (ep_spec e)))"

definition GetIPAddress :: "Object \<Rightarrow> string outcome" where
  "GetIPAddress x = bind_outcome (DNSLoadBalancerEndpoint_data x) (\<lambda>e. Ok (IPAddress (ep_spec e)))"

fun DNSLoadBalancer_data :: "Object \<Rightarrow> DNSLoadBalancer outcome" where
  "DNSLoadBalancer_data (OLoadBalancer lb) = Ok lb"
| "DNSLoadBalancer_data _ = Panic"

fun IsA_loadbalancer :: "Object \<Rightarrow> bool" where
  "IsA_loadbalancer (OLoadBalancer _) = True"
| "IsA_loadbalancer _ = False"

definition DNSLoadBalancer_of :: "Object \<Rightarrow> Object option" where
  "DNSLoadBalancer_of x = (if IsA_loadbalancer x then Some x else None)"

definition lb_Spec :: "Object \<Rightarrow> DNSLoadBalancerSpec outcome" where
  "lb_Spec x = bind_outcome (DNSLoadBalancer_data x) (\<lambda>lb. Ok (lb_spec lb))"

definition lb_Status :: "Object \<Rightarrow> DNSLoadBalancerStatus outcome" where
  "lb_Status x = bind_outcome (DNSLoadBalancer_data x) (\<lambda>lb. Ok (lb_status lb))"

definition GetDNSName :: "Object \<Rightarrow> string outcome" where
  "GetDNSName x = bind_outcome (DNSLoadBalancer_data x) (\<lambda>lb. Ok (DNSName (lb_spec lb)))"

text \<open>The accessors of a wrapper that was made with the check never panic.\<close>

lemma IsA_endpointE: "IsA_endpoint x \<Longrightarrow> (\<And>ep. x = OEndpoint ep \<Longrightarrow> P) \<Longrightarrow> P"
  by (cases x) simp_all

lemma IsA_loadbalancerE: "IsA_loadbalancer x \<Longrightarrow> (\<And>lb. x = OLoadBalancer lb \<Longrightarrow> P) \<Longrightarrow> P"
  by (cases x) simp_all

lemma wrapped_endpoint:
  assumes "DNSLoadBalancerEndpoint_of x = Some y"
  shows "\<exists>ep. y = OEndpoint ep \<and> DNSLoadBalancerEndpoint_data y = Ok ep \<and> ep_Spec y = Ok (ep_spec ep) \<and>
    ep_Status y = Ok (ep_status ep) \<and> GetCName y = Ok (CName (ep_spec ep)) \<and> GetIPAddress y = Ok (IPAddress (ep_spec ep))"
  using assms
  by (auto simp: DNSLoadBalancerEndpoint_of_def ep_Spec_def ep_Status_def GetCName_def GetIPAddress_def
      elim!: IsA_endpointE split: if_splits)

lemma wrapped_loadbalancer:
  assumes "DNSLoadBalancer_of x = Some y"
  shows "\<exists>lb. y = OLoadBalancer lb \<and> DNSLoadBalancer_data y = Ok lb \<and> lb_Spec y = Ok (lb_spec lb) \<and>
    lb_Status y = Ok (lb_status lb) \<and> GetDNSName y = Ok (DNSName (lb_spec lb))"
  using assms
  by (auto simp: DNSLoadBalancer_of_def lb_Spec_def lb_Status_def GetDNSName_def
      elim!: IsA_loadbalancerE split: if_splits)

end
