(* ===== verification/Clusters.thy ===== *)
theory Clusters
  imports Resource
begin

text \<open>
  Clusters (\<open>controllermanager/cluster\<close> and \<open>controller/mappings\<close> of the controller manager library, and
  \<open>cmd/dnslb-controller-manager/main.go\<close>). Packages register logical clusters when the program starts,
  with a fallback; the options of the program decide which of them exist. A controller speaks of logical
  clusters, too, and a mapping leads to the registered ones. Connecting to a cluster is a parameter.
\<close>

section \<open>Clusters\<close>

text \<open>\<open>cl_cached\<close> is the informer cache of a cluster.\<close>

record cluster =
  cl_name :: string
  cl_id :: string
  cl_cached :: "ObjectKey \<Rightarrow> go_error + Object"

record Clusters =
  cls_mapped :: "string \<rightharpoonup> StringSet"
  cls_clusters :: "(string \<times> cluster) list"
  cls_effective :: "string \<rightharpoonup> cluster"
  cls_byid :: "string \<rightharpoonup> cluster"

definition NewClusters :: Clusters where
  "NewClusters =
     \<lparr>cls_mapped = Map.empty, cls_clusters = [], cls_effective = Map.empty, cls_byid = Map.empty\<rparr>"

definition Clusters_Add :: "string \<Rightarrow> cluster \<Rightarrow> Clusters \<Rightarrow> Clusters" where
  "Clusters_Add name c this =
     \<lparr>cls_mapped = (cls_mapped this)(cl_name c \<mapsto> keyset_add name
        (case cls_mapped this (cl_name c) of None \<Rightarrow> [] | Some s \<Rightarrow> s)),
      cls_clusters = AList.update name c (cls_clusters this),
      cls_effective = (cls_effective this)(cl_name c \<mapsto> c),
      cls_byid = (cls_byid this)(cl_id c \<mapsto> c)\<rparr>"

definition GetEffective :: "Clusters \<Rightarrow> string \<Rightarrow> cluster option" where
  "GetEffective this name = cls_effective this name"

definition GetCluster :: "Clusters \<Rightarrow> string \<Rightarrow> cluster option" where
  "GetCluster this name = map_of (cls_clusters this) name"

definition GetById :: "Clusters \<Rightarrow> string \<Rightarrow> cluster option" where
  "GetById this cid = cls_byid this cid"

definition GetAliases :: "Clusters \<Rightarrow> string \<Rightarrow> StringSet option" where
  "GetAliases this name = cls_mapped this name"

definition DEFAULT_CLUSTER :: string where
  "DEFAULT_CLUSTER = ''default''"

text \<open>The canonical form of a list of names; \<open>None\<close> is nil.\<close>

definition Canonical :: "string list option \<Rightarrow> string list" where
  "Canonical names = (case names of None \<Rightarrow> [DEFAULT_CLUSTER] | Some ns \<Rightarrow> foldl (\<lambda>r n. keyset_add n r) [] ns)"

section \<open>Mappings of cluster names\<close>

definition CLUSTER_MAIN :: string where
  "CLUSTER_MAIN = ''<MAIN>''"

type_synonym mapping = "string \<rightharpoonup> string"

definition mapping_MapCluster :: "mapping \<Rightarrow> string \<Rightarrow> string" where
  "mapping_MapCluster this name =
     (case this name of None \<Rightarrow> name | Some t \<Rightarrow> if t \<noteq> '''' then t else name)"

text \<open>Several mappings in a row: the last one that changes the name counts.\<close>

definition aggregation_MapCluster :: "mapping list \<Rightarrow> string \<Rightarrow> string" where
  "aggregation_MapCluster this name =
     foldl (\<lambda>mapped d. let m = mapping_MapCluster d name in if m \<noteq> name then m else mapped) name this"

definition MapCluster :: "bool \<Rightarrow> string \<Rightarrow> mapping list \<Rightarrow> string" where
  "MapCluster main name cmp =
     (if main
      then (let m = aggregation_MapCluster cmp CLUSTER_MAIN
            in if m \<noteq> CLUSTER_MAIN then m else aggregation_MapCluster cmp name)
      else aggregation_MapCluster cmp name)"

text \<open>
  The clusters of a controller: the first name becomes the main cluster, and a name without a cluster
  falls back to the main one. The error names the cluster as \<open>MapInfo\<close> does.
\<close>

definition MapInfo :: "mapping list \<Rightarrow> string \<Rightarrow> string" where
  "MapInfo cmp name =
     (let mapped = aggregation_MapCluster cmp name
      in if mapped \<noteq> name then quoted name @ '' (mapped to '' @ quoted mapped @ '')'' else name)"

fun map_step ::
  "Clusters \<Rightarrow> mapping list \<Rightarrow> Clusters \<times> cluster option \<Rightarrow> string \<Rightarrow> go_error + (Clusters \<times> cluster option)" where
  "map_step clusters cmp (mapped, None) name =
     (case GetCluster clusters (MapCluster True name cmp) of
        None \<Rightarrow> Inl (OtherError (''cluster '' @ MapInfo cmp name @ '' not found''))
      | Some c \<Rightarrow> Inr (Clusters_Add name c (Clusters_Add CLUSTER_MAIN c mapped), Some c))"
| "map_step clusters cmp (mapped, Some main_cluster) name =
     (let c = (case GetCluster clusters (MapCluster False name cmp) of None \<Rightarrow> main_cluster | Some c \<Rightarrow> c)
      in Inr (Clusters_Add name c mapped, Some main_cluster))"

fun map_names ::
  "Clusters \<Rightarrow> mapping list \<Rightarrow> Clusters \<times> cluster option \<Rightarrow> string list \<Rightarrow> go_error + Clusters" where
  "map_names clusters cmp s [] = Inr (fst s)"
| "map_names clusters cmp s (name # names) =
     (case map_step clusters cmp s name of Inl err \<Rightarrow> Inl err | Inr s' \<Rightarrow> map_names clusters cmp s' names)"

definition MapClusters :: "Clusters \<Rightarrow> mapping list \<Rightarrow> string list \<Rightarrow> go_error + Clusters" where
  "MapClusters clusters cmp names = map_names clusters cmp (NewClusters, None) names"

section \<open>Registration of clusters\<close>

record ClusterDef =
  cd_name :: string
  cd_fallback :: string
  cd_option :: string
  cd_description :: string

type_synonym cluster_registry = "(string \<times> ClusterDef) list"

definition ConfigureCluster :: "string \<Rightarrow> string \<Rightarrow> string \<Rightarrow> ClusterDef" where
  "ConfigureCluster name opt short =
     \<lparr>cd_name = name, cd_fallback = '''', cd_option = opt, cd_description = short\<rparr>"

definition Fallback :: "string \<Rightarrow> ClusterDef \<Rightarrow> ClusterDef" where
  "Fallback name this = this\<lparr>cd_fallback := name\<rparr>"

definition FillStringValue :: "string \<Rightarrow> string \<Rightarrow> string \<Rightarrow> go_error + string" where
  "FillStringValue msg old v =
     (if old \<noteq> '''' \<and> v \<noteq> '''' \<and> old \<noteq> v then Inl (OtherError (msg @ '': value mismatch''))
      else Inr (if v \<noteq> '''' then v else old))"

text \<open>
  A second registration of a name may only fill in what the first one left open; its fallback is
  ignored. The message lacks the argument of its verb.
\<close>

definition RegisterCluster :: "ClusterDef \<Rightarrow> cluster_registry \<Rightarrow> go_error option \<times> cluster_registry" where
  "RegisterCluster def reg =
     (case map_of reg (cd_name def) of
        None \<Rightarrow> (None, AList.update (cd_name def) def reg)
      | Some old \<Rightarrow>
          let msg = ''cluster request for %!q(MISSING)''
          in (case FillStringValue msg (cd_option old) (cd_option def) of
                Inl err \<Rightarrow> (Some err, reg)
              | Inr opt \<Rightarrow>
                  (case FillStringValue msg (cd_description old) (cd_description def) of
                     Inl err \<Rightarrow> (Some err, reg)
                   | Inr desc \<Rightarrow>
                       (None, AList.update (cd_name old) (old\<lparr>cd_option := opt, cd_description := desc\<rparr>) reg))))"

definition NewClusterRegistry :: cluster_registry where
  "NewClusterRegistry =
     snd (RegisterCluster (ConfigureCluster DEFAULT_CLUSTER ''kubeconfig'' ''default cluster access'') [])"

text \<open>
  What the packages register: the endpoint controller panics when it fails, the DNS source controller
  and the main program ignore that.
\<close>

definition endpoint_registers :: "cluster_registry \<Rightarrow> cluster_registry outcome" where
  "endpoint_registers reg =
     (case RegisterCluster (ConfigureCluster ''target'' ''target'' ''target cluster for endpoints'') reg of
        (None, reg) \<Rightarrow> Ok reg
      | (Some _, _) \<Rightarrow> Panic)"

definition source_registers :: "cluster_registry \<Rightarrow> cluster_registry outcome" where
  "source_registers reg =
     Ok (snd (RegisterCluster (ConfigureCluster ''target'' ''target'' ''target cluster for dns requests'') reg))"

definition main_registers :: "cluster_registry \<Rightarrow> cluster_registry outcome" where
  "main_registers reg =
     Ok (snd (RegisterCluster
       (Fallback ''target'' (ConfigureCluster ''dnstarget'' ''dnstarget'' ''target cluster for dns entries'')) reg))"

text \<open>The mapping the main program registers for the DNS controller.\<close>

definition main_mapping :: "string \<Rightarrow> mapping list" where
  "main_mapping controller =
     (if controller = ''dnslb-loadbalancer''
      then [Map.empty(DEFAULT_CLUSTER \<mapsto> ''target'', ''target'' \<mapsto> ''dnstarget'')] else [])"

section \<open>Creation of clusters\<close>

text \<open>
  The environment: the value of an option, the ids that were set, and the connection to a cluster, from
  its definition, its id and its kubeconfig.
\<close>

record cluster_env =
  ce_option :: "string \<Rightarrow> string option"
  ce_id :: "string \<Rightarrow> string option"
  ce_make :: "ClusterDef \<Rightarrow> string \<Rightarrow> string \<Rightarrow> go_error + cluster"

definition option_value :: "cluster_env \<Rightarrow> ClusterDef \<Rightarrow> string" where
  "option_value env req = (case ce_option env (cd_option req) of None \<Rightarrow> '''' | Some v \<Rightarrow> v)"

definition create_cluster :: "cluster_env \<Rightarrow> ClusterDef \<Rightarrow> string \<Rightarrow> go_error + cluster" where
  "create_cluster env req opt =
     ce_make env req (case ce_id env (cd_option req @ ''.id'') of None \<Rightarrow> '''' | Some i \<Rightarrow> i) opt"

text \<open>
  One cluster: it is created when it is configured, falls back to the default cluster, which is created
  when it is needed, or to another cluster, when that was found already. \<open>None\<close> is a cluster that is
  missing still. The default cluster is always registered (\<open>default_registered\<close>); without it the code would
  dereference nil.
\<close>

definition pick_cluster ::
  "cluster_env \<Rightarrow> cluster_registry \<Rightarrow> Clusters \<Rightarrow> string \<Rightarrow> go_error + cluster option" where
  "pick_cluster env defs found name =
     (case map_of defs name of
        None \<Rightarrow> Inl (OtherError (''no definition for cluster '' @ name))
      | Some req \<Rightarrow>
          if name \<noteq> DEFAULT_CLUSTER \<and> option_value env req \<noteq> ''''
          then map_sum id Some (create_cluster env req (option_value env req))
          else if cd_fallback req = '''' \<or> cd_fallback req = DEFAULT_CLUSTER
          then (case cls_effective found DEFAULT_CLUSTER of
                  Some c \<Rightarrow> Inr (Some c)
                | None \<Rightarrow>
                    (case map_of defs DEFAULT_CLUSTER of
                       None \<Rightarrow> Inl (OtherError ''no definition for cluster default'')
                     | Some def \<Rightarrow> map_sum id Some (create_cluster env def (option_value env def))))
          else Inr (GetCluster found (cd_fallback req)))"

definition handleCluster ::
  "cluster_env \<Rightarrow> cluster_registry \<Rightarrow> Clusters \<times> string list \<Rightarrow> string \<Rightarrow> go_error + (Clusters \<times> string list)" where
  "handleCluster env defs = (\<lambda>(found, missing) name.
     case pick_cluster env defs found name of
       Inl err \<Rightarrow> Inl err
     | Inr (Some c) \<Rightarrow> Inr (Clusters_Add name c found, missing)
     | Inr None \<Rightarrow> Inr (found, keyset_add name missing))"

fun create_pass ::
  "cluster_env \<Rightarrow> cluster_registry \<Rightarrow> Clusters \<times> string list \<Rightarrow> string list \<Rightarrow> go_error + (Clusters \<times> string list)" where
  "create_pass env defs s [] = Inr s"
| "create_pass env defs s (name # names) =
     (if GetCluster (fst s) name = None
      then (case handleCluster env defs s name of Inl err \<Rightarrow> Inl err | Inr s' \<Rightarrow> create_pass env defs s' names)
      else create_pass env defs s names)"

text \<open>
  The clusters a program needs are created in passes, as long as something is missing and the last pass
  found something. The order in which a pass visits the names is a parameter. The loop may be entered
  with any names, so that it ends is a theorem.
\<close>

partial_function (option) create_loop ::
  "cluster_env \<Rightarrow> cluster_registry \<Rightarrow> (string list \<Rightarrow> string list) \<Rightarrow> Clusters \<Rightarrow> string list \<Rightarrow> nat option \<Rightarrow>
   (go_error + Clusters) option" where
  "create_loop env defs rng clusters missing lastFound =
     (if missing \<noteq> [] \<and> lastFound \<noteq> Some (length (cls_clusters clusters))
      then (case create_pass env defs (clusters, []) (rng missing) of
              Inl err \<Rightarrow> Some (Inl err)
            | Inr (found, missing') \<Rightarrow> create_loop env defs rng found missing' (Some (length (cls_clusters clusters))))
      else if missing \<noteq> [] then Some (Inl (OtherError (''unresolved cluster fallbacks '' @ StringSet_String missing)))
      else Some (Inr clusters))"

declare create_loop.simps [code]

definition CreateClusters ::
  "cluster_env \<Rightarrow> cluster_registry \<Rightarrow> (string list \<Rightarrow> string list) \<Rightarrow> string list \<Rightarrow> (go_error + Clusters) option" where
  "CreateClusters env defs rng names = create_loop env defs rng NewClusters names None"

section \<open>Creation ends and resolves the fallbacks\<close>

lemma GetCluster_Add [simp]:
  "GetCluster (Clusters_Add name c cls) n = (if n = name then Some c else GetCluster cls n)"
  by (simp add: GetCluster_def Clusters_Add_def update_conv')

lemma length_update: "k \<notin> fst ` set al \<Longrightarrow> length (AList.update k v al) = Suc (length al)"
  by (induction al) auto

lemma length_Add:
  "GetCluster cls name = None \<Longrightarrow> length (cls_clusters (Clusters_Add name c cls)) = Suc (length (cls_clusters cls))"
  by (simp add: GetCluster_def Clusters_Add_def map_of_eq_None_iff length_update)

lemma length_keyset_add: "length (keyset_add x xs) \<le> Suc (length xs)"
  by (simp add: keyset_add_def)

text \<open>A pass finds or misses every name it visits.\<close>

lemma create_pass_length:
  assumes "create_pass env defs (found, missing) names = Inr (found', missing')"
  shows "length (cls_clusters found) \<le> length (cls_clusters found') \<and>
    length missing' + length (cls_clusters found') \<le> length missing + length names + length (cls_clusters found)"
  using assms
proof (induction names arbitrary: found missing)
  case (Cons name names)
  show ?case
  proof (cases "GetCluster found name = None")
    case True
    with Cons.prems obtain s where s: "handleCluster env defs (found, missing) name = Inr s"
      "create_pass env defs s names = Inr (found', missing')"
      by (auto split: sum.splits)
    obtain f m where fm: "s = (f, m)" by (cases s)
    have "length (cls_clusters found) \<le> length (cls_clusters f) \<and>
        length m + length (cls_clusters f) \<le> Suc (length missing + length (cls_clusters found))"
      using s(1) fm True length_keyset_add [of name missing]
      by (auto simp: handleCluster_def length_Add split: sum.splits option.splits)
    with Cons.IH [of f m] s(2) fm show ?thesis by auto
  next
    case False
    with Cons show ?thesis by fastforce
  qed
qed simp

lemma create_loop_ends:
  assumes "\<And>xs. length (rng xs) = length xs"
  shows "\<exists>r. create_loop env defs rng clusters missing lastFound = Some r"
proof (induction "length missing" arbitrary: clusters missing lastFound rule: less_induct)
  case less
  show ?case
  proof (cases "create_pass env defs (clusters, []) (rng missing)")
    case (Inl err)
    then show ?thesis by (subst create_loop.simps) simp
  next
    case (Inr s)
    obtain found missing' where s: "s = (found, missing')" by (cases s)
    let ?n = "length (cls_clusters clusters)"
    note len = create_pass_length [OF Inr [unfolded s]]
    have "\<exists>r. create_loop env defs rng found missing' (Some ?n) = Some r"
    proof (cases "length (cls_clusters found) = ?n")
      case True
      then show ?thesis by (subst create_loop.simps) simp
    next
      case False
      then have "length missing' < length missing" using len assms [of missing] by simp
      then show ?thesis by (rule less.hyps)
    qed
    then show ?thesis using Inr s by (subst create_loop.simps) simp
  qed
qed

text \<open>
  What a name stands for: its own cluster when it is configured, else the default cluster, or what its
  fallback stands for.
\<close>

inductive resolves :: "cluster_env \<Rightarrow> cluster_registry \<Rightarrow> string \<Rightarrow> cluster \<Rightarrow> bool" for env defs where
  Own: "map_of defs name = Some req \<Longrightarrow> name \<noteq> DEFAULT_CLUSTER \<Longrightarrow> option_value env req \<noteq> '''' \<Longrightarrow>
    create_cluster env req (option_value env req) = Inr c \<Longrightarrow> resolves env defs name c"
| Default: "map_of defs name = Some req \<Longrightarrow> name = DEFAULT_CLUSTER \<or> option_value env req = '''' \<Longrightarrow>
    cd_fallback req = '''' \<or> cd_fallback req = DEFAULT_CLUSTER \<Longrightarrow> map_of defs DEFAULT_CLUSTER = Some def \<Longrightarrow>
    create_cluster env def (option_value env def) = Inr c \<Longrightarrow> resolves env defs name c"
| Fallback: "map_of defs name = Some req \<Longrightarrow> name = DEFAULT_CLUSTER \<or> option_value env req = '''' \<Longrightarrow>
    cd_fallback req \<noteq> '''' \<Longrightarrow> cd_fallback req \<noteq> DEFAULT_CLUSTER \<Longrightarrow> resolves env defs (cd_fallback req) c \<Longrightarrow>
    resolves env defs name c"

text \<open>A cluster has the name of its definition, and definitions have the name they are registered under.\<close>

definition names_kept :: "cluster_env \<Rightarrow> cluster_registry \<Rightarrow> bool" where
  "names_kept env defs \<longleftrightarrow>
     (\<forall>def i opt c. ce_make env def i opt = Inr c \<longrightarrow> cl_name c = cd_name def) \<and>
     (\<forall>name def. map_of defs name = Some def \<longrightarrow> cd_name def = name)"

definition found_ok :: "cluster_env \<Rightarrow> cluster_registry \<Rightarrow> Clusters \<Rightarrow> bool" where
  "found_ok env defs found \<longleftrightarrow>
     (\<forall>name c. GetCluster found name = Some c \<longrightarrow> resolves env defs name c) \<and>
     (\<forall>name c. cls_effective found name = Some c \<longrightarrow> cl_name c = name \<and>
        (\<exists>def. map_of defs name = Some def \<and> create_cluster env def (option_value env def) = Inr c))"

lemma created_name: "names_kept env defs \<Longrightarrow> map_of defs name = Some def \<Longrightarrow> create_cluster env def opt = Inr c \<Longrightarrow> cl_name c = name"
  by (simp add: names_kept_def create_cluster_def split: option.splits)

inductive_cases resolvesE: "resolves env defs name c"

lemma default_from_found:
  assumes "found_ok env defs found" and "map_of defs name = Some req"
    and "name = DEFAULT_CLUSTER \<or> option_value env req = ''''"
    and "cd_fallback req = '''' \<or> cd_fallback req = DEFAULT_CLUSTER"
    and "pick_cluster env defs found name = Inr (Some c)"
  shows "\<exists>d. map_of defs DEFAULT_CLUSTER = Some d \<and> create_cluster env d (option_value env d) = Inr c"
proof (cases "cls_effective found DEFAULT_CLUSTER")
  case (Some d)
  then have "d = c" using assms(2-5) by (auto simp: pick_cluster_def)
  with Some assms(1) show ?thesis by (simp add: found_ok_def)
next
  case None
  then obtain d where d: "map_of defs DEFAULT_CLUSTER = Some d"
    using assms(2-5) by (auto simp: pick_cluster_def split: option.splits)
  with None have "map_sum id Some (create_cluster env d (option_value env d)) = Inr (Some c)"
    using assms(2-5) by (auto simp: pick_cluster_def)
  with d show ?thesis by (cases "create_cluster env d (option_value env d)") auto
qed

lemma pick_cluster_resolves:
  assumes "names_kept env defs" and "found_ok env defs found" and "pick_cluster env defs found name = Inr (Some c)"
  shows "resolves env defs name c"
proof -
  from assms(3) obtain req where req: "map_of defs name = Some req" by (auto simp: pick_cluster_def split: option.splits)
  consider (own) "name \<noteq> DEFAULT_CLUSTER" "option_value env req \<noteq> ''''"
    | (def) "name = DEFAULT_CLUSTER \<or> option_value env req = ''''" "cd_fallback req = '''' \<or> cd_fallback req = DEFAULT_CLUSTER"
    | (fallback) "name = DEFAULT_CLUSTER \<or> option_value env req = ''''" "cd_fallback req \<noteq> ''''" "cd_fallback req \<noteq> DEFAULT_CLUSTER"
    by blast
  then show ?thesis
  proof cases
    case own
    then have "create_cluster env req (option_value env req) = Inr c"
      using assms(3) req by (cases "create_cluster env req (option_value env req)") (auto simp: pick_cluster_def)
    with req own show ?thesis by (rule resolves.Own)
  next
    case def
    with assms(2,3) req show ?thesis by (metis default_from_found resolves.Default)
  next
    case fallback
    then have "GetCluster found (cd_fallback req) = Some c" using assms(3) req by (auto simp: pick_cluster_def)
    then have "resolves env defs (cd_fallback req) c" using assms(2) by (simp add: found_ok_def)
    with req fallback show ?thesis by (metis resolves.Fallback)
  qed
qed


lemma resolves_created:
  assumes "resolves env defs name c" and "names_kept env defs"
  shows "\<exists>d. map_of defs (cl_name c) = Some d \<and> create_cluster env d (option_value env d) = Inr c"
  using assms by (induction rule: resolves.induct) (metis created_name)+

lemma resolves_unique: "resolves env defs name c \<Longrightarrow> resolves env defs name d \<Longrightarrow> c = d"
proof (induction arbitrary: d rule: resolves.induct)
  case (Own name req c)
  from Own.prems show ?case
  proof (cases rule: resolves.cases)
    case (Own req')
    with Own.hyps show ?thesis by (metis option.inject sum.inject(2))
  qed (use Own.hyps in \<open>metis option.inject\<close>)+
next
  case (Default name req def c)
  from Default.prems show ?case
  proof (cases rule: resolves.cases)
    case (Default req' def')
    with Default.hyps show ?thesis by (metis option.inject sum.inject(2))
  qed (use Default.hyps in \<open>metis option.inject\<close>)+
next
  case (Fallback name req c)
  from Fallback.prems show ?case
  proof (cases rule: resolves.cases)
    case (Fallback req')
    with Fallback.hyps Fallback.IH show ?thesis by (metis option.inject)
  qed (use Fallback.hyps in \<open>metis option.inject\<close>)+
qed

lemma found_ok_Add:
  assumes "found_ok env defs found" and "names_kept env defs" and "resolves env defs name c"
  shows "found_ok env defs (Clusters_Add name c found)"
  using assms resolves_created [OF assms(3,2)] by (auto simp: found_ok_def) (auto simp: Clusters_Add_def split: if_splits)

lemma handleCluster_found:
  assumes "handleCluster env defs (found, missing) name = Inr (found', missing')"
    and "names_kept env defs" and "found_ok env defs found"
  shows "found_ok env defs found' \<and> set missing \<subseteq> set missing' \<and>
    (GetCluster found' name = None \<longrightarrow> name \<in> set missing') \<and>
    (\<forall>n. n \<noteq> name \<longrightarrow> GetCluster found' n = GetCluster found n)"
proof -
  consider (found) c where "pick_cluster env defs found name = Inr (Some c)"
      "found' = Clusters_Add name c found" "missing' = missing"
    | (missing) "found' = found" "missing' = keyset_add name missing"
    using assms(1) by (auto simp: handleCluster_def split: sum.splits option.splits)
  then show ?thesis
  proof cases
    case found
    with assms(2,3) show ?thesis using found_ok_Add pick_cluster_resolves by simp
  next
    case missing
    with assms(3) show ?thesis by (auto simp: keyset_add_def)
  qed
qed

lemma create_pass_found:
  assumes "create_pass env defs (found, missing) names = Inr (found', missing')"
    and "names_kept env defs" and "found_ok env defs found"
  shows "found_ok env defs found' \<and> set missing \<subseteq> set missing' \<and>
    (\<forall>n. GetCluster found n \<noteq> None \<longrightarrow> GetCluster found' n \<noteq> None) \<and>
    (\<forall>n\<in>set names. GetCluster found' n = None \<longrightarrow> n \<in> set missing')"
  using assms(1,3)
proof (induction names arbitrary: found missing)
  case (Cons name names)
  show ?case
  proof (cases "GetCluster found name = None")
    case True
    with Cons.prems obtain s where s: "handleCluster env defs (found, missing) name = Inr s"
      "create_pass env defs s names = Inr (found', missing')"
      by (auto split: sum.splits)
    obtain f m where fm: "s = (f, m)" by (cases s)
    note step = handleCluster_found [OF s(1) [unfolded fm] assms(2) Cons.prems(2)]
    have "create_pass env defs (f, m) names = Inr (found', missing')" using s(2) fm by simp
    note rest = Cons.IH [OF this step [THEN conjunct1]]
    show ?thesis using step rest True by (metis set_ConsD subsetD subset_trans)
  next
    case False
    with Cons show ?thesis by fastforce
  qed
qed simp

lemma create_loop_Inr:
  assumes "create_loop env defs rng clusters missing lastFound = Some (Inr cls)" and "missing \<noteq> []"
  obtains found missing' where "create_pass env defs (clusters, []) (rng missing) = Inr (found, missing')"
    and "create_loop env defs rng found missing' (Some (length (cls_clusters clusters))) = Some (Inr cls)"
  using assms by (subst (asm) create_loop.simps) (auto split: if_splits sum.splits)

lemma create_loop_found:
  assumes "names_kept env defs" and "\<And>xs. length (rng xs) = length xs \<and> set (rng xs) = set xs"
  shows "create_loop env defs rng clusters missing lastFound = Some (Inr cls) \<Longrightarrow> found_ok env defs clusters \<Longrightarrow>
    found_ok env defs cls \<and> (\<forall>n. GetCluster clusters n \<noteq> None \<or> n \<in> set missing \<longrightarrow> GetCluster cls n \<noteq> None)"
proof (induction "length missing" arbitrary: clusters missing lastFound rule: less_induct)
  case less
  show ?case
  proof (cases "missing = []")
    case True
    then show ?thesis using less.prems by (simp add: create_loop.simps)
  next
    case False
    then obtain found missing' where pass: "create_pass env defs (clusters, []) (rng missing) = Inr (found, missing')"
      and loop: "create_loop env defs rng found missing' (Some (length (cls_clusters clusters))) = Some (Inr cls)"
      using create_loop_Inr less.prems(1) by metis
    note found = create_pass_found [OF pass assms(1) less.prems(2)]
    note len = create_pass_length [OF pass]
    have "found_ok env defs cls \<and> (\<forall>n. GetCluster found n \<noteq> None \<or> n \<in> set missing' \<longrightarrow> GetCluster cls n \<noteq> None)"
    proof (cases "length (cls_clusters found) = length (cls_clusters clusters)")
      case True
      then show ?thesis using loop found by (auto simp: create_loop.simps split: if_splits)
    next
      case False
      then have "length missing' < length missing" using len assms(2) [of missing] by simp
      then show ?thesis using less.hyps loop found by metis
    qed
    then show ?thesis using found assms(2) [of missing] by metis
  qed
qed

lemma found_ok_New: "found_ok env defs NewClusters"
  by (simp add: found_ok_def NewClusters_def GetCluster_def)

lemma CreateClusters_found:
  assumes "CreateClusters env defs rng names = Some (Inr cls)" and "names_kept env defs"
    and "\<And>xs. length (rng xs) = length xs \<and> set (rng xs) = set xs"
  shows "found_ok env defs cls" and "n \<in> set names \<Longrightarrow> \<exists>c. GetCluster cls n = Some c \<and> resolves env defs n c"
proof -
  note found = create_loop_found [OF assms(2,3) assms(1)[unfolded CreateClusters_def] found_ok_New]
  then show "found_ok env defs cls" by blast
  assume "n \<in> set names"
  with found show "\<exists>c. GetCluster cls n = Some c \<and> resolves env defs n c" by (auto simp: found_ok_def)
qed

text \<open>
  C19. The clusters of the program: for every registry and every set of options the creation of the clusters
  comes to an end, whatever fallbacks were registered, circular ones included, and in whatever order a
  pass visits the names. When it succeeds every name a controller asked for has a cluster, and it is the
  one its registration stands for: its own when its option is set, else what its fallback stands for, or the
  default cluster.
\<close>

theorem CreateClusters_resolves:
  assumes "names_kept env defs" and "\<And>xs. length (rng xs) = length xs \<and> set (rng xs) = set xs"
  shows "\<exists>r. CreateClusters env defs rng names = Some r \<and>
    (\<forall>cls. r = Inr cls \<longrightarrow> (\<forall>n\<in>set names. \<exists>c. GetCluster cls n = Some c \<and> resolves env defs n c))"
proof -
  obtain r where r: "create_loop env defs rng NewClusters names None = Some r"
    using create_loop_ends assms(2) by blast
  then have "\<exists>c. GetCluster cls n = Some c \<and> resolves env defs n c" if "r = Inr cls" "n \<in> set names" for cls n
    using CreateClusters_found(2) [OF _ assms] that by (simp add: CreateClusters_def)
  then show ?thesis using r by (simp add: CreateClusters_def)
qed

section \<open>The registry of the program\<close>

lemma update_kept: "map_of al n \<noteq> None \<Longrightarrow> map_of (AList.update k v al) n \<noteq> None"
  by (simp add: update_conv')

lemma registered_kept:
  assumes "map_of reg n \<noteq> None"
  shows "map_of (snd (RegisterCluster def reg)) n \<noteq> None"
proof (cases "map_of reg (cd_name def)")
  case None
  with assms show ?thesis by (simp add: RegisterCluster_def update_conv')
next
  case (Some old)
  let ?f = "FillStringValue ''cluster request for %!q(MISSING)''"
  show ?thesis using Some assms
    by (cases "?f (cd_option old) (cd_option def)"; cases "?f (cd_description old) (cd_description def)")
      (simp_all add: RegisterCluster_def update_conv')
qed

lemma default_registered: "map_of NewClusterRegistry DEFAULT_CLUSTER \<noteq> None"
  by (simp add: NewClusterRegistry_def RegisterCluster_def ConfigureCluster_def update_conv')

definition program_registry :: "cluster_registry outcome" where
  "program_registry =
     (case endpoint_registers NewClusterRegistry of
        Ok reg \<Rightarrow> (case source_registers reg of Ok reg \<Rightarrow> main_registers reg | Panic \<Rightarrow> Panic)
      | Panic \<Rightarrow> Panic)"

definition program_clusters :: cluster_registry where
  "program_clusters =
     [(''default'', ConfigureCluster ''default'' ''kubeconfig'' ''default cluster access''),
      (''target'', ConfigureCluster ''target'' ''target'' ''target cluster for endpoints''),
      (''dnstarget'', Fallback ''target'' (ConfigureCluster ''dnstarget'' ''dnstarget'' ''target cluster for dns entries''))]"

lemmas registry_defs = RegisterCluster_def ConfigureCluster_def Fallback_def FillStringValue_def NewClusterRegistry_def
  endpoint_registers_def source_registers_def main_registers_def DEFAULT_CLUSTER_def

text \<open>
  The second description of the target cluster is refused, and nobody looks. In the other order the
  program would not start.
\<close>

lemma program_registers: "program_registry = Ok program_clusters"
  by (simp add: program_registry_def program_clusters_def registry_defs)

lemma target_registered_twice:
  "source_registers NewClusterRegistry = Ok reg \<Longrightarrow> endpoint_registers reg = Panic"
  by (auto simp: registry_defs)

definition two_clusters :: cluster_env where
  "two_clusters =
     \<lparr>ce_option = [''kubeconfig'' \<mapsto> ''a'', ''target'' \<mapsto> ''b''], ce_id = Map.empty,
      ce_make = (\<lambda>def i opt. Inr \<lparr>cl_name = cd_name def, cl_id = opt, cl_cached = (\<lambda>_. Inl (NotFoundError ''not found''))\<rparr>)\<rparr>"

lemma two_clusters_names: "names_kept two_clusters program_clusters"
  by (auto simp: names_kept_def two_clusters_def program_clusters_def registry_defs split: if_splits)

text \<open>The witness: the names are visited last first.\<close>

theorem CreateClusters_resolves_witness:
  "\<exists>r. CreateClusters two_clusters program_clusters rev [''dnstarget'', ''target'', ''default''] = Some r \<and>
    (\<forall>cls. r = Inr cls \<longrightarrow> (\<forall>n\<in>set [''dnstarget'', ''target'', ''default''].
       \<exists>c. GetCluster cls n = Some c \<and> resolves two_clusters program_clusters n c))"
  by (rule CreateClusters_resolves [OF two_clusters_names]) simp

text \<open>Without an option of its own the cluster of the DNS entries is the target cluster.\<close>

lemma sample_creates:
  "\<exists>cls. CreateClusters two_clusters program_clusters rev [''dnstarget'', ''target'', ''default''] = Some (Inr cls) \<and>
    map_option cl_name (GetCluster cls ''dnstarget'') = Some ''target'' \<and>
    map_option cl_name (GetCluster cls ''default'') = Some ''default''"
proof -
  note defs = CreateClusters_def handleCluster_def pick_cluster_def option_value_def create_cluster_def two_clusters_def
    program_clusters_def ConfigureCluster_def Fallback_def DEFAULT_CLUSTER_def
  have "GetCluster NewClusters n = None" for n by (simp add: GetCluster_def NewClusters_def)
  then show ?thesis
    by (subst defs(1)) ((subst create_loop.simps, simp add: defs(2-) NewClusters_def Clusters_Add_def GetCluster_def)+)
qed

end
