(* ===== verification/Scheme.thy ===== *)
theory Scheme
  imports Clusters FakeClient
begin

text \<open>
  Types and kinds: the scheme that \<open>pkg/apis/loadbalancer/v1beta1/register.go\<close> fills, for the controller
  library, for the clientset (\<open>versioned/scheme/register.go\<close>) and for the fake one
  (\<open>versioned/fake/register.go\<close>). Conversions and defaults of the meta types are not part of the model.
\<close>

section \<open>Schemes\<close>

record go_type =
  ty_PkgPath :: string
  ty_Name :: string

record GroupVersionKind =
  gvk_Group :: string
  gvk_Version :: string
  gvk_Kind :: string

type_synonym GroupVersion = "string \<times> string"

fun WithKind :: "GroupVersion \<Rightarrow> string \<Rightarrow> GroupVersionKind" where
  "WithKind (g, v) k = \<lparr>gvk_Group = g, gvk_Version = v, gvk_Kind = k\<rparr>"

definition gvk_GroupVersion :: "GroupVersionKind \<Rightarrow> GroupVersion" where
  "gvk_GroupVersion k = (gvk_Group k, gvk_Version k)"

definition APIVersionInternal :: string where
  "APIVersionInternal = ''__internal''"

record Scheme =
  gvkToType :: "GroupVersionKind \<rightharpoonup> go_type"
  typeToGVK :: "go_type \<Rightarrow> GroupVersionKind list"
  unversionedTypes :: "go_type \<rightharpoonup> GroupVersionKind"
  unversionedKinds :: "string \<rightharpoonup> go_type"
  observedVersions :: "GroupVersion list"

definition NewScheme :: Scheme where
  "NewScheme =
     \<lparr>gvkToType = Map.empty, typeToGVK = (\<lambda>_. []), unversionedTypes = Map.empty, unversionedKinds = Map.empty,
      observedVersions = []\<rparr>"

definition addObservedVersion :: "GroupVersion \<Rightarrow> Scheme \<Rightarrow> Scheme" where
  "addObservedVersion gv s =
     (if snd gv = '''' \<or> snd gv = APIVersionInternal \<or> gv \<in> set (observedVersions s) then s
      else s\<lparr>observedVersions := observedVersions s @ [gv]\<rparr>)"

definition AddKnownTypeWithName :: "GroupVersionKind \<Rightarrow> go_type \<Rightarrow> Scheme \<Rightarrow> Scheme outcome" where
  "AddKnownTypeWithName gvk t s =
     (let s = addObservedVersion (gvk_GroupVersion gvk) s
      in if gvk_Version gvk = '''' then Panic
         else if gvkToType s gvk \<noteq> None \<and> gvkToType s gvk \<noteq> Some t then Panic
         else let s = s\<lparr>gvkToType := (gvkToType s)(gvk \<mapsto> t)\<rparr>
              in Ok (if gvk \<in> set (typeToGVK s t) then s
                     else s\<lparr>typeToGVK := (typeToGVK s)(t := typeToGVK s t @ [gvk])\<rparr>))"

definition AddKnownTypes :: "GroupVersion \<Rightarrow> go_type list \<Rightarrow> Scheme \<Rightarrow> Scheme outcome" where
  "AddKnownTypes gv types s =
     for_each (\<lambda>s t. AddKnownTypeWithName (WithKind gv (ty_Name t)) t s) (addObservedVersion gv s) types"

definition add_unversioned :: "GroupVersion \<Rightarrow> Scheme \<Rightarrow> go_type \<Rightarrow> Scheme outcome" where
  "add_unversioned version s t =
     (let gvk = WithKind version (ty_Name t); s = s\<lparr>unversionedTypes := (unversionedTypes s)(t \<mapsto> gvk)\<rparr>
      in if unversionedKinds s (gvk_Kind gvk) \<noteq> None \<and> unversionedKinds s (gvk_Kind gvk) \<noteq> Some t then Panic
         else Ok (s\<lparr>unversionedKinds := (unversionedKinds s)(gvk_Kind gvk \<mapsto> t)\<rparr>))"

definition AddUnversionedTypes :: "GroupVersion \<Rightarrow> go_type list \<Rightarrow> Scheme \<Rightarrow> Scheme outcome" where
  "AddUnversionedTypes version types s =
     bind_outcome (AddKnownTypes version types (addObservedVersion version s))
       (\<lambda>s. for_each (add_unversioned version) s types)"

definition Recognizes :: "GroupVersionKind \<Rightarrow> Scheme \<Rightarrow> bool" where
  "Recognizes gvk s \<longleftrightarrow> gvkToType s gvk \<noteq> None"

text \<open>The type of a new object, and the kinds of an object with a type; the flag says that it is unversioned.\<close>

definition scheme_New :: "GroupVersionKind \<Rightarrow> Scheme \<Rightarrow> go_type option" where
  "scheme_New kind s = (case gvkToType s kind of Some t \<Rightarrow> Some t | None \<Rightarrow> unversionedKinds s (gvk_Kind kind))"

definition ObjectKinds :: "go_type \<Rightarrow> Scheme \<Rightarrow> (GroupVersionKind list \<times> bool) option" where
  "ObjectKinds t s =
     (if typeToGVK s t = [] then None else Some (typeToGVK s t, unversionedTypes s t \<noteq> None))"

type_synonym SchemeBuilder = "(Scheme \<Rightarrow> Scheme outcome) list"

definition AddToScheme :: "SchemeBuilder \<Rightarrow> Scheme \<Rightarrow> Scheme outcome" where
  "AddToScheme sb s = for_each (\<lambda>s f. f s) s sb"

section \<open>The types\<close>

definition metav1 :: "string \<Rightarrow> go_type" where
  "metav1 name = \<lparr>ty_PkgPath = ''k8s.io/apimachinery/pkg/apis/meta/v1'', ty_Name = name\<rparr>"

definition AddToGroupVersion :: "GroupVersion \<Rightarrow> Scheme \<Rightarrow> Scheme outcome" where
  "AddToGroupVersion gv s =
     bind_outcome (AddKnownTypeWithName (WithKind gv ''WatchEvent'') (metav1 ''WatchEvent'') s) (\<lambda>s.
     bind_outcome (AddKnownTypeWithName (WithKind (fst gv, APIVersionInternal) ''WatchEvent'') (metav1 ''InternalEvent'') s) (\<lambda>s.
     bind_outcome (AddKnownTypes gv (map metav1
       [''ListOptions'', ''ExportOptions'', ''GetOptions'', ''DeleteOptions'', ''CreateOptions'', ''UpdateOptions'']) s) (\<lambda>s.
     AddUnversionedTypes ('''', ''v1'') (map metav1
       [''Status'', ''APIVersions'', ''APIGroupList'', ''APIGroup'', ''APIResourceList'']) s)))"

definition v1beta1 :: "string \<Rightarrow> go_type" where
  "v1beta1 name =
     \<lparr>ty_PkgPath = ''github.com/gardener/dnslb-controller-manager/pkg/apis/loadbalancer/v1beta1'', ty_Name = name\<rparr>"

definition addKnownTypes :: "Scheme \<Rightarrow> Scheme outcome" where
  "addKnownTypes s =
     bind_outcome (AddKnownTypes SchemeGroupVersion (map v1beta1
       [''DNSLoadBalancer'', ''DNSLoadBalancerList'', ''DNSLoadBalancerEndpoint'', ''DNSLoadBalancerEndpointList'']) s)
       (AddToGroupVersion SchemeGroupVersion)"

definition api_SchemeBuilder :: SchemeBuilder where
  "api_SchemeBuilder = [addKnownTypes]"

definition api_AddToScheme :: "Scheme \<Rightarrow> Scheme outcome" where
  "api_AddToScheme = AddToScheme api_SchemeBuilder"

text \<open>
  The initialisation of the three schemes: the one of the controller library, which other packages
  register at, too, the one of the clientset and the one of the fake clientset.
\<close>

definition resources_Register :: "SchemeBuilder list \<Rightarrow> Scheme \<Rightarrow> Scheme outcome" where
  "resources_Register builders s = for_each (\<lambda>s b. AddToScheme b s) s builders"

definition api_init :: "Scheme \<Rightarrow> Scheme outcome" where
  "api_init = resources_Register [api_SchemeBuilder]"

definition clientset_localSchemeBuilder :: SchemeBuilder where
  "clientset_localSchemeBuilder = [api_AddToScheme]"

definition clientset_scheme :: "Scheme outcome" where
  "clientset_scheme =
     bind_outcome (AddToGroupVersion ('''', ''v1'') NewScheme) (AddToScheme clientset_localSchemeBuilder)"

definition fake_localSchemeBuilder :: SchemeBuilder where
  "fake_localSchemeBuilder = [api_AddToScheme]"

definition fake_scheme :: "Scheme outcome" where
  "fake_scheme = bind_outcome (AddToGroupVersion ('''', ''v1'') NewScheme) (AddToScheme fake_localSchemeBuilder)"

definition api_Resource :: "string \<Rightarrow> string \<times> string" where
  "api_Resource resource = (fst SchemeGroupVersion, resource)"

section \<open>The two directions agree\<close>

text \<open>
  The types of the kinds and the kinds of the types are the same relation, no kind is listed twice, and
  every kind has a version.
\<close>

definition scheme_ok :: "Scheme \<Rightarrow> bool" where
  "scheme_ok s \<longleftrightarrow>
     (\<forall>gvk t. gvkToType s gvk = Some t \<longleftrightarrow> gvk \<in> set (typeToGVK s t)) \<and>
     (\<forall>t. distinct (typeToGVK s t)) \<and> (\<forall>gvk t. gvkToType s gvk = Some t \<longrightarrow> gvk_Version gvk \<noteq> '''') \<and>
     distinct (observedVersions s)"

text \<open>What a registration that succeeds leaves: nothing is forgotten.\<close>

definition extends :: "Scheme \<Rightarrow> Scheme \<Rightarrow> bool" where
  "extends s s' \<longleftrightarrow> gvkToType s \<subseteq>\<^sub>m gvkToType s' \<and> (scheme_ok s \<longrightarrow> scheme_ok s')"

lemma extends_refl [simp]: "extends s s"
  by (simp add: extends_def)

lemma extends_trans: "extends s t \<Longrightarrow> extends t u \<Longrightarrow> extends s u"
  by (auto simp: extends_def intro: map_le_trans)

lemma extends_observed [simp]: "extends s (addObservedVersion gv s)"
  by (auto simp: extends_def addObservedVersion_def scheme_ok_def)

lemma observed_kinds [simp]: "gvkToType (addObservedVersion gv s) = gvkToType s" "typeToGVK (addObservedVersion gv s) = typeToGVK s"
  by (simp_all add: addObservedVersion_def)

lemma extends_AddKnownTypeWithName:
  assumes "AddKnownTypeWithName gvk t s = Ok s'"
  shows "extends s s'" and "gvkToType s' gvk = Some t"
proof -
  let ?s = "addObservedVersion (gvk_GroupVersion gvk) s"
  have old: "gvkToType s gvk = None \<or> gvkToType s gvk = Some t" and v: "gvk_Version gvk \<noteq> ''''"
    and s': "s' = (if gvk \<in> set (typeToGVK s t) then ?s\<lparr>gvkToType := (gvkToType s)(gvk \<mapsto> t)\<rparr>
      else ?s\<lparr>gvkToType := (gvkToType s)(gvk \<mapsto> t), typeToGVK := (typeToGVK s)(t := typeToGVK s t @ [gvk])\<rparr>)"
    using assms by (auto simp: AddKnownTypeWithName_def Let_def split: if_splits)
  show "gvkToType s' gvk = Some t" by (simp add: s')
  have "gvkToType s \<subseteq>\<^sub>m gvkToType s'" using old by (auto simp: s' map_le_def)
  moreover have "scheme_ok s'" if ok: "scheme_ok s"
  proof -
    have obs: "distinct (observedVersions s')" using ok extends_observed by (simp add: s' extends_def scheme_ok_def)
    have same: "gvkToType s g = Some u \<longleftrightarrow> g \<in> set (typeToGVK s u)" for g u using ok by (simp add: scheme_ok_def)
    have uniq: "u = t" if "gvk \<in> set (typeToGVK s u)" for u using that old same [of gvk u] by auto
    have agree: "gvkToType s' g = Some u \<longleftrightarrow> g \<in> set (typeToGVK s' u)" for g u
      by (cases "g = gvk"; cases "u = t") (use same [of g u] uniq [of u] in \<open>auto simp: s'\<close>)
    have dist: "distinct (typeToGVK s' u)" for u using ok by (simp add: s' scheme_ok_def)
    have "gvk_Version g \<noteq> ''''" if "gvkToType s' g = Some u" for g u
      using that ok v by (cases "g = gvk") (auto simp: s' scheme_ok_def split: if_splits)
    with obs agree dist show ?thesis unfolding scheme_ok_def by blast
  qed
  ultimately show "extends s s'" by (simp add: extends_def)
qed

lemma extends_AddKnownTypes:
  assumes "AddKnownTypes gv types s = Ok s'"
  shows "extends s s'" and "t \<in> set types \<Longrightarrow> gvkToType s' (WithKind gv (ty_Name t)) = Some t"
proof -
  let ?f = "\<lambda>s t. AddKnownTypeWithName (WithKind gv (ty_Name t)) t s"
  have loop: "for_each ?f (addObservedVersion gv s) types = Ok s'" using assms by (simp add: AddKnownTypes_def)
  show "extends s s'"
    by (rule for_each_inv [OF loop]) (auto dest: extends_AddKnownTypeWithName(1) intro: extends_trans)
  assume "t \<in> set types"
  then obtain xs ys where types: "types = xs @ t # ys" by (meson split_list)
  then obtain s1 s2 where s: "?f s1 t = Ok s2" "for_each ?f s2 ys = Ok s'"
    using loop by (auto simp: for_each_append)
  have "extends s2 s'"
    by (rule for_each_inv [OF s(2)]) (auto dest: extends_AddKnownTypeWithName(1) intro: extends_trans)
  with extends_AddKnownTypeWithName(2) [OF s(1)] show "gvkToType s' (WithKind gv (ty_Name t)) = Some t"
    by (auto simp: extends_def map_le_def dom_def)
qed

lemma extends_add_unversioned: "add_unversioned version s t = Ok s' \<Longrightarrow> extends s s'"
  by (auto simp: add_unversioned_def Let_def extends_def scheme_ok_def split: if_splits)

lemma extends_AddUnversionedTypes:
  assumes "AddUnversionedTypes version types s = Ok s'"
  shows "extends s s'"
proof -
  obtain t where t: "AddKnownTypes version types (addObservedVersion version s) = Ok t"
    "for_each (add_unversioned version) t types = Ok s'"
    using assms by (auto simp: AddUnversionedTypes_def)
  have "extends t s'"
    by (rule for_each_inv [OF t(2)]) (auto dest: extends_add_unversioned intro: extends_trans)
  then show ?thesis using extends_AddKnownTypes(1) [OF t(1)] by (meson extends_observed extends_trans)
qed

lemma extends_AddToGroupVersion: "AddToGroupVersion gv s = Ok s' \<Longrightarrow> extends s s'"
  by (auto simp: AddToGroupVersion_def dest!: extends_AddKnownTypeWithName(1) extends_AddKnownTypes(1) extends_AddUnversionedTypes
      intro: extends_trans)

abbreviation api_kinds :: "string list" where
  "api_kinds \<equiv> [''DNSLoadBalancer'', ''DNSLoadBalancerList'', ''DNSLoadBalancerEndpoint'', ''DNSLoadBalancerEndpointList'']"

lemma addKnownTypes_kinds:
  assumes "addKnownTypes s = Ok s'"
  shows "extends s s'" and "k \<in> set api_kinds \<Longrightarrow> gvkToType s' (WithKind SchemeGroupVersion k) = Some (v1beta1 k)"
proof -
  obtain t where t: "AddKnownTypes SchemeGroupVersion (map v1beta1 api_kinds) s = Ok t" "AddToGroupVersion SchemeGroupVersion t = Ok s'"
    using assms by (auto simp: addKnownTypes_def)
  note step = extends_AddToGroupVersion [OF t(2)]
  show "extends s s'" using extends_AddKnownTypes(1) [OF t(1)] step by (rule extends_trans)
  assume "k \<in> set api_kinds"
  then have "v1beta1 k \<in> set (map v1beta1 api_kinds)" by (simp only: set_map imageI)
  from extends_AddKnownTypes(2) [OF t(1) this] step
  show "gvkToType s' (WithKind SchemeGroupVersion k) = Some (v1beta1 k)"
    by (auto simp: extends_def map_le_def dom_def v1beta1_def)
qed

text \<open>
  C39. The types of the API in a scheme: wherever the package registers, after other packages or not, a
  registration that does not panic keeps all that was registered, keeps the two directions of the scheme
  the same relation, and afterwards a new object of each of the four kinds has the type of that name, and
  an object of that type has just the kinds that lead back to it.
\<close>

theorem api_init_registers:
  assumes "api_init s = Ok s'" and "scheme_ok s"
  shows "gvkToType s \<subseteq>\<^sub>m gvkToType s' \<and> scheme_ok s' \<and>
    (\<forall>k\<in>set api_kinds. scheme_New (WithKind SchemeGroupVersion k) s' = Some (v1beta1 k) \<and>
       (\<exists>kinds unversioned. ObjectKinds (v1beta1 k) s' = Some (kinds, unversioned) \<and>
          WithKind SchemeGroupVersion k \<in> set kinds \<and> (\<forall>gvk\<in>set kinds. scheme_New gvk s' = Some (v1beta1 k))))"
proof -
  have s': "addKnownTypes s = Ok s'"
    using assms(1) by (auto simp: api_init_def resources_Register_def AddToScheme_def api_SchemeBuilder_def)
  note known = addKnownTypes_kinds [OF s']
  have ok: "scheme_ok s'" using known(1) assms(2) by (simp add: extends_def)
  have "scheme_New (WithKind SchemeGroupVersion k) s' = Some (v1beta1 k) \<and>
       (\<exists>kinds unversioned. ObjectKinds (v1beta1 k) s' = Some (kinds, unversioned) \<and>
          WithKind SchemeGroupVersion k \<in> set kinds \<and> (\<forall>gvk\<in>set kinds. scheme_New gvk s' = Some (v1beta1 k)))"
    if "k \<in> set api_kinds" for k
  proof -
    note k = known(2) [OF that]
    then have "WithKind SchemeGroupVersion k \<in> set (typeToGVK s' (v1beta1 k))" using ok by (simp add: scheme_ok_def)
    moreover have "gvkToType s' gvk = Some (v1beta1 k)" if "gvk \<in> set (typeToGVK s' (v1beta1 k))" for gvk
      using that ok by (simp add: scheme_ok_def)
    ultimately show ?thesis using k by (auto simp: scheme_New_def ObjectKinds_def)
  qed
  with known(1) ok show ?thesis unfolding extends_def by blast
qed

section \<open>The schemes of the clientsets\<close>

lemmas scheme_defs = AddKnownTypeWithName_def AddKnownTypes_def AddUnversionedTypes_def add_unversioned_def
  addObservedVersion_def NewScheme_def AddToGroupVersion_def addKnownTypes_def AddToScheme_def api_SchemeBuilder_def
  api_AddToScheme_def gvk_GroupVersion_def APIVersionInternal_def SchemeGroupVersion_def GroupName_def metav1_def v1beta1_def

lemma NewScheme_ok: "scheme_ok NewScheme"
  by (simp add: scheme_ok_def NewScheme_def)

lemma schemes_computed:
  "case_outcome False (\<lambda>_. True) (api_init NewScheme)" "case_outcome False (\<lambda>_. True) clientset_scheme"
  by code_simp+

lemma api_init_starts: "api_init NewScheme \<noteq> Panic"
  using schemes_computed(1) by (auto split: outcome.splits)

text \<open>The witness: the first package to register.\<close>

theorem api_init_registers_witness:
  "\<exists>s'. api_init NewScheme = Ok s' \<and> gvkToType NewScheme \<subseteq>\<^sub>m gvkToType s' \<and> scheme_ok s' \<and>
    (\<forall>k\<in>set api_kinds. scheme_New (WithKind SchemeGroupVersion k) s' = Some (v1beta1 k) \<and>
       (\<exists>kinds unversioned. ObjectKinds (v1beta1 k) s' = Some (kinds, unversioned) \<and>
          WithKind SchemeGroupVersion k \<in> set kinds \<and> (\<forall>gvk\<in>set kinds. scheme_New gvk s' = Some (v1beta1 k))))"
proof (cases "api_init NewScheme")
  case (Ok s')
  from api_init_registers [OF Ok NewScheme_ok] Ok show ?thesis by blast
qed (simp add: api_init_starts)

text \<open>The program does not panic on its way, and both clientsets know the same types.\<close>

lemma clientset_schemes:
  "clientset_scheme \<noteq> Panic" "fake_scheme = clientset_scheme"
  using schemes_computed(2) by (auto simp: fake_localSchemeBuilder_def clientset_localSchemeBuilder_def
      fake_scheme_def clientset_scheme_def split: outcome.splits)

end
