(* ===== verification/CrdProps.thy ===== *)
theory CrdProps
  imports Crds Scheme ClientProps
begin

text \<open>
  How the custom resource definitions fit the requests of the generated clients.
\<close>

section \<open>Resources a server has\<close>

text \<open>
  What an API server serves under a path, when the definitions \<open>crds\<close> are established: the kind of the
  definition with the group, the version and the plural in the path; a subresource only if the definition
  has it.
\<close>

definition served :: "CustomResourceDefinition list \<Rightarrow> nat \<Rightarrow> string \<Rightarrow> (string \<times> string \<times> string \<times> string) option" where
  "served crds n p =
     (case read_target (n + 3) p of
        None \<Rightarrow> None
      | Some (ns, res, name, sub) \<Rightarrow>
          (case find (\<lambda>crd. drop n (take (n + 3) (elements p)) = [''apis'', crd_Group crd, crd_Version crd] \<and> crd_Plural crd = res)
             crds of
             None \<Rightarrow> None
           | Some crd \<Rightarrow> if sub = '''' \<or> sub = ''status'' \<and> crd_Status crd then Some (crd_Kind crd, ns, name, sub) else None))"

lemmas crd_defs = DNSLBCRD_def DNSLBEPCRD_def CreateCRDObject_def create_crd_object_def LoadBalancerResourcePlural_def
  LoadBalancerEndpointResourcePlural_def LoadBalancerResourceKind_def LoadBalancerEndpointResourceKind_def GroupName_def

lemma crd_fields [simp]:
  "crd_Group DNSLBCRD = ''loadbalancer.gardener.cloud''" "crd_Version DNSLBCRD = ''v1beta1''"
  "crd_Plural DNSLBCRD = ''dnsloadbalancers''" "crd_Kind DNSLBCRD = ''DNSLoadBalancer''" "\<not> crd_Status DNSLBCRD"
  "crd_Group DNSLBEPCRD = ''loadbalancer.gardener.cloud''" "crd_Version DNSLBEPCRD = ''v1beta1''"
  "crd_Plural DNSLBEPCRD = ''dnsloadbalancerendpoints''" "crd_Kind DNSLBEPCRD = ''DNSLoadBalancerEndpoint''" "\<not> crd_Status DNSLBEPCRD"
  by (simp_all add: crd_defs)

lemma served_path:
  assumes "read_target (length (base @ api_elements)) p = Some (ns, res, name, sub)"
    and "take (length (base @ api_elements)) (elements p) = base @ api_elements"
  shows "served [DNSLBCRD, DNSLBEPCRD] (length base) p =
    (if sub \<noteq> '''' then None
     else if res = ''dnsloadbalancers'' then Some (''DNSLoadBalancer'', ns, name, '''')
     else if res = ''dnsloadbalancerendpoints'' then Some (''DNSLoadBalancerEndpoint'', ns, name, '''') else None)"
proof -
  have "length (base @ api_elements) = length base + 3" by (simp add: api_elements_def)
  with assms have "read_target (length base + 3) p = Some (ns, res, name, sub)"
    and "drop (length base) (take (length base + 3) (elements p)) = api_elements" by simp_all
  then show ?thesis by (auto simp: served_def api_elements_def)
qed


text \<open>The witness: the deletion of a load balancer and the status update of an endpoint.\<close>

definition named_ep :: DNSLoadBalancerEndpoint where
  "named_ep = empty_ep\<lparr>ep_meta := no_meta\<lparr>m_name := ''ep''\<rparr>\<rparr>"

lemma named_ep_name: "m_name (ep_meta named_ep) = ''ep''"
  by (simp add: named_ep_def)

definition sample_status_update :: Request where
  "sample_status_update =
     updateStatus_request dnsloadbalancerendpoints \<lparr>tc_client = sample_rest, tc_ns = ''ns''\<rparr> ''ep''
       (EndpointObject named_ep)"

lemma sample_status_update_ok: "rq_err sample_status_update = None" "empty_namespace sample_status_update = None"
  by (simp_all add: sample_status_update_def updateStatus_request_def Body_def Name_def Resource_def Namespace_def
      SubResource_def IsValidPathSegmentName_def empty_namespace_def NewRequest_def)


end
