(* ===== verification/WorkQueue.thy ===== *)
theory WorkQueue
  imports Clusters
begin

text \<open>
  The keys of the work queue (\<open>controller/workqueuekey.go\<close> and \<open>DecodeKey\<close> of
  \<open>controller/controller.go\<close> in the controller manager library). The queue holds strings: an object's
  key with the name of its cluster, or a command.
\<close>

section \<open>Keys of the queue\<close>

definition EncodeCommandKey :: "string \<Rightarrow> string" where
  "EncodeCommandKey cmd = ''cmd:'' @ cmd"

definition EncodeObjectSubKey :: "ObjectKey \<Rightarrow> string" where
  "EncodeObjectSubKey x =
     (let gk = ok_groupKind x
      in gk_group gk @ ''/'' @ gk_kind gk @ ''/'' @ on_namespace (ok_name x) @ ''/'' @ on_name (ok_name x))"

definition EncodeObjectKey :: "string \<Rightarrow> ObjectKey \<Rightarrow> string" where
  "EncodeObjectKey c x = ''obj:'' @ c @ '':'' @ EncodeObjectSubKey x"

text \<open>The name of the object's cluster is a parameter: objects carry the id.\<close>

definition EncodeObjectKeyForObject :: "string \<Rightarrow> Object \<Rightarrow> string" where
  "EncodeObjectKeyForObject cname x = EncodeObjectKey cname (ck_objectKey (o_ClusterKey x))"

definition DecodeObjectSubKey :: "string \<Rightarrow> go_error + (string \<times> string \<times> string \<times> string)" where
  "DecodeObjectSubKey key =
     (case Split CHR ''/'' key of
        [n] \<Rightarrow> Inr ('''', '''', '''', n)
      | [k, n] \<Rightarrow> Inr ('''', k, '''', n)
      | [k, ns, n] \<Rightarrow> Inr ('''', k, ns, n)
      | [g, k, ns, n] \<Rightarrow> Inr (g, k, ns, n)
      | _ \<Rightarrow> Inl (OtherError (''unexpected key format: '' @ quoted key)))"

text \<open>
  \<open>DecodeKey\<close> answers a command, the key of an object, the object itself when the cache has it, and an
  error. A key that starts with \<open>obj:\<close> but holds no further colon makes it slice out of range.
\<close>

type_synonym decoded = "string \<times> ClusterObjectKey option \<times> Object option \<times> go_error option"

definition decode_object :: "Clusters \<Rightarrow> string \<Rightarrow> decoded outcome" where
  "decode_object clusters key =
     (case split_first CHR '':'' key of
        None \<Rightarrow> Panic
      | Some (cname, sub) \<Rightarrow>
          (case GetEffective clusters cname of
             None \<Rightarrow> Ok ('''', None, None, Some (OtherError (''unknown cluster in key '' @ quoted key)))
           | Some c \<Rightarrow>
               (case DecodeObjectSubKey sub of
                  Inl err \<Rightarrow> Ok ('''', None, None, Some (OtherError (''error decoding '' @ [CHR 0x27] @ sub @ [CHR 0x27] @ '': '' @ Error err)))
                | Inr (grp, kind, ns, n) \<Rightarrow>
                    let objKey = NewClusterKey (cl_id c) (NewGroupKind grp kind) ns n
                    in (case cl_cached c (ck_objectKey objKey) of
                          Inl err \<Rightarrow> Ok ('''', Some objKey, None, Some err)
                        | Inr x \<Rightarrow> Ok ('''', Some objKey, Some x, None)))))"

definition DecodeKey :: "Clusters \<Rightarrow> string \<Rightarrow> decoded outcome" where
  "DecodeKey clusters key =
     (case split_first CHR '':'' key of
        None \<Rightarrow> Ok (key, None, None, None)
      | Some (main, rest) \<Rightarrow>
          if main = ''cmd'' then Ok (rest, None, None, None)
          else decode_object clusters (if main = ''obj'' then rest else key))"

section \<open>Decoding what was encoded\<close>

lemma DecodeKey_command: "DecodeKey clusters (EncodeCommandKey cmd) = Ok (cmd, None, None, None)"
  by (simp add: DecodeKey_def EncodeCommandKey_def)

lemma EncodeObjectSubKey_String: "EncodeObjectSubKey x = ObjectKey_String x"
  by (simp add: EncodeObjectSubKey_def ObjectKey_String_def ObjectName_String_def Let_def)

definition encodable :: "ObjectKey \<Rightarrow> bool" where
  "encodable x \<longleftrightarrow>
     CHR ''/'' \<notin> set (gk_group (ok_groupKind x)) \<and> CHR ''/'' \<notin> set (gk_kind (ok_groupKind x)) \<and>
     CHR ''/'' \<notin> set (on_namespace (ok_name x)) \<and> CHR ''/'' \<notin> set (on_name (ok_name x)) \<and>
     gk_group (ok_groupKind x) \<noteq> ''core''"

lemma DecodeObjectSubKey_Encode:
  "encodable x \<Longrightarrow> DecodeObjectSubKey (EncodeObjectSubKey x) =
     Inr (gk_group (ok_groupKind x), gk_kind (ok_groupKind x), on_namespace (ok_name x), on_name (ok_name x))"
  by (simp add: DecodeObjectSubKey_def EncodeObjectSubKey_String Split_ObjectKey_String encodable_def)

text \<open>
  The key of an object is read back with the id of its cluster, together with what the cache of that
  cluster holds under it.
\<close>

lemma DecodeKey_Encode:
  assumes "CHR '':'' \<notin> set cname" and "encodable (ck_objectKey key)"
    and "GetEffective clusters cname = Some c" and "cl_id c = ck_cluster key"
  shows "DecodeKey clusters (EncodeObjectKey cname (ck_objectKey key)) =
    Ok ('''', Some key,
      case cl_cached c (ck_objectKey key) of Inl _ \<Rightarrow> None | Inr x \<Rightarrow> Some x,
      case cl_cached c (ck_objectKey key) of Inl err \<Rightarrow> Some err | Inr _ \<Rightarrow> None)"
proof -
  have whole: "NewClusterKey (cl_id c) (NewGroupKind (gk_group (ck_groupKind key)) (gk_kind (ck_groupKind key)))
      (ck_namespace key) (on_name (ck_name key)) = key"
    using NewClusterKey_of_parts [of key] assms(2,4) by (simp add: encodable_def)
  have "split_first CHR '':'' (cname @ '':'' @ EncodeObjectSubKey (ck_objectKey key)) =
      Some (cname, EncodeObjectSubKey (ck_objectKey key))"
    using assms(1) by simp
  then show ?thesis
    using whole assms(3)
    by (simp add: DecodeKey_def EncodeObjectKey_def decode_object_def DecodeObjectSubKey_Encode [OF assms(2)] Let_def
        split: sum.split)
qed

end
