(* ===== verification/Builder.thy ===== *)
theory Builder
  imports WorkQueue Crds
begin

text \<open>
  The definition of a controller (\<open>controller/configure.go\<close> of the controller manager library): a builder
  that packages call in a chain when the program starts. A step is a function on the configuration, which
  may panic; the chain applies the steps in order. What makes a reconciler (\<open>ReconcilerType\<close>) is a
  parameter of the types.
\<close>

section \<open>Definitions\<close>

datatype OptionType = StringType | StringArrayType | IntType | BoolType | DurationType

datatype OptionDefault = NoDefault | StringDefault string | IntDefault int | BoolDefault bool | DurationDefault duration

record configdef =
  cd_gotype :: OptionType
  cd_defaultValue :: OptionDefault
  cd_desc :: string

record pooldef =
  pd_name :: string
  pd_size :: int
  pd_period :: duration

record watchdef =
  wd_rtype :: GroupKind
  wd_reconciler :: string
  wd_pool :: string

text \<open>The commands of a controller are matched by equality; glob patterns are not used here.\<close>

record cmddef =
  cmd_key :: string
  cmd_reconciler :: string
  cmd_pool :: string

text \<open>Go's maps are association lists; whoever visits one is given the order.\<close>

record 't Definition =
  df_name :: string
  df_main :: "GroupKind option"
  df_reconcilers :: "(string \<times> 't) list"
  df_watches :: "(string \<times> watchdef list) list"
  df_commands :: "(string \<times> cmddef list) list"
  df_required_clusters :: "string list"
  df_require_lease :: bool
  df_pools :: "(string \<times> pooldef) list"
  df_configs :: "(string \<times> configdef) list"
  df_finalizerName :: string
  df_finalizerDomain :: string
  df_crds :: "(string \<times> CustomResourceDefinition list) list"

definition DEFAULT_POOL :: string where
  "DEFAULT_POOL = ''default''"

definition DEFAULT_RECONCILER :: string where
  "DEFAULT_RECONCILER = ''default''"

definition RequiredClusters :: "'t Definition \<Rightarrow> string list" where
  "RequiredClusters this = (if df_required_clusters this \<noteq> [] then df_required_clusters this else [DEFAULT_CLUSTER])"

definition def_FinalizerName :: "'t Definition \<Rightarrow> string" where
  "def_FinalizerName this =
     (if df_finalizerName this = ''''
      then (if df_finalizerDomain this = '''' then ''acme.com'' @ ''/'' @ df_name this
            else df_finalizerDomain this @ ''/'' @ df_name this)
      else df_finalizerName this)"

definition Pools :: "'t Definition \<Rightarrow> (string \<times> pooldef) list" where
  "Pools this =
     (if df_pools this = []
      then [(DEFAULT_POOL, \<lparr>pd_name = DEFAULT_POOL, pd_size = 5, pd_period = 30 * Second\<rparr>)] else df_pools this)"

section \<open>The builder\<close>

record 't Configuration =
  cf_settings :: "'t Definition"
  cf_cluster :: string
  cf_pool :: string

type_synonym 't config_step = "'t Configuration \<Rightarrow> 't Configuration outcome"

definition Configure :: "string \<Rightarrow> 't Configuration" where
  "Configure name =
     \<lparr>cf_settings =
        \<lparr>df_name = name, df_main = None, df_reconcilers = [], df_watches = [], df_commands = [],
         df_required_clusters = [], df_require_lease = False, df_pools = [], df_configs = [],
         df_finalizerName = '''', df_finalizerDomain = '''', df_crds = []\<rparr>,
      cf_cluster = CLUSTER_MAIN, cf_pool = DEFAULT_POOL\<rparr>"

text \<open>Setting one field of the settings.\<close>

definition settings :: "('t Definition \<Rightarrow> 't Definition) \<Rightarrow> 't config_step" where
  "settings f this = Ok (this\<lparr>cf_settings := f (cf_settings this)\<rparr>)"

definition MainResource :: "string \<Rightarrow> string \<Rightarrow> 't config_step" where
  "MainResource grp kind = settings (df_main_update (\<lambda>_. Some (NewGroupKind grp kind)))"

definition WorkerPool :: "string \<Rightarrow> int \<Rightarrow> duration \<Rightarrow> 't config_step" where
  "WorkerPool name size' period this =
     (if map_of (df_pools (cf_settings this)) name \<noteq> None then Panic
      else map_outcome (\<lambda>c. c\<lparr>cf_pool := name\<rparr>)
        (settings (df_pools_update (\<lambda>ps. AList.update name \<lparr>pd_name = name, pd_size = size', pd_period = period\<rparr> ps)) this))"

definition DefaultWorkerPool :: "int \<Rightarrow> duration \<Rightarrow> 't config_step" where
  "DefaultWorkerPool = WorkerPool DEFAULT_POOL"

definition config_Pool :: "string \<Rightarrow> 't config_step" where
  "config_Pool name this = Ok (this\<lparr>cf_pool := name\<rparr>)"

text \<open>
  The current cluster. A name required already is not required again; the first one required is called
  by its alias.
\<close>

definition config_Cluster :: "string \<Rightarrow> 't config_step" where
  "config_Cluster name this =
     (let req = df_required_clusters (cf_settings this); this = this\<lparr>cf_cluster := name, cf_pool := DEFAULT_POOL\<rparr>
      in if name \<noteq> CLUSTER_MAIN
         then (if name \<in> set req
               then Ok (if hd req = name then this\<lparr>cf_cluster := CLUSTER_MAIN\<rparr> else this)
               else settings (df_required_clusters_update (\<lambda>cs. cs @ [name])) this)
         else Ok this)"

definition add_all :: "string \<Rightarrow> 'a list \<Rightarrow> (string \<times> 'a list) list \<Rightarrow> (string \<times> 'a list) list" where
  "add_all k xs m = AList.update k ((case map_of m k of None \<Rightarrow> [] | Some l \<Rightarrow> l) @ xs) m"

definition CustomResourceDefinitions :: "CustomResourceDefinition list \<Rightarrow> 't config_step" where
  "CustomResourceDefinitions crds this = settings (df_crds_update (add_all (cf_cluster this) crds)) this"

definition ReconcilerWatches :: "string \<Rightarrow> GroupKind list \<Rightarrow> 't config_step" where
  "ReconcilerWatches reconciler keys this =
     (if keys = [] then Ok this
      else settings (df_watches_update (add_all (cf_cluster this)
        (map (\<lambda>key. \<lparr>wd_rtype = key, wd_reconciler = reconciler, wd_pool = cf_pool this\<rparr>) keys))) this)"

definition config_Watches :: "GroupKind list \<Rightarrow> 't config_step" where
  "config_Watches keys = ReconcilerWatches DEFAULT_RECONCILER keys"

definition config_Watch :: "string \<Rightarrow> string \<Rightarrow> 't config_step" where
  "config_Watch grp kind = ReconcilerWatches DEFAULT_RECONCILER [NewGroupKind grp kind]"

definition ReconcilerWatch :: "string \<Rightarrow> string \<Rightarrow> string \<Rightarrow> 't config_step" where
  "ReconcilerWatch reconciler grp kind = ReconcilerWatches reconciler [NewGroupKind grp kind]"

definition ReconcilerCommands :: "string \<Rightarrow> string list \<Rightarrow> 't config_step" where
  "ReconcilerCommands reconciler cmds this =
     (if cmds = [] then Ok this
      else settings (df_commands_update (add_all reconciler
        (map (\<lambda>cmd. \<lparr>cmd_key = cmd, cmd_reconciler = reconciler, cmd_pool = cf_pool this\<rparr>) cmds))) this)"

definition config_Commands :: "string list \<Rightarrow> 't config_step" where
  "config_Commands = ReconcilerCommands DEFAULT_RECONCILER"

definition config_Reconciler :: "'t \<Rightarrow> string list \<Rightarrow> 't config_step" where
  "config_Reconciler t names =
     settings (df_reconcilers_update (\<lambda>rs.
       if names = [] then AList.update DEFAULT_RECONCILER t rs else foldl (\<lambda>rs n. AList.update n t rs) rs names))"

definition config_FinalizerName :: "string \<Rightarrow> 't config_step" where
  "config_FinalizerName name = settings (df_finalizerName_update (\<lambda>_. name))"

definition FinalizerDomain :: "string \<Rightarrow> 't config_step" where
  "FinalizerDomain name = settings (df_finalizerDomain_update (\<lambda>_. name))"

definition RequireLease :: "'t config_step" where
  "RequireLease = settings (df_require_lease_update (\<lambda>_. True))"

definition addOption :: "string \<Rightarrow> OptionType \<Rightarrow> OptionDefault \<Rightarrow> string \<Rightarrow> 't config_step" where
  "addOption name t def desc this =
     (if map_of (df_configs (cf_settings this)) name \<noteq> None then Panic
      else settings (df_configs_update (AList.update name
        \<lparr>cd_gotype = t, cd_defaultValue = def, cd_desc = desc\<rparr>)) this)"

definition StringOption :: "string \<Rightarrow> string \<Rightarrow> 't config_step" where
  "StringOption name desc = addOption name StringType NoDefault desc"

definition StringArrayOption :: "string \<Rightarrow> string \<Rightarrow> 't config_step" where
  "StringArrayOption name desc = addOption name StringArrayType NoDefault desc"

definition DefaultedStringOption :: "string \<Rightarrow> string \<Rightarrow> string \<Rightarrow> 't config_step" where
  "DefaultedStringOption name def desc = addOption name StringType (StringDefault def) desc"

definition DefaultedDurationOption :: "string \<Rightarrow> duration \<Rightarrow> string \<Rightarrow> 't config_step" where
  "DefaultedDurationOption name def desc = addOption name DurationType (DurationDefault def) desc"

definition chain :: "'t Configuration \<Rightarrow> 't config_step list \<Rightarrow> 't Configuration outcome" where
  "chain c steps = for_each (\<lambda>c f. f c) c steps"

section \<open>What a chain leaves\<close>

text \<open>
  A configuration in order: clusters are required once, every watch and every definition of a resource
  belongs to a required cluster or the main one, and a current cluster other than the main one is required.
\<close>

definition clustered :: "'t Configuration \<Rightarrow> bool" where
  "clustered c \<longleftrightarrow>
     (let d = cf_settings c; known = insert CLUSTER_MAIN (set (df_required_clusters d))
      in distinct (df_required_clusters d) \<and> cf_cluster c \<in> known \<and> fst ` set (df_watches d) \<subseteq> known \<and>
         fst ` set (df_crds d) \<subseteq> known)"

lemma clustered_Configure: "clustered (Configure name)"
  by (simp add: clustered_def Configure_def)

lemma dom_update: "fst ` set (AList.update k v al) = insert k (fst ` set al)"
  by (induction al) auto

lemma keys_add_all: "fst ` set (add_all k xs m) = insert k (fst ` set m)"
  by (simp add: add_all_def dom_update)

named_theorems config_defs
declare settings_def [config_defs] MainResource_def [config_defs] WorkerPool_def [config_defs] DefaultWorkerPool_def [config_defs]
  config_Pool_def [config_defs] config_Cluster_def [config_defs] CustomResourceDefinitions_def [config_defs]
  ReconcilerWatches_def [config_defs] config_Watches_def [config_defs] config_Watch_def [config_defs]
  ReconcilerWatch_def [config_defs] ReconcilerCommands_def [config_defs] config_Commands_def [config_defs]
  config_Reconciler_def [config_defs] config_FinalizerName_def [config_defs] FinalizerDomain_def [config_defs]
  RequireLease_def [config_defs] addOption_def [config_defs] StringOption_def [config_defs] StringArrayOption_def [config_defs]
  DefaultedStringOption_def [config_defs] DefaultedDurationOption_def [config_defs]

end
