(* ===== verification/Controllers.thy ===== *)
theory Controllers
  imports Builder Reconcile
begin

text \<open>
  A running controller (\<open>controller/controller.go\<close>, \<open>pool.go\<close> and \<open>cluster.go\<close> of the controller manager
  library): it is made from its definition, with a worker pool for every pool name in use; a cluster
  handler per cluster puts the keys of changed objects into the queues of the pools that watch their kind.
  Health checks, contexts and logs are left out, as are filters, which no controller here has.
\<close>

section \<open>Pools\<close>

text \<open>A reconciler is known by its name in the controller; it is handed out for a kind or for a command.\<close>

datatype dispatch_key = KindKey GroupKind | CommandKey string

record pool =
  pl_size :: int
  pl_period :: duration
  pl_values :: "GroupKind \<Rightarrow> string list"
  pl_matchers :: "(string \<times> string list) list"

definition reconcilers_add :: "string \<Rightarrow> string list \<Rightarrow> string list" where
  "reconcilers_add r rs = (if r \<in> set rs then rs else rs @ [r])"

fun pool_addReconciler :: "dispatch_key \<Rightarrow> string \<Rightarrow> pool \<Rightarrow> pool" where
  "pool_addReconciler (KindKey gk) r p = p\<lparr>pl_values := (pl_values p)(gk := reconcilers_add r (pl_values p gk))\<rparr>"
| "pool_addReconciler (CommandKey cmd) r p =
     p\<lparr>pl_matchers := AList.update cmd
       (reconcilers_add r (case map_of (pl_matchers p) cmd of None \<Rightarrow> [] | Some rs \<Rightarrow> rs)) (pl_matchers p)\<rparr>"

fun getReconcilers :: "dispatch_key \<Rightarrow> pool \<Rightarrow> string list" where
  "getReconcilers (KindKey gk) p = pl_values p gk"
| "getReconcilers (CommandKey cmd) p = (case map_of (pl_matchers p) cmd of None \<Rightarrow> [] | Some rs \<Rightarrow> rs)"

section \<open>Controllers\<close>

text \<open>
  The handler of a cluster: the pools that watch a kind, and the kinds whose events really arrive, since
  the watch itself can fail.
\<close>

record ClusterHandler =
  ch_cluster :: cluster
  ch_resources :: "GroupKind \<rightharpoonup> string list"
  ch_watched :: "GroupKind list"

record 't controller =
  ct_definition :: "'t Definition"
  ct_cluster :: cluster
  ct_clusters :: Clusters
  ct_reconcilers :: "string list"
  ct_mappings :: "dispatch_key \<times> string \<times> string \<rightharpoonup> string"
  ct_finalizer :: string
  ct_handlers :: "(string \<times> ClusterHandler) list"
  ct_pools :: "(string \<times> pool) list"
  ct_crds :: "(string \<times> CustomResourceDefinition \<times> go_error option) list"

text \<open>
  The environment: the clusters of the program, the options, the API servers of the clusters, by name,
  whether a reconciler can be made, whether a kind can be watched in a cluster, and the orders in which
  the maps are visited, one for each loop.
\<close>

record config_option =
  op_changed :: bool
  op_value :: int

record 't environment =
  ne_clusters :: Clusters
  ne_option :: "string \<Rightarrow> config_option option"
  ne_crds :: "string \<Rightarrow> crd_server"
  ne_reconciler :: "'t \<Rightarrow> go_error option"
  ne_resource :: "string \<Rightarrow> GroupKind \<Rightarrow> go_error option"
  ne_order :: "nat \<Rightarrow> string list \<Rightarrow> string list"

definition PoolSizeOptionName :: "string \<Rightarrow> string \<Rightarrow> string" where
  "PoolSizeOptionName controller pool = controller @ ''.'' @ pool @ ''.pool.size''"

definition PoolResyncPeriodOptionName :: "string \<Rightarrow> string \<Rightarrow> string" where
  "PoolResyncPeriodOptionName controller pool = controller @ ''.'' @ pool @ ''.pool.resync-period''"

text \<open>The option of a pool, unless it was left alone and the option shared by all pools was not.\<close>

definition pool_option :: "'t environment \<Rightarrow> string \<Rightarrow> string \<Rightarrow> int \<Rightarrow> int" where
  "pool_option env own shared v =
     (let opt = ne_option env own;
          opt = (case ne_option env shared of
             Some s \<Rightarrow> if op_changed s \<and> (case opt of None \<Rightarrow> True | Some x \<Rightarrow> \<not> op_changed x) then Some s else opt
           | None \<Rightarrow> opt)
      in (case opt of None \<Rightarrow> v | Some x \<Rightarrow> op_value x))"

definition new_pool :: "'t environment \<Rightarrow> 't Definition \<Rightarrow> string \<Rightarrow> pool" where
  "new_pool env def name =
     (let d = (case map_of (Pools def) name of None \<Rightarrow> \<lparr>pd_name = name, pd_size = 5, pd_period = 30 * Second\<rparr> | Some d \<Rightarrow> d)
      in \<lparr>pl_size = pool_option env (PoolSizeOptionName (df_name def) name) ''pool.size'' (pd_size d),
          pl_period = pool_option env (PoolResyncPeriodOptionName (df_name def) name) ''pool.resync-period'' (pd_period d),
          pl_values = (\<lambda>_. []), pl_matchers = []\<rparr>)"

definition getPool :: "'t environment \<Rightarrow> string \<Rightarrow> 't controller \<Rightarrow> 't controller" where
  "getPool env name this =
     (if map_of (ct_pools this) name = None
      then this\<lparr>ct_pools := ct_pools this @ [(name, new_pool env (ct_definition this) name)]\<rparr> else this)"

definition get_pool :: "string \<Rightarrow> 't controller \<Rightarrow> pool option" where
  "get_pool name this = map_of (ct_pools this) name"

definition controller_GetCluster :: "'t controller \<Rightarrow> string \<Rightarrow> cluster option" where
  "controller_GetCluster this name = (if name = CLUSTER_MAIN then Some (ct_cluster this) else GetCluster (ct_clusters this) name)"

text \<open>
  A reconciler is added to a pool for a kind of a cluster or, with an empty cluster name, for a command. One
  key of a cluster and one reconciler belong to one pool.
\<close>

definition cluster_name :: "'t controller \<Rightarrow> string \<Rightarrow> string option" where
  "cluster_name this cname =
     (if cname = '''' then Some '''' else map_option cl_name (GetCluster (ct_clusters this) cname))"

definition pool_conflict :: "string \<Rightarrow> string \<Rightarrow> go_error" where
  "pool_conflict p q = OtherError (''a key can only be handled by one pool (found '' @ p @ '' and '' @ q @ '')'')"

definition claim_key ::
  "dispatch_key \<times> string \<times> string \<Rightarrow> string \<Rightarrow> 't controller \<Rightarrow> go_error + 't controller" where
  "claim_key src pool this =
     (case ct_mappings this src of
        Some mapping \<Rightarrow> if mapping \<noteq> pool then Inl (pool_conflict pool mapping) else Inr this
      | None \<Rightarrow> Inr (this\<lparr>ct_mappings := (ct_mappings this)(src \<mapsto> pool)\<rparr>))"

definition add_to_pool :: "'t environment \<Rightarrow> string \<Rightarrow> dispatch_key \<Rightarrow> string \<Rightarrow> 't controller \<Rightarrow> 't controller" where
  "add_to_pool env pool key reconciler this =
     (let this = getPool env pool this
      in this\<lparr>ct_pools := AList.map_entry pool (pool_addReconciler key reconciler) (ct_pools this)\<rparr>)"

definition addReconciler ::
  "'t environment \<Rightarrow> string \<Rightarrow> dispatch_key \<Rightarrow> string \<Rightarrow> string \<Rightarrow> 't controller \<Rightarrow> go_error + 't controller" where
  "addReconciler env cname key pool reconciler this =
     (if reconciler \<notin> set (ct_reconcilers this)
      then Inl (OtherError (''reconciler '' @ quoted reconciler @ '' not found''))
      else case cluster_name this cname of
        None \<Rightarrow> Inl (OtherError (''cluster '' @ quoted cname @ '' not found''))
      | Some cn \<Rightarrow>
          (case claim_key (key, cn, reconciler) pool this of
             Inl err \<Rightarrow> Inl err
           | Inr this \<Rightarrow> Inr (add_to_pool env pool key reconciler this)))"

section \<open>Making a controller\<close>

text \<open>The custom resources of the clusters are created first; that this fails is logged only.\<close>

definition create_crd :: "'t environment \<Rightarrow> cluster \<Rightarrow> 't controller \<Rightarrow> CustomResourceDefinition \<Rightarrow> 't controller" where
  "create_crd env c this crd =
     this\<lparr>ct_crds := ct_crds this @ [(cl_name c, crd, CreateCRDFromObject (ne_crds env (cl_name c)) crd)]\<rparr>"

definition create_crds :: "'t environment \<Rightarrow> 't controller \<Rightarrow> string \<Rightarrow> go_error + 't controller" where
  "create_crds env this n =
     (case GetCluster (ct_clusters this) n of
        None \<Rightarrow> Inl (OtherError (''cluster '' @ quoted n @ '' not found for resource definitions''))
      | Some c \<Rightarrow> Inr (foldl (create_crd env c) this (case map_of (df_crds (ct_definition this)) n of None \<Rightarrow> [] | Some l \<Rightarrow> l)))"

definition create_reconciler :: "'t environment \<Rightarrow> 't controller \<Rightarrow> string \<Rightarrow> go_error + 't controller" where
  "create_reconciler env this n =
     (case map_of (df_reconcilers (ct_definition this)) n of
        None \<Rightarrow> Inr this
      | Some t \<Rightarrow> (case ne_reconciler env t of
          Some err \<Rightarrow> Inl err
        | None \<Rightarrow> Inr (this\<lparr>ct_reconcilers := ct_reconcilers this @ [n]\<rparr>)))"

definition watch_list :: "'t Definition \<Rightarrow> string list \<Rightarrow> (string \<times> watchdef) list" where
  "watch_list def names =
     concat (map (\<lambda>cname. map (Pair cname) (case map_of (df_watches def) cname of None \<Rightarrow> [] | Some ws \<Rightarrow> ws)) names)"

definition add_watch :: "'t environment \<Rightarrow> 't controller \<Rightarrow> string \<times> watchdef \<Rightarrow> go_error + 't controller" where
  "add_watch env this = (\<lambda>(cname, w). addReconciler env cname (KindKey (wd_rtype w)) (wd_pool w) (wd_reconciler w) this)"

definition command_list :: "'t Definition \<Rightarrow> string list \<Rightarrow> cmddef list" where
  "command_list def names = concat (map (\<lambda>n. case map_of (df_commands def) n of None \<Rightarrow> [] | Some cs \<Rightarrow> cs) names)"

definition add_command :: "'t environment \<Rightarrow> 't controller \<Rightarrow> cmddef \<Rightarrow> go_error + 't controller" where
  "add_command env this cmd = addReconciler env '''' (CommandKey (cmd_key cmd)) (cmd_pool cmd) (cmd_reconciler cmd) this"

abbreviation then_try :: "go_error + 'a \<Rightarrow> ('a \<Rightarrow> go_error + 'b) \<Rightarrow> go_error + 'b" where
  "then_try r f \<equiv> case r of Inl err \<Rightarrow> Inl err | Inr x \<Rightarrow> f x"

text \<open>A controller without a main resource would be a nil dereference; it cannot be registered.\<close>

definition NewController ::
  "'t environment \<Rightarrow> 't Definition \<Rightarrow> mapping list \<Rightarrow> (go_error + 't controller) outcome" where
  "NewController env def cmp =
     (let required = Canonical (Some (RequiredClusters def))
      in case MapClusters (ne_clusters env) cmp required of
        Inl err \<Rightarrow> Ok (Inl err)
      | Inr clusters \<Rightarrow>
          (case GetCluster clusters (hd required) of
             None \<Rightarrow> Panic
           | Some c \<Rightarrow>
               let this = \<lparr>ct_definition = def, ct_cluster = c, ct_clusters = clusters, ct_reconcilers = [],
                           ct_mappings = Map.empty, ct_finalizer = def_FinalizerName def, ct_handlers = [], ct_pools = [],
                           ct_crds = []\<rparr>
               in case then_try (try_each (create_crds env) this (ne_order env 0 (map fst (df_crds def)))) (\<lambda>this.
                       then_try (try_each (create_reconciler env) this (ne_order env 1 (map fst (df_reconcilers def)))) (\<lambda>this.
                       try_each (add_watch env) this (watch_list def (ne_order env 2 (map fst (df_watches def)))))) of
                    Inl err \<Rightarrow> Ok (Inl err)
                  | Inr this \<Rightarrow>
                      (case df_main def of
                         None \<Rightarrow> Panic
                       | Some main_key \<Rightarrow>
                           Ok (then_try (addReconciler env (hd required) (KindKey main_key) DEFAULT_POOL DEFAULT_RECONCILER this) (\<lambda>this.
                               try_each (add_command env) this (command_list def (ne_order env 3 (map fst (df_commands def)))))))))"

section \<open>Watches\<close>

definition GetClusterHandler :: "string \<Rightarrow> 't controller \<Rightarrow> go_error + (ClusterHandler \<times> 't controller)" where
  "GetClusterHandler name this =
     (case controller_GetCluster this name of
        None \<Rightarrow> Inl (OtherError (''unknown cluster '' @ quoted name @ '' for '' @ quoted (df_name (ct_definition this))))
      | Some c \<Rightarrow>
          (case map_of (ct_handlers this) (cl_name c) of
             Some h \<Rightarrow> Inr (h, this)
           | None \<Rightarrow>
               let h = \<lparr>ch_cluster = c, ch_resources = Map.empty, ch_watched = []\<rparr>
               in Inr (h, this\<lparr>ct_handlers := AList.update (cl_name c) h (ct_handlers this)\<rparr>)))"

text \<open>The pools of a kind are noted before the kind is looked up, so they stay when that fails.\<close>

definition register :: "'t environment \<Rightarrow> GroupKind \<Rightarrow> string \<Rightarrow> ClusterHandler \<Rightarrow> go_error option \<times> ClusterHandler" where
  "register env key usedpool h =
     (case ch_resources h key of
        None \<Rightarrow>
          let h = h\<lparr>ch_resources := (ch_resources h)(key \<mapsto> [usedpool])\<rparr>
          in (case ne_resource env (cl_name (ch_cluster h)) key of
                Some err \<Rightarrow> (Some err, h)
              | None \<Rightarrow> (None, h\<lparr>ch_watched := ch_watched h @ [key]\<rparr>))
      | Some ps \<Rightarrow>
          (None, if usedpool \<in> set ps then h else h\<lparr>ch_resources := (ch_resources h)(key \<mapsto> ps @ [usedpool])\<rparr>))"

definition register_at ::
  "'t environment \<Rightarrow> string \<Rightarrow> GroupKind \<Rightarrow> string \<Rightarrow> 't controller \<Rightarrow> go_error + (go_error option \<times> 't controller)" where
  "register_at env cname key pool this =
     then_try (GetClusterHandler cname this) (\<lambda>(h, this).
       let this = getPool env pool this; (err, h) = register env key pool h
       in Inr (err, this\<lparr>ct_handlers := AList.update (cl_name (ch_cluster h)) h (ct_handlers this)\<rparr>))"

definition register_watch :: "'t environment \<Rightarrow> 't controller \<Rightarrow> string \<times> watchdef \<Rightarrow> go_error + 't controller" where
  "register_watch env this = (\<lambda>(cname, w).
     map_sum id snd (register_at env cname (wd_rtype w) (wd_pool w) this))"

text \<open>
  The reconcilers are set up before; the theories of the reconcilers tell what that does. An error of an
  additional watch is ignored.
\<close>

definition Prepare :: "'t environment \<Rightarrow> 't controller \<Rightarrow> (go_error + 't controller) outcome" where
  "Prepare env this =
     (case df_main (ct_definition this) of
        None \<Rightarrow> Panic
      | Some main_key \<Rightarrow>
          Ok (case register_at env CLUSTER_MAIN main_key DEFAULT_POOL this of
                Inl err \<Rightarrow> Inl err
              | Inr (Some err, _) \<Rightarrow> Inl err
              | Inr (None, this) \<Rightarrow>
                  try_each (register_watch env) this
                    (watch_list (ct_definition this) (ne_order env 4 (map fst (df_watches (ct_definition this)))))))"

text \<open>
  The check before: the main resource and the kinds of all watches are looked up, but in the main cluster,
  whatever cluster a watch is for.
\<close>

definition check_watch :: "'t environment \<Rightarrow> 't controller \<Rightarrow> string \<times> watchdef \<Rightarrow> go_error + 't controller" where
  "check_watch env this = (\<lambda>(cname, w).
     then_try (GetClusterHandler cname this) (\<lambda>(h, this).
       case ne_resource env (cl_name (ct_cluster this)) (wd_rtype w) of Some err \<Rightarrow> Inl err | None \<Rightarrow> Inr this))"

definition Check :: "'t environment \<Rightarrow> 't controller \<Rightarrow> (go_error + 't controller) outcome" where
  "Check env this =
     (case df_main (ct_definition this) of
        None \<Rightarrow> Panic
      | Some main_key \<Rightarrow>
          Ok (then_try (GetClusterHandler CLUSTER_MAIN this) (\<lambda>(h, this).
             case ne_resource env (cl_name (ct_cluster this)) main_key of
               Some err \<Rightarrow> Inl err
             | None \<Rightarrow> try_each (check_watch env) this
                 (watch_list (ct_definition this) (ne_order env 5 (map fst (df_watches (ct_definition this))))))))"

section \<open>Events\<close>

text \<open>
  An event of an object puts its key into the queues of the pools of its kind; the answer is what is
  added to which pool. An object of a kind without a watch would be a nil dereference.
\<close>

definition EnqueueObject :: "Object \<Rightarrow> ClusterHandler \<Rightarrow> (string \<times> string) list outcome" where
  "EnqueueObject obj h =
     (case ch_resources h (o_GroupKind obj) of
        None \<Rightarrow> Panic
      | Some ps \<Rightarrow> Ok (map (\<lambda>p. (p, EncodeObjectKeyForObject (cl_name (ch_cluster h)) obj)) ps))"

text \<open>Without filters all three kinds of events do the same.\<close>

definition objectAdd :: "Object \<Rightarrow> ClusterHandler \<Rightarrow> (string \<times> string) list outcome" where
  "objectAdd obj h = EnqueueObject obj h"

definition objectUpdate :: "Object \<Rightarrow> Object \<Rightarrow> ClusterHandler \<Rightarrow> (string \<times> string) list outcome" where
  "objectUpdate old new h = EnqueueObject new h"

definition objectDelete :: "Object \<Rightarrow> ClusterHandler \<Rightarrow> (string \<times> string) list outcome" where
  "objectDelete obj h = EnqueueObject obj h"

definition handler_EnqueueKey :: "ClusterObjectKey \<Rightarrow> ClusterHandler \<Rightarrow> go_error + (string \<times> string) list" where
  "handler_EnqueueKey key h =
     (case ch_resources h (ck_groupKind key) of
        None \<Rightarrow> Inl (OtherError (''cluster '' @ quoted (cl_name (ch_cluster h)) @ '': no resource info''))
      | Some ps \<Rightarrow> Inr (map (\<lambda>p. (p, EncodeObjectKey (cl_name (ch_cluster h)) (ck_objectKey key))) ps))"

definition controller_EnqueueKey :: "ClusterObjectKey \<Rightarrow> 't controller \<Rightarrow> (go_error + (string \<times> string) list) outcome" where
  "controller_EnqueueKey key this =
     (case GetById (ct_clusters this) (ck_cluster key) of
        None \<Rightarrow> Ok (Inl (OtherError (''cluster with id '' @ quoted (ck_cluster key) @ '' not found'')))
      | Some c \<Rightarrow>
          (case map_of (ct_handlers this) (cl_name c) of
             None \<Rightarrow> Panic
           | Some h \<Rightarrow> Ok (handler_EnqueueKey key h)))"

definition EnqueueCommand :: "string \<Rightarrow> 't controller \<Rightarrow> go_error + (string \<times> string) list" where
  "EnqueueCommand cmd this =
     (let ps = filter (\<lambda>(_, p). getReconcilers (CommandKey cmd) p \<noteq> []) (ct_pools this)
      in if ps = [] then Inl (OtherError (''no handler found for command '' @ quoted cmd))
         else Inr (map (\<lambda>(name, _). (name, EncodeCommandKey cmd)) ps))"

end
