(* ===== verification/Worker.thy ===== *)
theory Worker
  imports Controllers
begin

text \<open>
  The worker of a pool (\<open>controller/worker.go\<close>): one round takes a key from the queue, decodes it, looks
  the object up, calls the reconcilers the pool has for the kind or for the command, and puts the key back
  or not. The reconcilers are a parameter, which passes a world through; so are the health checks left out.
\<close>

section \<open>Calls of reconcilers\<close>

datatype reconcile_call =
    Command string
  | Deleted ClusterObjectKey
  | Delete Object
  | DoReconcile Object

type_synonym 'w reconcilers = "string \<Rightarrow> reconcile_call \<Rightarrow> 'w \<Rightarrow> Status \<times> 'w"

text \<open>A reconciler around another one (\<open>reconcilers/nested.go\<close>) that does nothing where there is none.\<close>

fun nested_call :: "(reconcile_call \<Rightarrow> 'w \<Rightarrow> Status \<times> 'w) option \<Rightarrow> reconcile_call \<Rightarrow> 'w \<Rightarrow> Status \<times> 'w" where
  "nested_call (Some nested) call w = nested call w"
| "nested_call None (Command cmd) w = (RFailed (Some (OtherError (''unknown command '' @ quoted cmd))), w)"
| "nested_call None _ w = (RSucceeded, w)"

text \<open>The reconcilers one after the other; the state of the loop is that of \<open>worker_step\<close>.\<close>

definition call_step ::
  "'w reconcilers \<Rightarrow> bool \<Rightarrow> reconcile_call \<Rightarrow> (bool \<times> go_error option \<times> duration \<times> string list) \<times> 'w \<Rightarrow> string \<Rightarrow>
   (bool \<times> go_error option \<times> duration \<times> string list) \<times> 'w" where
  "call_step run has_obj call = (\<lambda>(s, w) r. let (status, w) = run r call w in (worker_step has_obj s status, w))"

definition tickCmd :: string where
  "tickCmd = ''TICK''"

definition tick_period :: duration where
  "tick_period = 30 * Second"

definition object_call :: "ClusterObjectKey \<Rightarrow> Object option \<Rightarrow> bool \<times> reconcile_call" where
  "object_call key r =
     (case r of
        None \<Rightarrow> (True, Deleted key)
      | Some x \<Rightarrow> if IsDeleting (o_meta x) then (True, Delete x) else (False, DoReconcile x))"

text \<open>
  A round for one key: the operations on the queue, with the keys they are for, the messages of the
  events on the object, and the world.
\<close>

definition after_calls ::
  "pool \<Rightarrow> string \<Rightarrow> bool \<Rightarrow> (bool \<times> go_error option \<times> duration \<times> string list) \<times> 'w \<Rightarrow>
   (string \<times> queue_op) list \<times> string list \<times> 'w" where
  "after_calls p key deleted = (\<lambda>(s, w).
     (map (Pair key) (queue_ops (pl_period p) deleted s), (case s of (_, _, _, msgs) \<Rightarrow> msgs), w))"

definition processNextWorkItem ::
  "'w reconcilers \<Rightarrow> 't controller \<Rightarrow> pool \<Rightarrow> string \<Rightarrow> 'w \<Rightarrow> ((string \<times> queue_op) list \<times> string list \<times> 'w) outcome" where
  "processNextWorkItem run ct p key w =
     bind_outcome (DecodeKey (ct_clusters ct) key) (\<lambda>(cmd, rkey, r, err).
       if err \<noteq> None \<and> \<not> IsNotFound err then Ok ([(key, QAddRateLimited)], [], w)
       else let s = ((True, None, -1, []), w); rs = getReconcilers (CommandKey cmd) p
       in if cmd \<noteq> '''' \<and> rs = []
          then Ok (if cmd = tickCmd then [(tickCmd, QAddAfter tick_period)] else [], [], w)
          else let s = (if cmd \<noteq> '''' then foldl (call_step run False (Command cmd)) s rs else s)
          in Ok (case rkey of
               None \<Rightarrow> after_calls p key False s
             | Some k \<Rightarrow>
                 let (deleted, call) = object_call k r
                 in after_calls p key deleted
                      (foldl (call_step run (r \<noteq> None) call) s (getReconcilers (KindKey (ck_groupKind k)) p))))"

section \<open>One round for an object\<close>

lemma processNextWorkItem_object:
  assumes "DecodeKey (ct_clusters ct) q = Ok ('''', Some k, r, err)" and "err = None \<or> IsNotFound err"
  shows "processNextWorkItem run ct p q w =
    Ok (after_calls p q (fst (object_call k r))
      (foldl (call_step run (r \<noteq> None) (snd (object_call k r))) ((True, None, -1, []), w)
        (getReconcilers (KindKey (ck_groupKind k)) p)))"
  using assms by (auto simp: processNextWorkItem_def Let_def split: prod.splits)

text \<open>The statuses of the calls, in order, and the world after them.\<close>

fun call_all :: "'w reconcilers \<Rightarrow> reconcile_call \<Rightarrow> string list \<Rightarrow> 'w \<Rightarrow> Status list \<times> 'w" where
  "call_all run call [] w = ([], w)"
| "call_all run call (r # rs) w =
     (let (status, w) = run r call w; (ss, w) = call_all run call rs w in (status # ss, w))"

lemma foldl_call_step:
  "foldl (call_step run has_obj call) (s, w) rs =
   (foldl (worker_step has_obj) s (fst (call_all run call rs w)), snd (call_all run call rs w))"
proof (induction rs arbitrary: s w)
  case (Cons r rs)
  obtain status w' where "run r call w = (status, w')" by (cases "run r call w")
  with Cons show ?case by (simp add: call_step_def Let_def split: prod.split)
qed simp


end
