(* ===== verification/Dispatch.thy ===== *)
theory Dispatch
  imports Worker
begin

text \<open>
  From the definition of a controller to the calls of its reconcilers: what \<open>NewController\<close> and \<open>Prepare\<close>
  make of the watches, and the way of an event through the work queue to the reconciler.
\<close>

section \<open>Which reconciler a pool has for a key\<close>

definition serves :: "'t controller \<Rightarrow> string \<Rightarrow> dispatch_key \<Rightarrow> string \<Rightarrow> bool" where
  "serves ct pool key r \<longleftrightarrow> (\<exists>p. get_pool pool ct = Some p \<and> r \<in> set (getReconcilers key p))"

text \<open>What making pools leaves alone.\<close>

definition same_frame :: "'t controller \<Rightarrow> 't controller \<Rightarrow> bool" where
  "same_frame ct ct' \<longleftrightarrow>
     ct_definition ct' = ct_definition ct \<and> ct_cluster ct' = ct_cluster ct \<and> ct_clusters ct' = ct_clusters ct"

lemma same_frame_refl [simp]: "same_frame ct ct"
  by (simp add: same_frame_def)

lemma same_frame_trans: "same_frame a b \<Longrightarrow> same_frame b c \<Longrightarrow> same_frame a c"
  by (simp add: same_frame_def)

lemma getReconcilers_add:
  "set (getReconcilers k (pool_addReconciler key r p)) = set (getReconcilers k p) \<union> (if k = key then {r} else {})"
  by (cases key; cases k) (auto simp: reconcilers_add_def update_conv' split: option.splits)

lemma new_pool_empty [simp]: "getReconcilers key (new_pool env def name) = []"
  by (cases key) (simp_all add: new_pool_def Let_def)

lemma serves_getPool [simp]: "serves (getPool env name ct) pool key r = serves ct pool key r"
  by (auto simp: serves_def get_pool_def getPool_def map_of_append split: option.splits if_splits)

lemma get_pool_getPool: "\<exists>p. get_pool name (getPool env name ct) = Some p"
  by (auto simp: get_pool_def getPool_def map_add_def)

lemma getPool_frame [simp]: "same_frame ct (getPool env name ct)" "ct_handlers (getPool env name ct) = ct_handlers ct"
  "ct_reconcilers (getPool env name ct) = ct_reconcilers ct"
  by (simp_all add: getPool_def same_frame_def)

lemma serves_add_to_pool:
  "serves (add_to_pool env pool key r ct) pool' key' r' \<longleftrightarrow> serves ct pool' key' r' \<or> (pool', key', r') = (pool, key, r)"
proof -
  obtain p where p: "map_of (ct_pools (getPool env pool ct)) pool = Some p"
    using get_pool_getPool [of pool env ct] by (auto simp: get_pool_def)
  have "serves (add_to_pool env pool key r ct) pool' key' r' \<longleftrightarrow>
      serves (getPool env pool ct) pool' key' r' \<or> (pool', key', r') = (pool, key, r)"
    using p by (auto simp: serves_def get_pool_def add_to_pool_def Let_def map_of_map_entry getReconcilers_add split: if_splits)
  then show ?thesis by simp
qed

lemma claim_key_frame:
  "claim_key src pool ct = Inr ct' \<Longrightarrow> same_frame ct ct' \<and> ct_pools ct' = ct_pools ct \<and> ct_handlers ct' = ct_handlers ct \<and>
    ct_reconcilers ct' = ct_reconcilers ct"
  by (auto simp: claim_key_def same_frame_def split: option.splits if_splits)

lemma addReconciler_serves:
  assumes "addReconciler env cname key pool r ct = Inr ct'"
  shows "serves ct' pool' key' r' \<longleftrightarrow> serves ct pool' key' r' \<or> (pool', key', r') = (pool, key, r)"
    and "same_frame ct ct'" and "ct_reconcilers ct' = ct_reconcilers ct" and "ct_handlers ct' = ct_handlers ct"
    and "r \<in> set (ct_reconcilers ct)"
proof -
  obtain cn ct1 where c: "claim_key (key, cn, r) pool ct = Inr ct1" and ct': "ct' = add_to_pool env pool key r ct1"
    and r: "r \<in> set (ct_reconcilers ct)"
    using assms by (auto simp: addReconciler_def split: if_splits option.splits sum.splits)
  note c = claim_key_frame [OF c]
  have "serves ct1 pool' key' r' = serves ct pool' key' r'" using c by (simp add: serves_def get_pool_def)
  then show "serves ct' pool' key' r' \<longleftrightarrow> serves ct pool' key' r' \<or> (pool', key', r') = (pool, key, r)"
    by (simp only: ct' serves_add_to_pool)
  have "same_frame ct1 ct' \<and> ct_reconcilers ct' = ct_reconcilers ct1 \<and> ct_handlers ct' = ct_handlers ct1"
    by (simp add: ct' add_to_pool_def Let_def getPool_def same_frame_def)
  with c show "same_frame ct ct'" "ct_reconcilers ct' = ct_reconcilers ct" "ct_handlers ct' = ct_handlers ct"
    by (auto intro: same_frame_trans)
  show "r \<in> set (ct_reconcilers ct)" by (rule r)
qed

section \<open>The pools of a new controller\<close>

text \<open>What the definition asks for: each watch, the main resource, and each command.\<close>

definition wanted :: "'t Definition \<Rightarrow> string \<Rightarrow> dispatch_key \<Rightarrow> string \<Rightarrow> bool" where
  "wanted def pool key r \<longleftrightarrow>
     (\<exists>(_, ws)\<in>set (df_watches def). \<exists>w\<in>set ws. (pool, key, r) = (wd_pool w, KindKey (wd_rtype w), wd_reconciler w)) \<or>
     (\<exists>gk. df_main def = Some gk \<and> (pool, key, r) = (DEFAULT_POOL, KindKey gk, DEFAULT_RECONCILER)) \<or>
     (\<exists>(_, cs)\<in>set (df_commands def). \<exists>c\<in>set cs. (pool, key, r) = (cmd_pool c, CommandKey (cmd_key c), cmd_reconciler c))"

lemma try_each_serves:
  assumes "try_each f ct xs = Inr ct'"
    and "\<And>ct x ct'. f ct x = Inr ct' \<Longrightarrow>
      (\<forall>p k r. serves ct' p k r \<longleftrightarrow> serves ct p k r \<or> (p, k, r) = g x) \<and> same_frame ct ct'"
  shows "(serves ct' p k r \<longleftrightarrow> serves ct p k r \<or> (\<exists>x\<in>set xs. (p, k, r) = g x)) \<and> same_frame ct ct'"
  using assms(1)
proof (induction xs arbitrary: ct)
  case (Cons x xs)
  then obtain c where c: "f ct x = Inr c" "try_each f c xs = Inr ct'" by (cases "f ct x") auto
  from Cons.IH [OF c(2)] assms(2) [OF c(1)] show ?case by (auto intro: same_frame_trans)
qed simp

lemma add_watch_serves:
  "add_watch env ct x = Inr ct' \<Longrightarrow>
   (\<forall>p k r. serves ct' p k r \<longleftrightarrow> serves ct p k r \<or>
      (p, k, r) = (wd_pool (snd x), KindKey (wd_rtype (snd x)), wd_reconciler (snd x))) \<and> same_frame ct ct'"
  by (cases x) (auto simp: add_watch_def dest: addReconciler_serves(2) simp: addReconciler_serves(1))

lemma add_command_serves:
  "add_command env ct x = Inr ct' \<Longrightarrow>
   (\<forall>p k r. serves ct' p k r \<longleftrightarrow> serves ct p k r \<or> (p, k, r) = (cmd_pool x, CommandKey (cmd_key x), cmd_reconciler x)) \<and>
   same_frame ct ct'"
  by (auto simp: add_command_def dest: addReconciler_serves(2) simp: addReconciler_serves(1))

lemma add_watches_serves:
  assumes "try_each (add_watch env) ct xs = Inr ct'"
  shows "(serves ct' p k r \<longleftrightarrow> serves ct p k r \<or>
      (\<exists>x\<in>set xs. (p, k, r) = (wd_pool (snd x), KindKey (wd_rtype (snd x)), wd_reconciler (snd x)))) \<and> same_frame ct ct'"
  by (rule try_each_serves [OF assms]) (rule add_watch_serves)

lemma add_commands_serves:
  assumes "try_each (add_command env) ct xs = Inr ct'"
  shows "(serves ct' p k r \<longleftrightarrow> serves ct p k r \<or>
      (\<exists>x\<in>set xs. (p, k, r) = (cmd_pool x, CommandKey (cmd_key x), cmd_reconciler x))) \<and> same_frame ct ct'"
  by (rule try_each_serves [OF assms]) (rule add_command_serves)

text \<open>A definition as the builder makes them, and an environment that visits every key of a map.\<close>

definition distinct_keys :: "'t Definition \<Rightarrow> bool" where
  "distinct_keys def \<longleftrightarrow> distinct (map fst (df_watches def)) \<and> distinct (map fst (df_commands def)) \<and> distinct (map fst (df_crds def))"

definition visits_all :: "'t environment \<Rightarrow> bool" where
  "visits_all env \<longleftrightarrow> (\<forall>i xs. set (ne_order env i xs) = set xs)"

lemma visited_entries:
  assumes "distinct (map fst m)" and "set names = set (map fst m)"
  shows "(\<exists>n\<in>set names. P n (case map_of m n of None \<Rightarrow> [] | Some l \<Rightarrow> l)) \<longleftrightarrow> (\<exists>(n, l)\<in>set m. P n l)"
proof
  assume "\<exists>n\<in>set names. P n (case map_of m n of None \<Rightarrow> [] | Some l \<Rightarrow> l)"
  then obtain n where n: "n \<in> fst ` set m" "P n (case map_of m n of None \<Rightarrow> [] | Some l \<Rightarrow> l)" using assms(2) by auto
  then obtain l where l: "(n, l) \<in> set m" by auto
  with assms(1) n(2) have "P n l" by simp
  with l show "\<exists>(n, l)\<in>set m. P n l" by blast
next
  assume "\<exists>(n, l)\<in>set m. P n l"
  then obtain n l where l: "(n, l) \<in> set m" "P n l" by blast
  then have "n \<in> set names" "map_of m n = Some l" using assms by force+
  with l(2) show "\<exists>n\<in>set names. P n (case map_of m n of None \<Rightarrow> [] | Some l \<Rightarrow> l)" by (intro bexI [of _ n]) simp_all
qed

lemma ex_watch_list:
  assumes "distinct_keys def" and "visits_all env"
  shows "(\<exists>x\<in>set (watch_list def (ne_order env i (map fst (df_watches def)))). P x) \<longleftrightarrow>
    (\<exists>(cname, ws)\<in>set (df_watches def). \<exists>w\<in>set ws. P (cname, w))"
  using visited_entries [of "df_watches def" "ne_order env i (map fst (df_watches def))" "\<lambda>n ws. \<exists>w\<in>set ws. P (n, w)"] assms
  by (simp add: watch_list_def distinct_keys_def visits_all_def Bex_def) blast

lemma ex_command_list:
  assumes "distinct_keys def" and "visits_all env"
  shows "(\<exists>x\<in>set (command_list def (ne_order env i (map fst (df_commands def)))). P x) \<longleftrightarrow>
    (\<exists>(n, cs)\<in>set (df_commands def). \<exists>c\<in>set cs. P c)"
  using visited_entries [of "df_commands def" "ne_order env i (map fst (df_commands def))" "\<lambda>n cs. \<exists>c\<in>set cs. P c"] assms
  by (simp add: command_list_def distinct_keys_def visits_all_def Bex_def) blast

lemma create_crds_frame:
  "create_crds env ct n = Inr ct' \<Longrightarrow> same_frame ct ct' \<and> ct_pools ct' = ct_pools ct \<and> ct_handlers ct' = ct_handlers ct"
proof -
  have "same_frame ct (foldl (create_crd env c) ct crds) \<and> ct_pools (foldl (create_crd env c) ct crds) = ct_pools ct \<and>
      ct_handlers (foldl (create_crd env c) ct crds) = ct_handlers ct" for ct c crds
    by (induction crds arbitrary: ct) (auto simp: create_crd_def same_frame_def)
  then show "create_crds env ct n = Inr ct' \<Longrightarrow> ?thesis" by (auto simp: create_crds_def split: option.splits)
qed

lemma create_reconciler_frame:
  "create_reconciler env ct n = Inr ct' \<Longrightarrow> same_frame ct ct' \<and> ct_pools ct' = ct_pools ct \<and> ct_handlers ct' = ct_handlers ct"
  by (auto simp: create_reconciler_def same_frame_def split: option.splits)

lemma try_each_frame:
  assumes "try_each f ct xs = Inr ct'"
    and "\<And>ct x ct'. f ct x = Inr ct' \<Longrightarrow> same_frame ct ct' \<and> ct_pools ct' = ct_pools ct \<and> ct_handlers ct' = ct_handlers ct"
  shows "same_frame ct ct' \<and> ct_pools ct' = ct_pools ct \<and> ct_handlers ct' = ct_handlers ct"
  by (rule try_each_inv [OF assms(1)]) (auto dest!: assms(2) intro: same_frame_trans)

text \<open>The steps of \<open>NewController\<close> when it succeeds.\<close>

lemma NewController_Inr:
  assumes "NewController env def cmp = Ok (Inr ct)"
  obtains clusters c ct1 ct2 ct3 ct4 main_key where
    "MapClusters (ne_clusters env) cmp (Canonical (Some (RequiredClusters def))) = Inr clusters"
    "GetCluster clusters (hd (Canonical (Some (RequiredClusters def)))) = Some c"
    "try_each (create_crds env) \<lparr>ct_definition = def, ct_cluster = c, ct_clusters = clusters, ct_reconcilers = [],
       ct_mappings = Map.empty, ct_finalizer = def_FinalizerName def, ct_handlers = [], ct_pools = [], ct_crds = []\<rparr>
       (ne_order env 0 (map fst (df_crds def))) = Inr ct1"
    "try_each (create_reconciler env) ct1 (ne_order env 1 (map fst (df_reconcilers def))) = Inr ct2"
    "try_each (add_watch env) ct2 (watch_list def (ne_order env 2 (map fst (df_watches def)))) = Inr ct3"
    "df_main def = Some main_key"
    "addReconciler env (hd (Canonical (Some (RequiredClusters def)))) (KindKey main_key) DEFAULT_POOL DEFAULT_RECONCILER ct3 =
       Inr ct4"
    "try_each (add_command env) ct4 (command_list def (ne_order env 3 (map fst (df_commands def)))) = Inr ct"
  using assms unfolding NewController_def Let_def
  by (auto split: sum.splits option.splits)

text \<open>
  The dispatch table of a controller: for every definition and whatever the orders in which its maps
  are visited, a controller that could be made has a reconciler in a pool for a kind or a command exactly
  if the definition says so: by a watch, by its main resource, whose reconciler and pool are the default
  ones, or by a command.
\<close>

lemma pools_serve_wanted:
  assumes "NewController env def cmp = Ok (Inr ct)" and "distinct_keys def" and "visits_all env"
  shows "serves ct pool key r \<longleftrightarrow> wanted def pool key r"
proof -
  from NewController_Inr [OF assms(1)] obtain clusters c ct1 ct2 ct3 ct4 main_key where
    crds: "try_each (create_crds env) \<lparr>ct_definition = def, ct_cluster = c, ct_clusters = clusters, ct_reconcilers = [],
       ct_mappings = Map.empty, ct_finalizer = def_FinalizerName def, ct_handlers = [], ct_pools = [], ct_crds = []\<rparr>
       (ne_order env 0 (map fst (df_crds def))) = Inr ct1"
    and recs: "try_each (create_reconciler env) ct1 (ne_order env 1 (map fst (df_reconcilers def))) = Inr ct2"
    and watches: "try_each (add_watch env) ct2 (watch_list def (ne_order env 2 (map fst (df_watches def)))) = Inr ct3"
    and main_key: "df_main def = Some main_key"
    and add: "addReconciler env (hd (Canonical (Some (RequiredClusters def)))) (KindKey main_key) DEFAULT_POOL DEFAULT_RECONCILER ct3 =
       Inr ct4"
    and cmds: "try_each (add_command env) ct4 (command_list def (ne_order env 3 (map fst (df_commands def)))) = Inr ct"
    by metis
  have "\<not> serves ct2 pool key r"
    using try_each_frame [OF crds create_crds_frame] try_each_frame [OF recs create_reconciler_frame]
    by (simp add: serves_def get_pool_def)
  moreover have "serves ct3 pool key r \<longleftrightarrow> serves ct2 pool key r \<or>
      (\<exists>x\<in>set (watch_list def (ne_order env 2 (map fst (df_watches def)))).
         (pool, key, r) = (wd_pool (snd x), KindKey (wd_rtype (snd x)), wd_reconciler (snd x)))"
    using add_watches_serves [OF watches] by blast
  moreover have "serves ct4 pool key r \<longleftrightarrow> serves ct3 pool key r \<or> (pool, key, r) = (DEFAULT_POOL, KindKey main_key, DEFAULT_RECONCILER)"
    by (rule addReconciler_serves(1) [OF add])
  moreover have "serves ct pool key r \<longleftrightarrow> serves ct4 pool key r \<or>
      (\<exists>x\<in>set (command_list def (ne_order env 3 (map fst (df_commands def)))).
         (pool, key, r) = (cmd_pool x, CommandKey (cmd_key x), cmd_reconciler x))"
    using add_commands_serves [OF cmds] by blast
  ultimately show ?thesis
    using main_key unfolding ex_watch_list [OF assms(2,3)] ex_command_list [OF assms(2,3)] by (simp add: wanted_def)
qed

section \<open>The clusters of a controller\<close>

text \<open>Clusters with the same name are the same.\<close>

definition named_apart :: "Clusters \<Rightarrow> bool" where
  "named_apart cls \<longleftrightarrow>
     (\<forall>n m c d. GetCluster cls n = Some c \<longrightarrow> GetCluster cls m = Some d \<longrightarrow> cl_name c = cl_name d \<longrightarrow> c = d)"

lemma GetEffective_Add: "GetEffective (Clusters_Add name c cls) n = (if n = cl_name c then Some c else GetEffective cls n)"
  by (simp add: GetEffective_def Clusters_Add_def)

definition mapped_ok :: "Clusters \<Rightarrow> Clusters \<Rightarrow> bool" where
  "mapped_ok cls m \<longleftrightarrow>
     (\<forall>n c. GetCluster m n = Some c \<longrightarrow> GetEffective m (cl_name c) = Some c \<and> (\<exists>k. GetCluster cls k = Some c))"

lemma mapped_ok_Add:
  assumes "named_apart cls" and "mapped_ok cls m" and "GetCluster cls k = Some c"
  shows "mapped_ok cls (Clusters_Add name c m)"
proof -
  have "d = c" if "GetCluster m n = Some d" "cl_name d = cl_name c" for n d
    using that assms unfolding mapped_ok_def named_apart_def by metis
  with assms(2,3) show ?thesis by (auto simp: mapped_ok_def GetEffective_Add)
qed

lemma map_step_ok:
  assumes "map_step cls cmp (m, mc) name = Inr (m', mc')" and "named_apart cls" and "mapped_ok cls m"
    and "\<And>c. mc = Some c \<Longrightarrow> \<exists>k. GetCluster cls k = Some c"
  shows "mapped_ok cls m' \<and> (\<forall>c. mc' = Some c \<longrightarrow> (\<exists>k. GetCluster cls k = Some c)) \<and> mc' \<noteq> None"
proof (cases mc)
  case None
  with assms(1) obtain c where "GetCluster cls (MapCluster True name cmp) = Some c" "mc' = Some c"
    "m' = Clusters_Add name c (Clusters_Add CLUSTER_MAIN c m)"
    by (auto split: option.splits)
  with assms(2,3) show ?thesis using mapped_ok_Add by blast
next
  case (Some d)
  then obtain c k where "m' = Clusters_Add name c m" "mc' = Some d" "GetCluster cls k = Some c"
    using assms(1,4) by (auto simp: Let_def split: option.splits)
  with assms(2,3,4) Some show ?thesis using mapped_ok_Add by blast
qed

lemma map_names_ok:
  assumes "named_apart cls"
  shows "map_names cls cmp (m, mc) names = Inr r \<Longrightarrow> mapped_ok cls m \<Longrightarrow>
    (\<And>c. mc = Some c \<Longrightarrow> \<exists>k. GetCluster cls k = Some c) \<Longrightarrow> mapped_ok cls r"
proof (induction names arbitrary: m mc)
  case (Cons name names)
  then obtain m' mc' where step: "map_step cls cmp (m, mc) name = Inr (m', mc')" "map_names cls cmp (m', mc') names = Inr r"
    by (auto split: sum.splits)
  from map_step_ok [OF step(1) assms Cons.prems(2,3)] show ?case using Cons.IH [OF step(2)] by blast
qed simp

lemma MapClusters_ok: "MapClusters cls cmp names = Inr m \<Longrightarrow> named_apart cls \<Longrightarrow> mapped_ok cls m"
  using map_names_ok [of cls cmp NewClusters None names m]
  by (simp add: MapClusters_def mapped_ok_def GetCluster_def NewClusters_def)

text \<open>The clusters a program creates are of this kind.\<close>

lemma found_named_apart:
  assumes "found_ok env defs cls" and "names_kept env defs"
  shows "named_apart cls"
proof -
  have "c = d" if "GetCluster cls n = Some c" "GetCluster cls m = Some d" "cl_name c = cl_name d" for n m c d
  proof -
    have "resolves env defs n c" "resolves env defs m d" using that(1,2) assms(1) by (auto simp: found_ok_def)
    from resolves_created [OF this(1) assms(2)] resolves_created [OF this(2) assms(2)] that(3) show ?thesis by auto
  qed
  then show ?thesis unfolding named_apart_def by blast
qed

section \<open>The watches of a prepared controller\<close>

definition watches_in :: "'t controller \<Rightarrow> string \<Rightarrow> GroupKind \<Rightarrow> string \<Rightarrow> bool" where
  "watches_in ct cn gk pool \<longleftrightarrow>
     (\<exists>h ps. map_of (ct_handlers ct) cn = Some h \<and> ch_resources h gk = Some ps \<and> pool \<in> set ps)"

definition handlers_ok :: "'t controller \<Rightarrow> bool" where
  "handlers_ok ct \<longleftrightarrow> (\<forall>cn h. map_of (ct_handlers ct) cn = Some h \<longrightarrow> cl_name (ch_cluster h) = cn)"

lemma register_resources:
  "ch_resources (snd (register env gk pool h)) k =
     (if k = gk then Some (case ch_resources h gk of None \<Rightarrow> [pool] | Some ps \<Rightarrow> if pool \<in> set ps then ps else ps @ [pool])
      else ch_resources h k)"
  "ch_cluster (snd (register env gk pool h)) = ch_cluster h"
  by (auto simp: register_def Let_def split: option.splits)

lemma GetClusterHandler_ok:
  assumes "GetClusterHandler name ct = Inr (h, ct')" and "handlers_ok ct"
  obtains c where "controller_GetCluster ct name = Some c" and "cl_name (ch_cluster h) = cl_name c"
    and "handlers_ok ct'" and "same_frame ct ct'" and "ct_pools ct' = ct_pools ct"
    and "map_of (ct_handlers ct') (cl_name c) = Some h"
    and "\<And>cn gk p. watches_in ct' cn gk p \<longleftrightarrow> watches_in ct cn gk p"
proof -
  obtain c where c: "controller_GetCluster ct name = Some c"
    using assms(1) by (auto simp: GetClusterHandler_def split: option.splits)
  show thesis
  proof (cases "map_of (ct_handlers ct) (cl_name c)")
    case None
    with assms(1) c have "h = \<lparr>ch_cluster = c, ch_resources = Map.empty, ch_watched = []\<rparr>"
      "ct' = ct\<lparr>ct_handlers := AList.update (cl_name c) h (ct_handlers ct)\<rparr>"
      by (auto simp: GetClusterHandler_def Let_def)
    with None assms(2) c show thesis
      by (intro that [OF c]) (auto simp: handlers_ok_def update_conv' same_frame_def watches_in_def)
  next
    case (Some h')
    with assms(1) c have "h = h'" "ct' = ct" by (auto simp: GetClusterHandler_def)
    with Some assms(2) show thesis by (intro that [OF c]) (auto simp: handlers_ok_def)
  qed
qed

lemma register_at_ok:
  assumes "register_at env name gk pool ct = Inr (err, ct')" and "handlers_ok ct"
  obtains c where "controller_GetCluster ct name = Some c" and "handlers_ok ct'" and "same_frame ct ct'"
    and "\<And>p k r. serves ct' p k r = serves ct p k r"
    and "\<And>cn k p. watches_in ct' cn k p \<longleftrightarrow> watches_in ct cn k p \<or> (cn, k, p) = (cl_name c, gk, pool)"
proof -
  obtain h ct1 where h: "GetClusterHandler name ct = Inr (h, ct1)"
    and ct': "ct' = (getPool env pool ct1)\<lparr>ct_handlers :=
      AList.update (cl_name (ch_cluster (snd (register env gk pool h)))) (snd (register env gk pool h)) (ct_handlers ct1)\<rparr>"
    using assms(1) by (auto simp: register_at_def Let_def split: sum.splits prod.splits)
  from GetClusterHandler_ok [OF h assms(2)] obtain c where c: "controller_GetCluster ct name = Some c"
    "cl_name (ch_cluster h) = cl_name c" "handlers_ok ct1" "same_frame ct ct1" "ct_pools ct1 = ct_pools ct"
    "map_of (ct_handlers ct1) (cl_name c) = Some h" "\<And>cn gk p. watches_in ct1 cn gk p \<longleftrightarrow> watches_in ct cn gk p" by metis
  have "same_frame ct1 ct'" by (simp add: ct' same_frame_def getPool_def)
  with c(4) have frame: "same_frame ct ct'" by (rule same_frame_trans)
  have "serves ct' p k r = serves (getPool env pool ct1) p k r" for p k r by (simp add: ct' serves_def get_pool_def)
  moreover have "serves ct1 p k r = serves ct p k r" for p k r using c(5) by (simp add: serves_def get_pool_def)
  ultimately have serve: "serves ct' p k r = serves ct p k r" for p k r by simp
  have map: "map_of (ct_handlers ct') = (map_of (ct_handlers ct1))(cl_name c \<mapsto> snd (register env gk pool h))"
    using c(2) by (simp add: ct' register_resources update_conv')
  show thesis
  proof (rule that [OF c(1) _ frame serve])
    show "handlers_ok ct'" using c(2,3) by (auto simp: handlers_ok_def map register_resources)
    show "watches_in ct' cn k p \<longleftrightarrow> watches_in ct cn k p \<or> (cn, k, p) = (cl_name c, gk, pool)" for cn k p
      using c(6) unfolding c(7) [symmetric] by (auto simp: watches_in_def map register_resources split: option.splits if_splits)
  qed
qed

lemma controller_GetCluster_frame: "same_frame ct ct' \<Longrightarrow> controller_GetCluster ct' n = controller_GetCluster ct n"
  by (simp add: same_frame_def controller_GetCluster_def)

lemma register_watch_ok:
  assumes "register_watch env ct (cname, w) = Inr ct'" and "handlers_ok ct"
  obtains c where "controller_GetCluster ct cname = Some c" and "handlers_ok ct'" and "same_frame ct ct'"
    and "\<And>p k r. serves ct' p k r = serves ct p k r"
    and "\<And>cn k p. watches_in ct' cn k p \<longleftrightarrow> watches_in ct cn k p \<or> (cn, k, p) = (cl_name c, wd_rtype w, wd_pool w)"
proof -
  obtain err where "register_at env cname (wd_rtype w) (wd_pool w) ct = Inr (err, ct')"
    using assms(1) by (cases "register_at env cname (wd_rtype w) (wd_pool w) ct") (auto simp: register_watch_def)
  from register_at_ok [OF this assms(2)] that show thesis by metis
qed

text \<open>
  All watches, one after the other. A watch is \<open>due\<close> to a pool for a kind in a cluster if one of the list
  says so.
\<close>

definition due :: "'t controller \<Rightarrow> string \<times> watchdef \<Rightarrow> string \<times> GroupKind \<times> string \<Rightarrow> bool" where
  "due ct = (\<lambda>(cname, w) t. \<exists>c. controller_GetCluster ct cname = Some c \<and> t = (cl_name c, wd_rtype w, wd_pool w))"

lemma due_frame: "same_frame ct ct' \<Longrightarrow> due ct' = due ct"
  by (simp add: due_def controller_GetCluster_frame)

lemma register_watches_ok:
  assumes "try_each (register_watch env) ct xs = Inr ct'" and "handlers_ok ct"
  shows "handlers_ok ct' \<and> same_frame ct ct' \<and> (\<forall>p k r. serves ct' p k r = serves ct p k r) \<and>
    (\<forall>cn k p. watches_in ct' cn k p \<longleftrightarrow> watches_in ct cn k p \<or> (\<exists>x\<in>set xs. due ct x (cn, k, p)))"
  using assms
proof (induction xs arbitrary: ct)
  case (Cons x xs)
  obtain cname w where x: "x = (cname, w)" by (cases x)
  from Cons.prems x obtain ct1 where step: "register_watch env ct (cname, w) = Inr ct1" "try_each (register_watch env) ct1 xs = Inr ct'"
    by (auto split: sum.splits)
  from register_watch_ok [OF step(1) Cons.prems(2)] obtain c where c: "controller_GetCluster ct cname = Some c" "handlers_ok ct1"
    "same_frame ct ct1" "\<And>p k r. serves ct1 p k r = serves ct p k r"
    "\<And>cn k p. watches_in ct1 cn k p \<longleftrightarrow> watches_in ct cn k p \<or> (cn, k, p) = (cl_name c, wd_rtype w, wd_pool w)" by metis
  have x_due: "due ct x t \<longleftrightarrow> t = (cl_name c, wd_rtype w, wd_pool w)" for t by (simp add: due_def x c(1))
  note rest = Cons.IH [OF step(2) c(2), unfolded due_frame [OF c(3)]]
  show ?case using rest c(4,5) x_due same_frame_trans [OF c(3)] by auto
qed simp

text \<open>What the handlers of a prepared controller watch: the main resource and the watches of the definition.\<close>

lemma Prepare_ok:
  assumes "Prepare env ct = Ok (Inr ct')" and "handlers_ok ct" and "distinct_keys (ct_definition ct)" and "visits_all env"
  shows "same_frame ct ct' \<and> handlers_ok ct' \<and> (\<forall>p k r. serves ct' p k r = serves ct p k r) \<and>
    (\<forall>cn k p. watches_in ct' cn k p \<longleftrightarrow> watches_in ct cn k p \<or>
       (\<exists>gk. df_main (ct_definition ct) = Some gk \<and> (cn, k, p) = (cl_name (ct_cluster ct), gk, DEFAULT_POOL)) \<or>
       (\<exists>(cname, ws)\<in>set (df_watches (ct_definition ct)). \<exists>w\<in>set ws. due ct (cname, w) (cn, k, p)))"
proof -
  obtain main_key ct1 where main_key: "df_main (ct_definition ct) = Some main_key"
    and reg: "register_at env CLUSTER_MAIN main_key DEFAULT_POOL ct = Inr (None, ct1)"
    and ws: "try_each (register_watch env) ct1 (watch_list (ct_definition ct1) (ne_order env 4 (map fst (df_watches (ct_definition ct1))))) = Inr ct'"
    using assms(1) by (auto simp: Prepare_def split: option.splits sum.splits prod.splits)
  from register_at_ok [OF reg assms(2)] obtain c where c: "controller_GetCluster ct CLUSTER_MAIN = Some c" "handlers_ok ct1"
    "same_frame ct ct1" "\<And>p k r. serves ct1 p k r = serves ct p k r"
    "\<And>cn k p. watches_in ct1 cn k p \<longleftrightarrow> watches_in ct cn k p \<or> (cn, k, p) = (cl_name c, main_key, DEFAULT_POOL)" by metis
  have c_main: "c = ct_cluster ct" using c(1) by (simp add: controller_GetCluster_def)
  have def: "ct_definition ct1 = ct_definition ct" using c(3) by (simp add: same_frame_def)
  note rest = register_watches_ok [OF ws c(2), unfolded def due_frame [OF c(3)] ex_watch_list [OF assms(3,4)]]
  show ?thesis using rest c(4,5) c_main main_key same_frame_trans [OF c(3)] by simp
qed

lemma try_each_handlers:
  assumes "try_each f a xs = Inr b" and "\<And>a x b. f a x = Inr b \<Longrightarrow> same_frame a b \<and> ct_handlers b = ct_handlers a"
  shows "same_frame a b \<and> ct_handlers b = ct_handlers a"
  by (rule try_each_inv [OF assms(1)]) (auto dest!: assms(2) intro: same_frame_trans)

lemma add_command_frame: "add_command env a x = Inr b \<Longrightarrow> same_frame a b \<and> ct_handlers b = ct_handlers a"
  using addReconciler_serves(2,4) by (auto simp: add_command_def)

lemma add_watch_frame: "add_watch env a x = Inr b \<Longrightarrow> same_frame a b \<and> ct_handlers b = ct_handlers a"
  using addReconciler_serves(2,4) by (cases x) (auto simp: add_watch_def)

lemma NewController_frame:
  assumes "NewController env def cmp = Ok (Inr ct)"
  shows "ct_definition ct = def \<and> handlers_ok ct \<and> ct_handlers ct = [] \<and>
    MapClusters (ne_clusters env) cmp (Canonical (Some (RequiredClusters def))) = Inr (ct_clusters ct) \<and>
    GetCluster (ct_clusters ct) (hd (Canonical (Some (RequiredClusters def)))) = Some (ct_cluster ct)"
proof -
  from NewController_Inr [OF assms] obtain clusters c ct1 ct2 ct3 ct4 main_key where
    clusters: "MapClusters (ne_clusters env) cmp (Canonical (Some (RequiredClusters def))) = Inr clusters"
      "GetCluster clusters (hd (Canonical (Some (RequiredClusters def)))) = Some c"
    and crds: "try_each (create_crds env) \<lparr>ct_definition = def, ct_cluster = c, ct_clusters = clusters, ct_reconcilers = [],
       ct_mappings = Map.empty, ct_finalizer = def_FinalizerName def, ct_handlers = [], ct_pools = [], ct_crds = []\<rparr>
       (ne_order env 0 (map fst (df_crds def))) = Inr ct1"
    and recs: "try_each (create_reconciler env) ct1 (ne_order env 1 (map fst (df_reconcilers def))) = Inr ct2"
    and watches: "try_each (add_watch env) ct2 (watch_list def (ne_order env 2 (map fst (df_watches def)))) = Inr ct3"
    and add: "addReconciler env (hd (Canonical (Some (RequiredClusters def)))) (KindKey main_key) DEFAULT_POOL DEFAULT_RECONCILER ct3 =
       Inr ct4"
    and cmds: "try_each (add_command env) ct4 (command_list def (ne_order env 3 (map fst (df_commands def)))) = Inr ct"
    by metis
  have "ct_handlers ct = [] \<and> ct_definition ct = def \<and> ct_cluster ct = c \<and> ct_clusters ct = clusters"
    using try_each_frame [OF crds create_crds_frame] try_each_frame [OF recs create_reconciler_frame] try_each_handlers [OF watches add_watch_frame]
      addReconciler_serves(2,4) [OF add] try_each_handlers [OF cmds add_command_frame]
    by (simp add: same_frame_def)
  with clusters show ?thesis by (simp add: handlers_ok_def)
qed

section \<open>From an event to a reconciler\<close>

lemma controller_clusters_ok:
  assumes "NewController env def cmp = Ok (Inr ct)" and "named_apart (ne_clusters env)"
    and "controller_GetCluster ct cname = Some c"
  shows "GetEffective (ct_clusters ct) (cl_name c) = Some c"
proof -
  note frame = NewController_frame [OF assms(1)]
  then have "mapped_ok (ne_clusters env) (ct_clusters ct)" using MapClusters_ok assms(2) by blast
  moreover obtain n where "GetCluster (ct_clusters ct) n = Some c"
    using assms(3) frame by (auto simp: controller_GetCluster_def split: if_splits)
  ultimately show ?thesis by (auto simp: mapped_ok_def)
qed

text \<open>A round for the encoded key of an object of a cluster.\<close>

lemma round_for_object:
  assumes "GetEffective (ct_clusters ct) (cl_name c) = Some c" and "CHR '':'' \<notin> set (cl_name c)"
    and "encodable (ck_objectKey key)" and "ck_cluster key = cl_id c"
    and "case cl_cached c (ck_objectKey key) of Inl err \<Rightarrow> IsNotFound (Some err) | Inr _ \<Rightarrow> True"
  shows "\<exists>ops msgs. processNextWorkItem run ct p (EncodeObjectKey (cl_name c) (ck_objectKey key)) world =
    Ok (ops, msgs, snd (call_all run
      (case cl_cached c (ck_objectKey key) of
         Inl _ \<Rightarrow> Deleted key | Inr x \<Rightarrow> if IsDeleting (o_meta x) then Delete x else DoReconcile x)
      (getReconcilers (KindKey (ck_groupKind key)) p) world))"
proof -
  let ?r = "case cl_cached c (ck_objectKey key) of Inl _ \<Rightarrow> None | Inr x \<Rightarrow> Some x"
  let ?err = "case cl_cached c (ck_objectKey key) of Inl err \<Rightarrow> Some err | Inr _ \<Rightarrow> None"
  have "?err = None \<or> IsNotFound ?err" using assms(5) by (auto split: sum.splits)
  note process = processNextWorkItem_object [OF DecodeKey_Encode [OF assms(2,3,1) assms(4) [symmetric]] this]
  have "snd (object_call key ?r) = (case cl_cached c (ck_objectKey key) of
      Inl _ \<Rightarrow> Deleted key | Inr x \<Rightarrow> if IsDeleting (o_meta x) then Delete x else DoReconcile x)"
    by (auto simp: object_call_def split: sum.split)
  then show ?thesis unfolding process by (simp add: after_calls_def foldl_call_step split: prod.split)
qed


end
