(* ===== verification/Wiring.thy ===== *)
theory Wiring
  imports Dispatch Sources
begin

text \<open>
  The controllers of the program: what \<open>pkg/dnslb/endpoint/controller.go\<close>, \<open>pkg/dnslb/lb/controller.go\<close> and, below
  it, \<open>source/controller.go\<close> of the external DNS management configure, with the clusters and the mapping of
  \<open>main.go\<close>.
\<close>

section \<open>Configurations\<close>

text \<open>The functions that make reconcilers; a nested one in front.\<close>

datatype ReconcilerType =
    SourceReconciler
  | UsageReconcilerType string
  | SlaveReconcilerType string
  | StateReconciler
  | DNSSourceReconciler

abbreviation TARGET_CLUSTER :: string where
  "TARGET_CLUSTER \<equiv> ''target''"

definition OPT_TARGETCHECKPERIOD :: string where
  "OPT_TARGETCHECKPERIOD = ''target-check-period''"

definition endpoint_controller :: "ReconcilerType Configuration outcome" where
  "endpoint_controller =
     chain (Configure ''dnslb-endpoint'')
       [FinalizerDomain GroupName,
        config_Cluster DEFAULT_CLUSTER,
        DefaultedDurationOption OPT_TARGETCHECKPERIOD (60 * Second) ''period for checking targets'',
        DefaultWorkerPool 3 0,
        MainResource '''' ''Service'',
        config_Watch ''extensions'' ''Ingress'',
        config_Reconciler SourceReconciler [],
        config_Reconciler (UsageReconcilerType ''loadbalancer'') [''usages''],
        config_Cluster TARGET_CLUSTER,
        WorkerPool ''endpoints'' 3 0,
        config_Reconciler (SlaveReconcilerType ''endpoint'') [''endpoints''],
        ReconcilerWatch ''endpoints'' GroupName LoadBalancerEndpointResourceKind,
        ReconcilerWatch ''usages'' GroupName LoadBalancerResourceKind]"

definition DNSEntryCRD :: CustomResourceDefinition where
  "DNSEntryCRD =
     CreateCRDObjectWithStatus ''dns.gardener.cloud'' ''v1alpha1'' ''DNSEntry'' ''dnsentries'' ''dnse'' True
       [column ''DNS'' ''DNS ObjectName'' ''string'' ''.spec.dnsName'',
        column ''TYPE'' ''Provider type'' ''string'' ''.status.providerType'',
        column ''PROVIDER'' ''Provider'' ''string'' ''.status.provider'',
        column ''STATUS'' ''Status of DNS entry in cloud provider'' ''string'' ''.status.state'']"

definition DNSSourceController :: "string \<Rightarrow> GroupKind \<Rightarrow> ReconcilerType Configuration outcome" where
  "DNSSourceController name gk =
     chain (Configure name)
       [DefaultedStringOption ''dns-class'' ''gardendns''
          ''Identifier used to differentiate responsible controllers for entries'',
        StringOption ''dns-target-class'' ''Identifier used to differentiate responsible dns controllers for target entries'',
        StringArrayOption ''exclude-domains'' ''excluded domains'',
        StringOption ''key'' ''selecting key for annotation'',
        DefaultedStringOption ''target-namespace'' '''' ''target namespace for cross cluster generation'',
        DefaultedStringOption ''target-name-prefix'' '''' ''name prefix in target namespace for cross cluster generation'',
        FinalizerDomain ''dns.gardener.cloud'',
        config_Reconciler DNSSourceReconciler [],
        config_Cluster DEFAULT_CLUSTER,
        DefaultWorkerPool 2 (120 * Second),
        MainResource (gk_group gk) (gk_kind gk),
        config_Reconciler (SlaveReconcilerType name) [''entries''],
        config_Cluster TARGET_CLUSTER,
        CustomResourceDefinitions [DNSEntryCRD],
        WorkerPool ''targets'' 2 0,
        ReconcilerWatch ''entries'' ''dns.gardener.cloud'' ''DNSEntry'']"

definition lb_controller :: "ReconcilerType Configuration outcome" where
  "lb_controller =
     bind_outcome (DNSSourceController ''dnslb-loadbalancer'' LoadBalancerGroupKind) (\<lambda>c.
       chain c
         [RequireLease,
          FinalizerDomain GroupName,
          StringOption ''bogus-nxdomain'' ''ip address returned by DNS for unknown domain'',
          config_Reconciler StateReconciler [''state''],
          ReconcilerWatch ''state'' GroupName LoadBalancerEndpointResourceKind,
          config_Cluster DEFAULT_CLUSTER,
          CustomResourceDefinitions [DNSLBCRD, DNSLBEPCRD]])"

section \<open>What the configurations say\<close>

text \<open>The definitions the chains end with, spelled out.\<close>

definition endpoint_def :: "ReconcilerType Definition" where
  "endpoint_def =
     \<lparr>df_name = ''dnslb-endpoint'', df_main = Some serviceGK,
      df_reconcilers =
        [(''default'', SourceReconciler), (''usages'', UsageReconcilerType ''loadbalancer''),
         (''endpoints'', SlaveReconcilerType ''endpoint'')],
      df_watches =
        [(''default'', [\<lparr>wd_rtype = ingressGK, wd_reconciler = ''default'', wd_pool = ''default''\<rparr>]),
         (''target'', [\<lparr>wd_rtype = LoadBalancerEndpointGroupKind, wd_reconciler = ''endpoints'', wd_pool = ''endpoints''\<rparr>,
                      \<lparr>wd_rtype = LoadBalancerGroupKind, wd_reconciler = ''usages'', wd_pool = ''endpoints''\<rparr>])],
      df_commands = [], df_required_clusters = [''default'', ''target''], df_require_lease = False,
      df_pools =
        [(''default'', \<lparr>pd_name = ''default'', pd_size = 3, pd_period = 0\<rparr>),
         (''endpoints'', \<lparr>pd_name = ''endpoints'', pd_size = 3, pd_period = 0\<rparr>)],
      df_configs =
        [(''target-check-period'', \<lparr>cd_gotype = DurationType, cd_defaultValue = DurationDefault 60000000000,
           cd_desc = ''period for checking targets''\<rparr>)],
      df_finalizerName = '''', df_finalizerDomain = ''loadbalancer.gardener.cloud'', df_crds = []\<rparr>"

lemma endpoint_settings: "map_outcome cf_settings endpoint_controller = Ok endpoint_def"
  by code_simp

definition lb_def :: "ReconcilerType Definition" where
  "lb_def =
     \<lparr>df_name = ''dnslb-loadbalancer'', df_main = Some LoadBalancerGroupKind,
      df_reconcilers =
        [(''default'', DNSSourceReconciler), (''entries'', SlaveReconcilerType ''dnslb-loadbalancer''), (''state'', StateReconciler)],
      df_watches =
        [(''target'', [\<lparr>wd_rtype = entryGK, wd_reconciler = ''entries'', wd_pool = ''targets''\<rparr>,
                      \<lparr>wd_rtype = LoadBalancerEndpointGroupKind, wd_reconciler = ''state'', wd_pool = ''targets''\<rparr>])],
      df_commands = [], df_required_clusters = [''default'', ''target''], df_require_lease = True,
      df_pools =
        [(''default'', \<lparr>pd_name = ''default'', pd_size = 2, pd_period = 120000000000\<rparr>),
         (''targets'', \<lparr>pd_name = ''targets'', pd_size = 2, pd_period = 0\<rparr>)],
      df_configs =
        [(''dns-class'', \<lparr>cd_gotype = StringType, cd_defaultValue = StringDefault ''gardendns'',
           cd_desc = ''Identifier used to differentiate responsible controllers for entries''\<rparr>),
         (''dns-target-class'', \<lparr>cd_gotype = StringType, cd_defaultValue = NoDefault,
           cd_desc = ''Identifier used to differentiate responsible dns controllers for target entries''\<rparr>),
         (''exclude-domains'', \<lparr>cd_gotype = StringArrayType, cd_defaultValue = NoDefault, cd_desc = ''excluded domains''\<rparr>),
         (''key'', \<lparr>cd_gotype = StringType, cd_defaultValue = NoDefault, cd_desc = ''selecting key for annotation''\<rparr>),
         (''target-namespace'', \<lparr>cd_gotype = StringType, cd_defaultValue = StringDefault '''',
           cd_desc = ''target namespace for cross cluster generation''\<rparr>),
         (''target-name-prefix'', \<lparr>cd_gotype = StringType, cd_defaultValue = StringDefault '''',
           cd_desc = ''name prefix in target namespace for cross cluster generation''\<rparr>),
         (''bogus-nxdomain'', \<lparr>cd_gotype = StringType, cd_defaultValue = NoDefault,
           cd_desc = ''ip address returned by DNS for unknown domain''\<rparr>)],
      df_finalizerName = '''', df_finalizerDomain = ''loadbalancer.gardener.cloud'',
      df_crds = [(''target'', [DNSEntryCRD]), (''<MAIN>'', [DNSLBCRD, DNSLBEPCRD])]\<rparr>"

lemma lb_settings: "map_outcome cf_settings lb_controller = Ok lb_def"
  by code_simp

lemma endpoint_configured: "endpoint_controller = Ok c \<Longrightarrow> cf_settings c = endpoint_def"
  using endpoint_settings by (metis outcome.inject outcome.map(2))

lemma lb_configured: "lb_controller = Ok c \<Longrightarrow> cf_settings c = lb_def"
  using lb_settings by (metis outcome.inject outcome.map(2))

lemma program_keyed: "distinct_keys endpoint_def" "distinct_keys lb_def"
  by (simp_all add: distinct_keys_def endpoint_def_def lb_def_def)

lemma finalizer_names:
  "def_FinalizerName endpoint_def = ''loadbalancer.gardener.cloud/dnslb-endpoint''"
  "def_FinalizerName lb_def = ''loadbalancer.gardener.cloud/dnslb-loadbalancer''"
  by (simp_all add: def_FinalizerName_def endpoint_def_def lb_def_def)

section \<open>The endpoint controller\<close>

lemma program_required:
  "Canonical (Some (RequiredClusters endpoint_def)) = [''default'', ''target'']"
  "Canonical (Some (RequiredClusters lb_def)) = [''default'', ''target'']"
  by code_simp+

lemma program_wanted:
  "wanted endpoint_def p k r \<longleftrightarrow>
     (p, k, r) \<in> {(''default'', KindKey serviceGK, ''default''), (''default'', KindKey ingressGK, ''default''),
       (''endpoints'', KindKey LoadBalancerEndpointGroupKind, ''endpoints''), (''endpoints'', KindKey LoadBalancerGroupKind, ''usages'')}"
  "wanted lb_def p k r \<longleftrightarrow>
     (p, k, r) \<in> {(''default'', KindKey LoadBalancerGroupKind, ''default''),
       (''targets'', KindKey entryGK, ''entries''), (''targets'', KindKey LoadBalancerEndpointGroupKind, ''state'')}"
  by (auto simp: wanted_def endpoint_def_def lb_def_def DEFAULT_POOL_def DEFAULT_RECONCILER_def)

text \<open>A controller from its definition to its watches.\<close>

lemma prepared_controller:
  assumes "NewController env def cmp = Ok (Inr ct)" and "Prepare env ct = Ok (Inr ct')" and "distinct_keys def" and "visits_all env"
  shows "(serves ct' p k r \<longleftrightarrow> wanted def p k r) \<and> ct_clusters ct' = ct_clusters ct \<and> ct_cluster ct' = ct_cluster ct \<and>
    (watches_in ct' cn gk q \<longleftrightarrow>
       (\<exists>g. df_main def = Some g \<and> (cn, gk, q) = (cl_name (ct_cluster ct), g, DEFAULT_POOL)) \<or>
       (\<exists>(cname, ws)\<in>set (df_watches def). \<exists>w\<in>set ws. due ct (cname, w) (cn, gk, q)))"
proof -
  note new = NewController_frame [OF assms(1)]
  then have def: "ct_definition ct = def" and h: "handlers_ok ct" "ct_handlers ct = []" by blast+
  note prep = Prepare_ok [OF assms(2) h(1), unfolded def, OF assms(3,4)]
  have "\<not> watches_in ct cn gk q" using h(2) by (simp add: watches_in_def)
  with prep pools_serve_wanted [OF assms(1,3,4)] show ?thesis by (simp add: same_frame_def)
qed

lemma due_named:
  "name \<noteq> CLUSTER_MAIN \<Longrightarrow> due ct (name, w) (cn, gk, q) \<longleftrightarrow>
   map_option cl_name (GetCluster (ct_clusters ct) name) = Some cn \<and> gk = wd_rtype w \<and> q = wd_pool w"
  by (auto simp: due_def controller_GetCluster_def)

lemma program_watches:
  "(\<exists>(cname, ws)\<in>set (df_watches endpoint_def). \<exists>w\<in>set ws. P cname w) \<longleftrightarrow>
     P ''default'' \<lparr>wd_rtype = ingressGK, wd_reconciler = ''default'', wd_pool = ''default''\<rparr> \<or>
     P ''target'' \<lparr>wd_rtype = LoadBalancerEndpointGroupKind, wd_reconciler = ''endpoints'', wd_pool = ''endpoints''\<rparr> \<or>
     P ''target'' \<lparr>wd_rtype = LoadBalancerGroupKind, wd_reconciler = ''usages'', wd_pool = ''endpoints''\<rparr>"
  "(\<exists>(cname, ws)\<in>set (df_watches lb_def). \<exists>w\<in>set ws. P cname w) \<longleftrightarrow>
     P ''target'' \<lparr>wd_rtype = entryGK, wd_reconciler = ''entries'', wd_pool = ''targets''\<rparr> \<or>
     P ''target'' \<lparr>wd_rtype = LoadBalancerEndpointGroupKind, wd_reconciler = ''state'', wd_pool = ''targets''\<rparr>"
  by (simp_all add: endpoint_def_def lb_def_def)

lemma program_main:
  "(\<exists>g. df_main endpoint_def = Some g \<and> (cn, gk, q) = (c, g, DEFAULT_POOL)) \<longleftrightarrow> cn = c \<and> gk = serviceGK \<and> q = ''default''"
  "(\<exists>g. df_main lb_def = Some g \<and> (cn, gk, q) = (c, g, DEFAULT_POOL)) \<longleftrightarrow> cn = c \<and> gk = LoadBalancerGroupKind \<and> q = ''default''"
  by (auto simp: endpoint_def_def lb_def_def DEFAULT_POOL_def)

lemma watch_table:
  "a \<and> g = k1 \<and> q = x \<or> a \<and> g = k2 \<and> q = x \<or> b \<and> g = k3 \<and> q = y \<or> b \<and> g = k4 \<and> q = y \<longleftrightarrow>
   a \<and> g \<in> {k1, k2} \<and> q = x \<or> b \<and> g \<in> {k3, k4} \<and> q = y"
  by auto

section \<open>The DNS controller\<close>

lemma main_mapping_maps:
  "MapCluster True ''default'' (main_mapping ''dnslb-loadbalancer'') = ''target''"
  "MapCluster False ''target'' (main_mapping ''dnslb-loadbalancer'') = ''dnstarget''"
  by code_simp+

lemma lb_clusters:
  assumes "MapClusters cls (main_mapping ''dnslb-loadbalancer'') [''default'', ''target''] = Inr m"
    and "GetCluster cls ''target'' = Some t" and "GetCluster cls ''dnstarget'' = Some d"
  shows "GetCluster m ''default'' = Some t" and "GetCluster m ''target'' = Some d"
  using assms by (auto simp: MapClusters_def main_mapping_maps)


end
