(* ===== verification/WiringProps.thy ===== *)
theory WiringProps
  imports Wiring
begin

text \<open>
  What holds of the way from a configuration to the calls of the reconcilers: for every controller, and for
  the two of the program.
\<close>

section \<open>An environment\<close>

text \<open>
  Two clusters, without custom resources in their caches; the DNS entries live in the target cluster, as they
  do without an option.
\<close>

definition empty_cluster :: "string \<Rightarrow> string \<Rightarrow> cluster" where
  "empty_cluster name i = \<lparr>cl_name = name, cl_id = i, cl_cached = (\<lambda>_. Inl (NotFoundError ''not found''))\<rparr>"

definition sample_network :: "ReconcilerType environment" where
  "sample_network =
     \<lparr>ne_clusters = Clusters_Add ''dnstarget'' (empty_cluster ''target'' ''b'') (Clusters_Add ''target'' (empty_cluster ''target'' ''b'')
        (Clusters_Add ''default'' (empty_cluster ''default'' ''a'') NewClusters)),
      ne_option = (\<lambda>_. None),
      ne_crds = (\<lambda>_. \<lparr>cs_create = (\<lambda>_. AlreadyExists), cs_reads = (\<lambda>_. [Inr [], Inr [Established True]])\<rparr>),
      ne_reconciler = (\<lambda>_. None), ne_resource = (\<lambda>_ _. None), ne_order = (\<lambda>_ xs. rev xs)\<rparr>"

lemma network_visits: "visits_all sample_network"
  by (simp add: visits_all_def sample_network_def)

lemma network_named_apart: "named_apart (ne_clusters sample_network)"
  by (simp add: named_apart_def sample_network_def empty_cluster_def GetCluster_def NewClusters_def Clusters_Add_def)

definition prepared :: "'t Definition \<Rightarrow> 't environment \<Rightarrow> mapping list \<Rightarrow> 't controller \<Rightarrow> 't controller \<Rightarrow> bool" where
  "prepared def env cmp ct ct' \<longleftrightarrow> NewController env def cmp = Ok (Inr ct) \<and> Prepare env ct = Ok (Inr ct')"

definition comes_up :: "('t controller \<Rightarrow> bool) \<Rightarrow> 't Definition \<Rightarrow> 't environment \<Rightarrow> mapping list \<Rightarrow> bool" where
  "comes_up P def env cmp =
     (case NewController env def cmp of
        Ok (Inr ct) \<Rightarrow> (case Prepare env ct of Ok (Inr ct') \<Rightarrow> P ct' | _ \<Rightarrow> False)
      | _ \<Rightarrow> False)"

lemma comes_up_prepared: "comes_up P def env cmp \<Longrightarrow> \<exists>ct ct'. prepared def env cmp ct ct' \<and> P ct'"
proof -
  assume comes_up: "comes_up P def env cmp"
  then obtain ct where ct: "NewController env def cmp = Ok (Inr ct)"
    by (auto simp: comes_up_def split: outcome.splits sum.splits)
  with comes_up obtain ct' where "Prepare env ct = Ok (Inr ct')" "P ct'"
    by (cases "Prepare env ct") (auto simp: comes_up_def split: sum.splits)
  with ct show ?thesis by (auto simp: prepared_def)
qed

text \<open>
  An endpoint of the target cluster that the cache has no more.
\<close>

definition gone :: DNSLoadBalancerEndpoint where
  "gone =
     \<lparr>ep_meta = \<lparr>m_cluster = ''b'', m_namespace = ''ns'', m_name = ''ep'', m_generateName = '''', m_uid = '''', m_resourceVersion = '''',
        m_labels = None, m_annotations = Map.empty, m_finalizers = [], m_ownerReferences = [], m_creationTimestamp = 0,
        m_deletionTimestamp = None\<rparr>,
      ep_spec = \<lparr>LoadBalancerRef = ''lb'', IPAddress = ''10.0.0.1'', CName = ''''\<rparr>,
      ep_status = \<lparr>eps_State = None, eps_Message = None, eps_Healthy = False, eps_ValidUntil = None\<rparr>\<rparr>"

lemma endpoint_controller_runs:
  "comes_up (\<lambda>ct. case controller_GetCluster ct ''target'' of
       None \<Rightarrow> False
     | Some c \<Rightarrow> cl_name c = ''target'' \<and> cl_id c = ''b'' \<and>
         (case cl_cached c (ck_objectKey (o_ClusterKey (OEndpoint gone))) of Inl err \<Rightarrow> IsNotFound (Some err) | Inr _ \<Rightarrow> False))
     endpoint_def sample_network []"
  by code_simp

lemma lb_controller_runs:
  "comes_up (\<lambda>ct. True) lb_def sample_network (main_mapping ''dnslb-loadbalancer'')"
  by code_simp

section \<open>Rounds of a worker\<close>


definition sample_ct :: "ReconcilerType controller" where
  "sample_ct =
     \<lparr>ct_definition = endpoint_def, ct_cluster = empty_cluster ''default'' ''a'',
      ct_clusters = Clusters_Add ''default'' (empty_cluster ''default'' ''a'') NewClusters, ct_reconcilers = [],
      ct_mappings = Map.empty, ct_finalizer = '''', ct_handlers = [], ct_pools = [], ct_crds = []\<rparr>"

definition sample_pool :: pool where
  "sample_pool = \<lparr>pl_size = 1, pl_period = 0, pl_values = (\<lambda>_. [''a'', ''b'']), pl_matchers = []\<rparr>"

definition sample_ck :: ClusterObjectKey where
  "sample_ck = NewClusterKey ''a'' (NewGroupKind ''extensions'' ''Ingress'') ''ns'' ''web''"

definition sample_queue_key :: string where
  "sample_queue_key = EncodeObjectKey ''default'' (ck_objectKey sample_ck)"

lemma sample_decoded:
  "DecodeKey (ct_clusters sample_ct) sample_queue_key = Ok ('''', Some sample_ck, None, Some (NotFoundError ''not found''))"
proof -
  have "encodable (ck_objectKey sample_ck)" by code_simp
  moreover have "GetEffective (ct_clusters sample_ct) ''default'' = Some (empty_cluster ''default'' ''a'')"
    "cl_id (empty_cluster ''default'' ''a'') = ck_cluster sample_ck"
    by (simp_all add: sample_ct_def GetEffective_Add empty_cluster_def sample_ck_def NewClusterKey_def)
  ultimately show ?thesis
    using DecodeKey_Encode [of "''default''" sample_ck "ct_clusters sample_ct" "empty_cluster ''default'' ''a''"]
    by (simp add: sample_queue_key_def empty_cluster_def)
qed

text \<open>The witness: an ingress is gone, and one of two reconcilers wants to be called again.\<close>

definition sample_run :: "unit reconcilers" where
  "sample_run r call w = (if r = ''a'' then RSucceeded else Repeat, w)"

lemma sample_round:
  "processNextWorkItem sample_run sample_ct sample_pool sample_queue_key () = Ok ([(sample_queue_key, QAdd)], [], ())"
  by (simp add: processNextWorkItem_object [OF sample_decoded] after_calls_def object_call_def sample_pool_def call_step_def
      sample_run_def worker_step_def queue_ops_def RSucceeded_def Repeat_def)


section \<open>Dispatch\<close>

text \<open>
  C7. From an event to the reconciler, for every definition of a controller: when the controller could be
  made and prepared, an event of an object of a kind the definition watches, in the cluster of that watch,
  puts the key of the object into the queue of the pool of the watch, whatever else is watched. The worker
  of that pool which takes the key calls the reconciler of the watch, and every other one the pool has for
  the kind, with what the cache of that cluster holds under the key: to reconcile the object, to delete
  it, or to note that it is gone.
\<close>

theorem event_reaches_reconciler:
  assumes "NewController env def cmp = Ok (Inr ct)" and "Prepare env ct = Ok (Inr ct')"
    and "distinct_keys def" and "visits_all env" and "named_apart (ne_clusters env)"
    and "(cname, ws) \<in> set (df_watches def)" and "w \<in> set ws"
    and "controller_GetCluster ct' cname = Some c" and "CHR '':'' \<notin> set (cl_name c)"
    and "o_GroupKind x = wd_rtype w" and "ck_cluster (o_ClusterKey x) = cl_id c"
    and "encodable (ck_objectKey (o_ClusterKey x))"
    and "case cl_cached c (ck_objectKey (o_ClusterKey x)) of Inl err \<Rightarrow> IsNotFound (Some err) | Inr _ \<Rightarrow> True"
  shows "\<exists>h qs q p. map_of (ct_handlers ct') (cl_name c) = Some h \<and> objectAdd x h = Ok qs \<and> (wd_pool w, q) \<in> set qs \<and>
    get_pool (wd_pool w) ct' = Some p \<and> wd_reconciler w \<in> set (getReconcilers (KindKey (o_GroupKind x)) p) \<and>
    (\<forall>run world. \<exists>ops msgs. processNextWorkItem run ct' p q world = Ok (ops, msgs, snd (call_all run
      (case cl_cached c (ck_objectKey (o_ClusterKey x)) of
         Inl _ \<Rightarrow> Deleted (o_ClusterKey x) | Inr y \<Rightarrow> if IsDeleting (o_meta y) then Delete y else DoReconcile y)
      (getReconcilers (KindKey (o_GroupKind x)) p) world)))"
proof -
  note new = NewController_frame [OF assms(1)]
  have def: "ct_definition ct = def" and "handlers_ok ct" using new by blast+
  note prep = Prepare_ok [OF assms(2) this(2), unfolded def, OF assms(3,4)]
  have c: "controller_GetCluster ct cname = Some c" using assms(8) prep controller_GetCluster_frame by metis
  then have "due ct (cname, w) (cl_name c, wd_rtype w, wd_pool w)" by (simp add: due_def)
  with prep assms(6,7) have "watches_in ct' (cl_name c) (wd_rtype w) (wd_pool w)" by blast
  then obtain h ps where h: "map_of (ct_handlers ct') (cl_name c) = Some h" "ch_resources h (wd_rtype w) = Some ps" "wd_pool w \<in> set ps"
    unfolding watches_in_def by blast
  have name: "cl_name (ch_cluster h) = cl_name c" using prep h(1) by (auto simp: handlers_ok_def)
  have "wanted def (wd_pool w) (KindKey (wd_rtype w)) (wd_reconciler w)" using assms(6,7) by (auto simp: wanted_def)
  then have "serves ct' (wd_pool w) (KindKey (wd_rtype w)) (wd_reconciler w)"
    using pools_serve_wanted [OF assms(1,3,4)] prep by blast
  then obtain p where p: "get_pool (wd_pool w) ct' = Some p" "wd_reconciler w \<in> set (getReconcilers (KindKey (o_GroupKind x)) p)"
    by (auto simp: serves_def assms(10))
  have eff: "GetEffective (ct_clusters ct') (cl_name c) = Some c"
    using controller_clusters_ok [OF assms(1,5) c] prep by (simp add: same_frame_def)
  note round = round_for_object [OF eff assms(9,12,11,13)]
  have add: "objectAdd x h = Ok (map (\<lambda>p. (p, EncodeObjectKey (cl_name c) (ck_objectKey (o_ClusterKey x)))) ps)"
    using h(2) name assms(10) by (simp add: objectAdd_def EnqueueObject_def EncodeObjectKeyForObject_def)
  have mem: "(wd_pool w, EncodeObjectKey (cl_name c) (ck_objectKey (o_ClusterKey x))) \<in>
      set (map (\<lambda>p. (p, EncodeObjectKey (cl_name c) (ck_objectKey (o_ClusterKey x)))) ps)" using h(3) by auto
  show ?thesis by (intro exI conjI, rule h(1), rule add, rule mem, rule p(1), rule p(2), intro allI, rule round)
qed


lemma gone_key: "o_GroupKind (OEndpoint gone) = LoadBalancerEndpointGroupKind" "encodable (ck_objectKey (o_ClusterKey (OEndpoint gone)))"
    "ck_cluster (o_ClusterKey (OEndpoint gone)) = ''b''"
  by code_simp+

text \<open>The witness: the deletion of an endpoint reaches the reconciler that caches endpoints.\<close>

theorem event_reaches_reconciler_witness:
  "\<exists>ct ct' h qs q p. prepared endpoint_def sample_network [] ct ct' \<and> map_of (ct_handlers ct') ''target'' = Some h \<and>
    objectAdd (OEndpoint gone) h = Ok qs \<and> (''endpoints'', q) \<in> set qs \<and> get_pool ''endpoints'' ct' = Some p \<and>
    ''endpoints'' \<in> set (getReconcilers (KindKey LoadBalancerEndpointGroupKind) p) \<and>
    (\<forall>(run :: nat reconcilers) world. \<exists>ops msgs. processNextWorkItem run ct' p q world = Ok (ops, msgs, snd (call_all run
      (Deleted (ep_ClusterKey gone)) (getReconcilers (KindKey LoadBalancerEndpointGroupKind) p) world)))"
proof -
  let ?w = "\<lparr>wd_rtype = LoadBalancerEndpointGroupKind, wd_reconciler = ''endpoints'', wd_pool = ''endpoints''\<rparr>"
  let ?ws = "[?w, \<lparr>wd_rtype = LoadBalancerGroupKind, wd_reconciler = ''usages'', wd_pool = ''endpoints''\<rparr>]"
  obtain ct ct' c where ct: "prepared endpoint_def sample_network [] ct ct'" and c: "controller_GetCluster ct' ''target'' = Some c"
    "cl_name c = ''target''" "cl_id c = ''b''"
    and cached: "case cl_cached c (ck_objectKey (o_ClusterKey (OEndpoint gone))) of Inl err \<Rightarrow> IsNotFound (Some err) | Inr _ \<Rightarrow> False"
    using comes_up_prepared [OF endpoint_controller_runs] by (auto split: option.splits)
  from cached obtain err where err: "cl_cached c (ck_objectKey (o_ClusterKey (OEndpoint gone))) = Inl err" "IsNotFound (Some err)"
    by (auto split: sum.splits)
  have watch: "(''target'', ?ws) \<in> set (df_watches endpoint_def)" "?w \<in> set ?ws" by (simp_all add: endpoint_def_def)
  have "CHR '':'' \<notin> set (cl_name c)" "o_GroupKind (OEndpoint gone) = wd_rtype ?w" "ck_cluster (o_ClusterKey (OEndpoint gone)) = cl_id c"
    using c gone_key by simp_all
  note event = event_reaches_reconciler [OF ct [unfolded prepared_def, THEN conjunct1] ct [unfolded prepared_def, THEN conjunct2]
      program_keyed(1) network_visits network_named_apart watch c(1) this gone_key(2)]
  have "\<exists>h qs q p. map_of (ct_handlers ct') (cl_name c) = Some h \<and> objectAdd (OEndpoint gone) h = Ok qs \<and>
      (wd_pool ?w, q) \<in> set qs \<and> get_pool (wd_pool ?w) ct' = Some p \<and>
      wd_reconciler ?w \<in> set (getReconcilers (KindKey (o_GroupKind (OEndpoint gone))) p) \<and>
      (\<forall>(run :: nat reconcilers) world. \<exists>ops msgs. processNextWorkItem run ct' p q world = Ok (ops, msgs, snd (call_all run
        (case cl_cached c (ck_objectKey (o_ClusterKey (OEndpoint gone))) of
           Inl _ \<Rightarrow> Deleted (o_ClusterKey (OEndpoint gone)) | Inr y \<Rightarrow> if IsDeleting (o_meta y) then Delete y else DoReconcile y)
        (getReconcilers (KindKey (o_GroupKind (OEndpoint gone))) p) world)))"
    by (rule event) (use err in simp)
  then show ?thesis unfolding err(1) c(2) gone_key(1) using ct by (simp only: watchdef.simps sum.case o_ClusterKey.simps) blast
qed

section \<open>The controllers of the program\<close>


lemma map_outcome_OkD: "map_outcome f r = Ok d \<Longrightarrow> \<exists>x. r = Ok x \<and> f x = d"
  by (cases r) auto

lemma configured:
  "\<exists>c. endpoint_controller = Ok c \<and> cf_settings c = endpoint_def" "\<exists>c. lb_controller = Ok c \<and> cf_settings c = lb_def"
  using map_outcome_OkD [OF endpoint_settings] map_outcome_OkD [OF lb_settings] by blast+


text \<open>
  The DNS controller of the program, with the mapping of the main function: its main cluster is the
  one the program calls target, there it watches the load balancers; the DNS entries are watched in the cluster
  called dnstarget. Endpoints live beside their load balancers, but they are watched where the entries
  are. So an event of an endpoint of the main cluster leads to the state reconciler, in the pool called targets,
  exactly if the two clusters are the same.
\<close>

lemma lb_wiring:
  assumes "NewController env (cf_settings c) (main_mapping ''dnslb-loadbalancer'') = Ok (Inr ct)"
    and "Prepare env ct = Ok (Inr ct')" and "lb_controller = Ok c" and "visits_all env"
    and "GetCluster (ne_clusters env) ''target'' = Some t" and "GetCluster (ne_clusters env) ''dnstarget'' = Some d"
  shows "ct_cluster ct' = t \<and>
    (serves ct' p k r \<longleftrightarrow> (p, k, r) \<in>
      {(''default'', KindKey LoadBalancerGroupKind, ''default''), (''targets'', KindKey entryGK, ''entries''),
       (''targets'', KindKey LoadBalancerEndpointGroupKind, ''state'')}) \<and>
    (watches_in ct' cn gk q \<longleftrightarrow>
       cn = cl_name t \<and> gk = LoadBalancerGroupKind \<and> q = ''default'' \<or>
       cn = cl_name d \<and> gk \<in> {entryGK, LoadBalancerEndpointGroupKind} \<and> q = ''targets'') \<and>
    (watches_in ct' (cl_name (ct_cluster ct')) LoadBalancerEndpointGroupKind ''targets'' \<longleftrightarrow> cl_name d = cl_name t)"
proof -
  have def: "cf_settings c = lb_def" using assms(3) by (rule lb_configured)
  note prep = prepared_controller [OF assms(1,2)[unfolded def] program_keyed(2) assms(4),
      unfolded program_wanted program_watches program_main]
  note frame = NewController_frame [OF assms(1)[unfolded def], unfolded program_required]
  note m = lb_clusters [OF frame [THEN conjunct2, THEN conjunct2, THEN conjunct2, THEN conjunct1] assms(5,6)]
  have main_cluster: "ct_cluster ct = t" using frame m(1) by simp
  have due: "due ct (''target'', w) (cn, gk, q) \<longleftrightarrow> cn = cl_name d \<and> gk = wd_rtype w \<and> q = wd_pool w" for w cn gk q
    using m(2) by (auto simp: due_named CLUSTER_MAIN_def)
  have watches: "watches_in ct' cn gk q \<longleftrightarrow> cn = cl_name t \<and> gk = LoadBalancerGroupKind \<and> q = ''default'' \<or>
       cn = cl_name d \<and> gk \<in> {entryGK, LoadBalancerEndpointGroupKind} \<and> q = ''targets''" for cn gk q
    using prep [of p k r cn gk q, unfolded due watchdef.simps main_cluster] by blast
  have kinds: "LoadBalancerEndpointGroupKind \<noteq> LoadBalancerGroupKind"
    by (simp add: LoadBalancerEndpointGroupKind_def LoadBalancerGroupKind_def NewGroupKind_def
        LoadBalancerResourceKind_def LoadBalancerEndpointResourceKind_def)
  have main': "ct_cluster ct' = t" using prep main_cluster by blast
  have table: "serves ct' p k r \<longleftrightarrow> (p, k, r) \<in>
      {(''default'', KindKey LoadBalancerGroupKind, ''default''), (''targets'', KindKey entryGK, ''entries''),
       (''targets'', KindKey LoadBalancerEndpointGroupKind, ''state'')}"
    using prep [of p k r cn gk q] by blast
  have "watches_in ct' (cl_name t) LoadBalancerEndpointGroupKind ''targets'' \<longleftrightarrow> cl_name d = cl_name t"
    using kinds unfolding watches by auto
  then show ?thesis unfolding main' using table watches by blast
qed


lemma watched_endpoints:
  assumes "NewController env (cf_settings c) (main_mapping ''dnslb-loadbalancer'') = Ok (Inr ct)"
    and "Prepare env ct = Ok (Inr ct')" and "lb_controller = Ok c" and "visits_all env"
    and "GetCluster (ne_clusters env) ''target'' = Some t" and "GetCluster (ne_clusters env) ''dnstarget'' = Some d"
  shows "watches_in ct' (cl_name (ct_cluster ct')) LoadBalancerEndpointGroupKind ''targets'' \<longleftrightarrow> cl_name d = cl_name t"
  by (rule lb_wiring [OF assms, THEN conjunct2, THEN conjunct2, THEN conjunct2])

section \<open>The program\<close>

lemma program_def:
  "map_of program_clusters ''target'' = Some (ConfigureCluster ''target'' ''target'' ''target cluster for endpoints'')"
  "map_of program_clusters ''dnstarget'' =
     Some (Fallback ''target'' (ConfigureCluster ''dnstarget'' ''dnstarget'' ''target cluster for dns entries''))"
  "map_of program_clusters ''default'' = Some (ConfigureCluster ''default'' ''kubeconfig'' ''default cluster access'')"
  by (simp_all add: program_clusters_def)

lemma dnstarget_resolves:
  assumes "names_kept env program_clusters" and "resolves env program_clusters ''target'' t"
    and "resolves env program_clusters ''dnstarget'' d"
  shows "cl_name d = cl_name t \<longleftrightarrow> (case ce_option env ''dnstarget'' of None \<Rightarrow> True | Some v \<Rightarrow> v = '''')"
proof -
  let ?d = "Fallback ''target'' (ConfigureCluster ''dnstarget'' ''dnstarget'' ''target cluster for dns entries'')"
  have opt: "option_value env ?d = '''' \<longleftrightarrow> (case ce_option env ''dnstarget'' of None \<Rightarrow> True | Some v \<Rightarrow> v = '''')"
    by (auto simp: option_value_def Fallback_def ConfigureCluster_def split: option.split)
  have t_name: "cl_name t \<in> {''target'', ''default''}"
    using assms(2)
  proof (cases rule: resolves.cases)
    case (Own req)
    with created_name [OF assms(1) Own(1,4)] show ?thesis by simp
  next
    case (Default req def)
    with created_name [OF assms(1) Default(4,5)] show ?thesis by (simp add: DEFAULT_CLUSTER_def)
  next
    case (Fallback req)
    then show ?thesis by (auto simp: program_def ConfigureCluster_def)
  qed
  show ?thesis
    using assms(3)
  proof (cases rule: resolves.cases)
    case (Own req)
    with created_name [OF assms(1) Own(1,4)] t_name opt show ?thesis by (auto simp: program_def)
  next
    case (Default req def)
    then show ?thesis by (auto simp: program_def Fallback_def ConfigureCluster_def DEFAULT_CLUSTER_def)
  next
    case (Fallback req)
    then have "resolves env program_clusters ''target'' d" and "option_value env ?d = ''''"
      by (auto simp: program_def Clusters.Fallback_def ConfigureCluster_def DEFAULT_CLUSTER_def)
    with resolves_unique [OF this(1) assms(2)] opt show ?thesis by simp
  qed
qed


text \<open>The witness: the clusters of the two kubeconfigs, with and without a third one.\<close>

definition program_env :: "string option \<Rightarrow> cluster_env" where
  "program_env dnstarget =
     \<lparr>ce_option = (\<lambda>o'. if o' = ''dnstarget'' then dnstarget else if o' = ''target'' then Some ''b'' else Some ''a''), ce_id = Map.empty,
      ce_make = (\<lambda>def i opt. Inr (empty_cluster (cd_name def) opt))\<rparr>"

definition program_clusters_created :: "string option \<Rightarrow> (go_error + Clusters) option" where
  "program_clusters_created dnstarget =
     CreateClusters (program_env dnstarget) program_clusters rev [''default'', ''target'', ''dnstarget'']"

lemma program_runs:
  "case program_clusters_created (Some ''c'') of
     Some (Inr cls) \<Rightarrow> comes_up (\<lambda>_. True) lb_def (sample_network\<lparr>ne_clusters := cls\<rparr>) (main_mapping ''dnslb-loadbalancer'')
   | _ \<Rightarrow> False"
  by code_simp

lemma program_env_names: "names_kept (program_env dnstarget) program_clusters"
  by (auto simp: names_kept_def program_env_def empty_cluster_def program_clusters_def registry_defs split: if_splits)


end
