(* ===== verification/UsageReconciler.thy ===== *)
theory UsageReconciler
  imports EndpointReconciler Resource Samples
begin

text \<open>
  The reconciler registered as \<open>usages\<close> by the endpoint controller (\<open>reconcilers/usagecache.go\<close>): it keeps
  the cache of usages up to date, and when a load balancer changes or vanishes it puts the sources that use it
  into the work queue again. It has no reconciler nested in it. \<open>mk\<close> and \<open>mc\<close> are the kinds and the clusters
  of the sources.
\<close>

section \<open>The reconciler\<close>

definition usage_GetOwnersFor :: "StringSet \<Rightarrow> UsageCache \<Rightarrow> ClusterObjectKey \<Rightarrow> bool \<Rightarrow> ClusterObjectKeySet" where
  "usage_GetOwnersFor mc this key all_clusters =
     (let set' = GetOwnersFor this key [] in if all_clusters then set' else filterKeysByClusters set' mc [])"

fun usage_Reconcile ::
  "api \<Rightarrow> GroupKind list \<Rightarrow> StringSet \<Rightarrow> UsageCache \<Rightarrow> Object \<Rightarrow> world \<Rightarrow> UsageCache \<times> Status \<times> world" where
  "usage_Reconcile a mk mc this obj w =
     (case (ck_groupKind (o_ClusterKey obj) \<in> set mk, obj) of
        (True, OSource s) \<Rightarrow> (fst (RenewOwner this s), RSucceeded, w)
      | _ \<Rightarrow> (this, RSucceeded, requeueMasters a (usage_GetOwnersFor mc this (o_ClusterKey obj) False) w))"

definition usage_Deleted ::
  "api \<Rightarrow> GroupKind list \<Rightarrow> StringSet \<Rightarrow> UsageCache \<Rightarrow> ClusterObjectKey \<Rightarrow> world \<Rightarrow> UsageCache \<times> Status \<times> world" where
  "usage_Deleted a mk mc this key w =
     (if ck_groupKind key \<in> set mk then (usage_DeleteOwner this key, RSucceeded, w)
      else (this, RSucceeded, requeueMasters a (usage_GetOwnersFor mc this key False) w))"

section \<open>Who is put into the queue\<close>

text \<open>Whenever the server is asked for the source, it does not say that the source is being deleted.\<close>

definition lives :: "api \<Rightarrow> ClusterObjectKey \<Rightarrow> bool" where
  "lives a key \<longleftrightarrow> (\<forall>t m. api_getSource a t key = Inr m \<longrightarrow> \<not> IsDeleting (s_meta m))"

lemma requeue_step_trace:
  "\<exists>xs. w_trace (requeue_step a w key) = w_trace w @ xs \<and> set xs \<subseteq> {GetSource key, EnqueueKey key} \<and>
    (lives a key \<longrightarrow> EnqueueKey key \<in> set xs)"
  by (auto simp: requeue_step_def Let_def emit_def lives_def split: sum.split)

lemma requeueMasters_trace:
  "\<exists>xs. w_trace (requeueMasters a masters w) = w_trace w @ xs \<and>
    (\<forall>key. EnqueueKey key \<in> set xs \<longrightarrow> key \<in> set masters) \<and> (\<forall>key\<in>set masters. lives a key \<longrightarrow> EnqueueKey key \<in> set xs)"
proof (induction masters arbitrary: w)
  case (Cons m masters)
  obtain xs where xs: "w_trace (requeue_step a w m) = w_trace w @ xs" "set xs \<subseteq> {GetSource m, EnqueueKey m}"
    "lives a m \<longrightarrow> EnqueueKey m \<in> set xs" using requeue_step_trace by blast
  obtain ys where ys: "w_trace (requeueMasters a masters (requeue_step a w m)) = w_trace (requeue_step a w m) @ ys"
    "\<forall>key. EnqueueKey key \<in> set ys \<longrightarrow> key \<in> set masters" "\<forall>key\<in>set masters. lives a key \<longrightarrow> EnqueueKey key \<in> set ys"
    using Cons.IH by blast
  have "requeueMasters a (m # masters) w = requeueMasters a masters (requeue_step a w m)" by (simp add: requeueMasters_def)
  with xs ys show ?case by (intro exI [of _ "xs @ ys"]) auto
qed (simp add: requeueMasters_def)

lemma set_filterKeysByClusters:
  "set (filterKeysByClusters keys clusters []) = {k \<in> set keys. ck_cluster k \<in> set clusters}"
  by (auto simp: filterKeysByClusters_def Let_def set_Add)


text \<open>The witness: a service uses the load balancer, and the server does not find it any more.\<close>

definition sample_user :: ClusterObjectKey where
  "sample_user = NewClusterKey ''a'' (NewGroupKind '''' ''Service'') ''ns'' ''svc''"

definition sample_usages :: "DNSLoadBalancer \<Rightarrow> UsageCache" where
  "sample_usages lb = usage_add (NewUsageCache (\<lambda>_. [])) sample_user (lb_ClusterKey lb)"


end
