(* ===== verification/Spec2Isabelle.thy ===== *)
theory Spec2Isabelle
  imports Metrics HandleProps DeepCopyProps FakeCalls InformerProps Published CrdProps WiringProps UsageReconciler
begin

text \<open>
  A model of the DNS load balancer controller manager (\<open>pkg/dnslb\<close> and the parts of the vendored
  \<open>controller-manager-library\<close> and \<open>client-go\<close> it works with), and the theorems that make it correct.

  \<^bold>\<open>The program.\<close> A load balancer (\<open>DNSLoadBalancer\<close>) gives a DNS name to services that run in several
  clusters. Every such cluster has an endpoint controller, which watches services and ingresses. A
  source with the annotation \<open>loadbalancer.gardener.cloud/dnsloadbalancer\<close> gets an endpoint object
  (\<open>DNSLoadBalancerEndpoint\<close>) in the cluster of the load balancer and a finalizer; the endpoint is
  valid for a limited time and renewed by every reconciliation. The DNS controller watches the load
  balancers and their endpoints. For each load balancer it checks the health of the endpoints and
  tells the DNS source controller of \<open>external-dns-management\<close>, which is part of the program, which targets
  to publish: the healthy ones (mode balanced) or one of them, with preference for the published one (mode
  exclusive). That controller writes them into DNS entries (\<open>DNSEntry\<close>), from which other programs
  make DNS records. The outcome comes back through a callback, which writes the statuses of the load
  balancer and of its endpoints. All of them talk to the API server by the generated client.

  \<^bold>\<open>Theories and code.\<close> In the order in which they build on each other:

  \<^item> \<open>Prelude\<close>: Go's errors, panics (\<open>outcome\<close>), maps and the string functions of its library.
  \<^item> \<open>Keys\<close>: \<open>resources/objectname.go\<close>, \<open>keys.go\<close>, \<open>utils/stringset.go\<close>: names and keys of objects.
  \<^item> \<open>SubCache\<close>, \<open>SubCacheInv\<close>, \<open>SubCacheOps\<close>: \<open>resources/subcache.go\<close>, the index from owners to the
    objects they own; its counts as an invariant, and the effect of each operation on the relation
    it represents.
  \<^item> \<open>Api\<close>: \<open>pkg/apis/loadbalancer/v1beta1\<close>, the custom resources, and the parts of services and
    ingresses that the code reads.
  \<^item> \<open>CacheIndex\<close>: the locale \<open>owner_index\<close>, what the controllers rely on in a cache, interpreted by the
    sub object cache of endpoints (\<open>ep_cache\<close>).
  \<^item> \<open>World\<close>: calls that leave the process. They are recorded in order in a trace; what the API server
    answers is a parameter. \<open>Metrics\<close>: \<open>pkg/server/metrics\<close>.
  \<^item> \<open>Objects\<close>, \<open>Reconcile\<close>: status updates (\<open>pkg/dnslb/utils\<close>) with the assure functions, the statuses
    of reconcilers, and the worker's loop with the operation on the work queue that ends it.
  \<^item> \<open>StateLog\<close>, \<open>Feedback\<close>, \<open>Watch\<close> with \<open>FeedbackProps\<close>, \<open>WatchProps\<close>, \<open>HandleProps\<close>:
    \<open>pkg/dnslb/lb/watch\<close>, health checks, selection of targets, and the callback.
  \<^item> \<open>LbState\<close>, \<open>DnsSource\<close>: \<open>pkg/dnslb/lb/state.go\<close>, \<open>state_reconciler.go\<close> and \<open>dns_source.go\<close>.
  \<^item> \<open>Modification\<close>: \<open>resources/obj_internal.go\<close>, the loop that modifies an object, for every kind of object:
    the locale \<open>object_store\<close>, interpreted by sources (\<open>source_store\<close>) and DNS entries (\<open>de_store\<close>).
  \<^item> \<open>Owners\<close>, \<open>Sources\<close>, \<open>Usages\<close>, \<open>Finalizers\<close>, \<open>Slaves\<close>: owner references, the sources of endpoints
    (\<open>pkg/dnslb/endpoint/sources\<close>), the usage cache, finalizers, and the cache of endpoints.
  \<^item> \<open>Endpoint\<close>, \<open>EndpointReconciler\<close> with \<open>EndpointProps\<close>, \<open>EndpointLife\<close>, \<open>EndpointDelete\<close>:
    \<open>pkg/dnslb/endpoint\<close>, the endpoint controller.
  \<^item> \<open>Memory\<close>, \<open>DeepCopy\<close>, \<open>DeepCopyProps\<close>: the generated deep copies (\<open>zz_generated.deepcopy.go\<close>) on a
    store of cells, with pointers as addresses.
  \<^item> \<open>Rest\<close>, \<open>Client\<close>, \<open>ClientProps\<close>: \<open>pkg/client/clientset/versioned\<close>, the requests of the typed
    clients; for them, the request builder of \<open>client-go/rest\<close>.
  \<^item> \<open>Tracker\<close>, \<open>FakeClient\<close>, \<open>FakeProps\<close>, \<open>FakeCalls\<close>: the fake clientset and the object tracker of
    \<open>client-go/testing\<close> below it.
  \<^item> \<open>Informers\<close>, \<open>InformerProps\<close>: \<open>pkg/client/informers\<close> and \<open>pkg/client/listers\<close>.
  \<^item> \<open>System\<close>: the way of a source through both controllers, from its reconciliation to the targets of
    its load balancer.
  \<^item> \<open>DnsController\<close>, \<open>DnsReconciler\<close>: \<open>dns/source/reconciler.go\<close>, \<open>dnsinfo.go\<close>, \<open>dns/utils/class.go\<close> and
    \<open>finalizer.go\<close> of \<open>external-dns-management\<close>: the reconciler that creates, updates and deletes the DNS
    entries of a load balancer; \<open>DnsWrites\<close> and \<open>DnsProps\<close>: what it writes.
  \<^item> \<open>Published\<close>: from a source to the DNS entry of its name. \<open>UsageReconciler\<close>: who is reconciled again when a load balancer changes.
  \<^item> \<open>Scheme\<close>, \<open>Crds\<close>, \<open>CrdProps\<close>: \<open>register.go\<close> of the types and of both clientsets, the custom resource
    definitions (\<open>pkg/crds\<close>) and what an API server with them serves.
  \<^item> \<open>Resource\<close>, \<open>WorkQueue\<close>: objects of any kind with their accessors (\<open>ep.go\<close>, \<open>lb.go\<close>), and the keys of
    the work queue.
  \<^item> \<open>Clusters\<close>: the clusters of the program, how options and fallbacks create them
    (\<open>controllermanager/cluster\<close>), and how a controller's names for clusters are mapped (\<open>main.go\<close>).
  \<^item> \<open>Builder\<close>, \<open>Controllers\<close>, \<open>Worker\<close>, \<open>Dispatch\<close>: \<open>controllermanager/controller\<close>, the configuration of a
    controller, its pools and watches, the round of a worker, and which reconciler is called for what.
  \<^item> \<open>Wiring\<close>, \<open>WiringProps\<close>: the configurations of the two controllers (\<open>pkg/dnslb/endpoint/controller.go\<close>,
    \<open>pkg/dnslb/lb/controller.go\<close>) and what they amount to.
  \<^item> \<open>Samples\<close>: concrete objects on which the theorems are applied.

  \<^bold>\<open>How code becomes definitions.\<close> A struct is a record, a method a function from the receiver to the
  receiver, with the world as further state where it calls out. A nil pointer is \<open>None\<close>; a nil
  dereference and an explicit panic are \<open>Panic\<close>. Objects are values in the theories of the
  controllers. That is faithful as long as the code works on copies; where it does not, the alias is
  modelled: \<open>set_object\<close> writes through the pointer of a cache entry, and the state reconciler writes
  the status into the cached object. \<open>Memory\<close> and \<open>DeepCopy\<close> give the other half: what a deep copy
  shares with its original.

  \<^bold>\<open>What the lemmas show.\<close>

  \<^item> Selection: what \<open>Handle\<close> publishes is healthy, exactly the healthy targets or one of them; it
    prefers the published one; it writes only when nothing is healthy; it panics exactly on an empty
    answer of a DNS lookup.
  \<^item> Feedback: a callback writes once, whatever comes after; the writes as an explicit list.
  \<^item> Caches: the sub object cache implements a relation, the state of the DNS controller a map from
    keys to endpoints; neither panics.
  \<^item> Endpoint controller: endpoints are written only for valid sources with a finalizer, one
    reconciliation creates an endpoint and the next ones leave it alone, deletion removes endpoints
    before the finalizer; and where that fails.
  \<^item> Deep copies: typed, equal to the original as values, and disjoint from it, so writing to one
    never shows in the other. The locales \<open>copier\<close>, \<open>pointer_copier\<close> and \<open>array_copier\<close> state what a
    \<open>DeepCopyInto\<close> promises and prove it for pointers and slices; every type interprets them.
  \<^item> Clients: each call sends one request, whose path parses back to what the call was about. The
    locale \<open>typed_interface\<close> says what the two generated clients have in common, both interpret it.
    The fake client implements a map from names to objects and mirrors the requests of the real one.
  \<^item> The whole way: a reconciled source gets an endpoint that, once the DNS controller saw it and while it
    is healthy, is a target of the load balancer in its DNS entry; after its deletion it never is one.
  \<^item> DNS entries: whatever the answers of the server, only hosts of live and healthy endpoints are written; the
    entries of a load balancer go before its finalizer; updates settle; and an update takes the owner from
    entries in other clusters.
  \<^item> Start: the clusters that options and fallbacks name are found, and no others; a controller hands
    the events of exactly the kinds it watches to exactly the reconcilers it was configured with, through
    the key in the queue and one round of the worker; and where the DNS controller watches endpoints.
  \<^item> Types: every scheme knows each type under its kind; the custom resource definitions serve all
    calls of the generated clients but those that update a status alone.
  \<^item> Informers: every sequence of operations on the factory starts an informer at most once; waiting
    for the caches ends when they get synced.

  \<^bold>\<open>Bounds.\<close> The modification loop makes ten rounds, as the code does. Selections by sorting and by map
  iteration are loops over lists; the order of a map is a parameter (\<open>rng\<close>) wherever the result may
  depend on it. \<open>WaitFor\<close> may run for ever: it is a partial function, and that it returns is proved.
  So is the loop that creates the clusters, which ends because every round but the last finds one.
  Times and durations are integers (nanoseconds), far from the limits of 64 bits.

  \<^bold>\<open>Not modelled.\<close> The API server, DNS lookups, HTTP requests, the clock, label selectors, patches, JSON
  and the informers of \<open>client-go\<close> are parameters. Left out are the parsing of options, leases, resource
  filters, health ticks, the registration of Prometheus gauges, conversions and defaults of schemes, and
  \<open>scope.go\<close>, which does not compile and is not imported. Locks are not modelled: every operation holds
  the lock of its structure and counts as one step.
\<close>

end
